(* ===== verification/Prelude.thy ===== *)
theory Prelude
  imports Main "HOL-Library.Word" "HOL-Library.Multiset" "HOL-Library.List_Lexorder" "HOL-Library.Char_ord"
begin

text \<open>
  What every theory of the development shares: the machine integers of the Go code as words, Go's
  results (a value, an error, or a panic) as one datatype with its bind, the sentinel errors the
  code compares with \<open>==\<close>, the parts of Go's standard library the code uses (decimal
  printing, \<open>sort.SliceStable\<close>, \<open>strings.Split\<close>), and generic lemmas on
  lists and maps. The two collections \<open>go_simps\<close> and \<open>coll_simps\<close> gather
  the rewrite rules that the component proofs pass to \<open>simp\<close> and \<open>auto\<close>.
\<close>

named_theorems go_simps "rewrite rules for the results and the standard library of Go"
named_theorems coll_simps "rewrite rules for the collections and their rows"

section \<open>Machine integers\<close>

type_synonym uint64 = "64 word"
type_synonym int64 = "64 word"
type_synonym uint32 = "32 word"
type_synonym int32 = "32 word"

section \<open>Results, errors and panics\<close>

text \<open>
  The code compares some errors by identity with package variables; those are constructors of
  their own. \<open>StatusNotFound\<close> is \<open>errors.NewNotFound\<close> of the Kubernetes API machinery, which the code
  recognises with \<open>errors.IsNotFound\<close>. Every other error is built from a message (\<open>errors.New\<close>, \<open>fmt.Errorf\<close>) or by
  wrapping another one (\<open>errors.Wrap\<close>, \<open>errors.Wrapf\<close>).
\<close>

datatype go_error =
    errIDRequired
  | ErrNotFound
  | ErrAlreadyExists
  | errEnqueueFailed
  | ErrClusterSubSetNotFound
  | StatusNotFound string string
  | NewError string
  | Wrap string go_error

text \<open>A Go call returns a value, returns a non-nil error, or panics.\<close>

datatype 'a result = Ok 'a | Err go_error | Panic string

fun rbind :: "'a result \<Rightarrow> ('a \<Rightarrow> 'b result) \<Rightarrow> 'b result" where
  "rbind (Ok x) f = f x"
| "rbind (Err e) f = Err e"
| "rbind (Panic m) f = Panic m"

text \<open>\<open>if err != nil { return nil, errors.Wrap(err, msg) }\<close>: only errors are wrapped.\<close>

fun wrap_err :: "string \<Rightarrow> 'a result \<Rightarrow> 'a result" where
  "wrap_err msg (Ok x) = Ok x"
| "wrap_err msg (Err e) = Err (Wrap msg e)"
| "wrap_err msg (Panic m) = Panic m"

fun is_Ok :: "'a result \<Rightarrow> bool" where
  "is_Ok (Ok x) = True"
| "is_Ok _ = False"

fun is_Panic :: "'a result \<Rightarrow> bool" where
  "is_Panic (Panic m) = True"
| "is_Panic _ = False"

lemma rbind_Ok_iff [go_simps]: "rbind m f = Ok y \<longleftrightarrow> (\<exists>x. m = Ok x \<and> f x = Ok y)"
  by (cases m) auto

lemma rbind_Err_iff [go_simps]:
  "rbind m f = Err e \<longleftrightarrow> m = Err e \<or> (\<exists>x. m = Ok x \<and> f x = Err e)"
  by (cases m) auto

lemma rbind_Panic_iff [go_simps]:
  "rbind m f = Panic s \<longleftrightarrow> m = Panic s \<or> (\<exists>x. m = Ok x \<and> f x = Panic s)"
  by (cases m) auto

lemma wrap_err_Ok_iff [simp]: "wrap_err msg m = Ok x \<longleftrightarrow> m = Ok x"
  by (cases m) auto

lemma wrap_err_Panic_iff [simp]: "wrap_err msg m = Panic s \<longleftrightarrow> m = Panic s"
  by (cases m) auto

lemma wrap_err_Err_iff [go_simps]: "wrap_err msg m = Err e \<longleftrightarrow> (\<exists>e'. m = Err e' \<and> e = Wrap msg e')"
  by (cases m) auto

text \<open>
  A loop over a slice that returns at the first error: \<open>for _, x := range xs { s, err = f(x, s);
  if err != nil { return err } }\<close>.
\<close>

fun rfold :: "('a \<Rightarrow> 's \<Rightarrow> 's result) \<Rightarrow> 'a list \<Rightarrow> 's \<Rightarrow> 's result" where
  "rfold f [] s = Ok s"
| "rfold f (x # xs) s = rbind (f x s) (rfold f xs)"

lemma rfold_append: "rfold f (xs @ ys) s = rbind (rfold f xs s) (rfold f ys)"
proof (induction xs arbitrary: s)
  case (Cons x xs)
  then show ?case by (cases "f x s") auto
qed simp

lemma rfold_invariant:
  assumes "rfold f xs s = Ok s'" and "P s"
    and "\<And>x s s'. x \<in> set xs \<Longrightarrow> P s \<Longrightarrow> f x s = Ok s' \<Longrightarrow> P s'"
  shows "P s'"
  using assms
proof (induction xs arbitrary: s)
  case (Cons x xs)
  then obtain s1 where "f x s = Ok s1" "rfold f xs s1 = Ok s'"
    by (auto simp: go_simps)
  with Cons show ?case by (metis list.set_intros)
qed simp

text \<open>Loops that always return, and what one iteration establishes and the others keep.\<close>

lemma rfold_total: "\<forall>x\<in>set xs. \<forall>s. \<exists>s'. f x s = Ok s' \<Longrightarrow> \<exists>s'. rfold f xs s = Ok s'"
  by (induction xs arbitrary: s) (auto, metis rbind.simps(1))

lemma in_enumerate: "x \<in> set xs \<Longrightarrow> \<exists>i. (i, x) \<in> set (enumerate n xs)"
  by (induction xs arbitrary: n) auto

lemma rbind_total: "\<exists>x. m = Ok x \<Longrightarrow> (\<And>x. \<exists>y. f x = Ok y) \<Longrightarrow> \<exists>y. rbind m f = Ok y"
  by auto

lemma rfold_establishes:
  assumes "rfold f xs s = Ok s'" and "x \<in> set xs" and "\<And>s s'. f x s = Ok s' \<Longrightarrow> P s'"
    and "\<And>y s s'. y \<in> set xs \<Longrightarrow> P s \<Longrightarrow> f y s = Ok s' \<Longrightarrow> P s'"
  shows "P s'"
proof -
  from assms(2) obtain ys zs where xs: "xs = ys @ x # zs" by (auto simp: in_set_conv_decomp)
  with assms(1) obtain s1 s2 where "f x s1 = Ok s2" and s2: "rfold f zs s2 = Ok s'"
    by (auto simp: rfold_append go_simps)
  then have "P s2" using assms(3) by blast
  with s2 show ?thesis by (rule rfold_invariant) (use assms(4) xs in auto)
qed

section \<open>Decimal printing: strconv.Itoa and the verb %d\<close>

definition digit_char :: "nat \<Rightarrow> char" where
  "digit_char d = char_of (48 + d)"

fun utoa :: "nat \<Rightarrow> string" where
  "utoa n = (if n < 10 then [digit_char n] else utoa (n div 10) @ [digit_char (n mod 10)])"

declare utoa.simps [simp del]

definition itoa :: "int \<Rightarrow> string" where
  "itoa i = (if i < 0 then CHR ''-'' # utoa (nat (- i)) else utoa (nat i))"

definition undigits :: "string \<Rightarrow> nat" where
  "undigits s = foldl (\<lambda>a c. 10 * a + (of_char c - 48)) 0 s"

lemma of_char_digit: "d < 10 \<Longrightarrow> of_char (digit_char d) = 48 + d"
  by (simp add: digit_char_def)

lemma undigits_snoc: "undigits (s @ [c]) = 10 * undigits s + (of_char c - 48)"
  by (simp add: undigits_def)

text \<open>Reading a printed number gives it back, so printing is injective.\<close>

lemma undigits_utoa: "undigits (utoa n) = n"
proof (induction n rule: utoa.induct)
  case (1 n)
  show ?case
  proof (cases "n < 10")
    case True
    then show ?thesis by (simp add: utoa.simps [of n] undigits_def of_char_digit)
  next
    case False
    with 1 show ?thesis
      by (simp add: utoa.simps [of n] undigits_snoc of_char_digit)
  qed
qed

lemma utoa_inj [simp]: "utoa m = utoa n \<longleftrightarrow> m = n"
  using undigits_utoa by metis

lemma utoa_not_Nil [simp]: "utoa n \<noteq> []"
  by (simp add: utoa.simps [of n])

lemma digit_char_not_minus: "d < 10 \<Longrightarrow> digit_char d \<noteq> CHR ''-''"
proof
  assume "d < 10" and "digit_char d = CHR ''-''"
  then have "(of_char (CHR ''-'') :: nat) = 48 + d" using of_char_digit by metis
  then show False by simp
qed

lemma minus_notin_utoa: "CHR ''-'' \<notin> set (utoa n)"
proof (induction n rule: utoa.induct)
  case (1 n)
  then show ?case
    using digit_char_not_minus [of n] digit_char_not_minus [of "n mod 10"]
    by (auto simp: utoa.simps [of n])
qed

lemma itoa_inj [simp]: "itoa i = itoa j \<longleftrightarrow> i = j"
  using minus_notin_utoa [of "nat i"] minus_notin_utoa [of "nat j"]
  by (auto simp: itoa_def split: if_splits) (metis list.set_intros(1))+

lemma itoa_not_Nil [simp]: "itoa i \<noteq> []"
  by (simp add: itoa_def)

text \<open>Two unsigned numbers joined by a dash can be read back: the identifier of a bind.\<close>

lemma append_sep_inj:
  assumes "c \<notin> set xs" and "c \<notin> set ys" and "xs @ c # us = ys @ c # vs"
  shows "xs = ys \<and> us = vs"
  using assms
proof (induction xs arbitrary: ys)
  case Nil
  then show ?case by (cases ys) auto
next
  case (Cons x xs)
  then show ?case by (cases ys) auto
qed

section \<open>sort.SliceStable\<close>

text \<open>
  Go sorts runs of 20 elements by insertion, moving the next element left while it is less than
  its left neighbour, and merges the runs. \<open>SliceStable\<close> is the insertion step: what Go computes on
  up to 20 elements for any \<open>less\<close>, and on any slice when \<open>less\<close> compares keys, because the
  stable sorted permutation is unique then (\<open>SliceStable_sort_key\<close>). The prefix is kept reversed.
\<close>

fun insert_left :: "('a \<Rightarrow> 'a \<Rightarrow> bool) \<Rightarrow> 'a \<Rightarrow> 'a list \<Rightarrow> 'a list" where
  "insert_left lt x [] = [x]"
| "insert_left lt x (y # ys) = (if lt x y then y # insert_left lt x ys else x # y # ys)"

definition SliceStable :: "('a \<Rightarrow> 'a \<Rightarrow> bool) \<Rightarrow> 'a list \<Rightarrow> 'a list" where
  "SliceStable lt xs = rev (fold (insert_left lt) xs [])"

lemma mset_insert_left: "mset (insert_left lt x ys) = add_mset x (mset ys)"
  by (induction ys) auto

lemma mset_fold_insert_left: "mset (fold (insert_left lt) xs ys) = mset xs + mset ys"
  by (induction xs arbitrary: ys) (auto simp: mset_insert_left)

lemma mset_SliceStable [simp]: "mset (SliceStable lt xs) = mset xs"
  by (simp add: SliceStable_def mset_fold_insert_left)

lemma set_SliceStable [simp]: "set (SliceStable lt xs) = set xs"
  by (metis mset_SliceStable set_mset_mset)

lemma length_SliceStable [simp]: "length (SliceStable lt xs) = length xs"
  by (metis mset_SliceStable size_mset)

lemma sorted_insert_left:
  fixes k :: "'a \<Rightarrow> 'b::linorder"
  shows "sorted_wrt (\<ge>) (map k ys) \<Longrightarrow>
    sorted_wrt (\<ge>) (map k (insert_left (\<lambda>a b. k a < k b) x ys))"
proof (induction ys)
  case (Cons y ys)
  have "set (insert_left (\<lambda>a b. k a < k b) x ys) = insert x (set ys)"
    by (metis mset_insert_left set_mset_add_mset_insert set_mset_mset)
  with Cons show ?case by auto
qed simp

lemma filter_insert_left:
  fixes k :: "'a \<Rightarrow> 'b::linorder"
  assumes "sorted_wrt (\<ge>) (map k ys)"
  shows "filter (\<lambda>a. c = k a) (insert_left (\<lambda>a b. k a < k b) x ys) =
    filter (\<lambda>a. c = k a) (x # ys)"
  using assms
proof (induction ys)
  case (Cons y ys)
  then show ?case by (auto split: if_splits)
qed simp

lemma fold_insert_left_spec:
  fixes k :: "'a \<Rightarrow> 'b::linorder"
  assumes "sorted_wrt (\<ge>) (map k ys)"
  shows "sorted_wrt (\<ge>) (map k (fold (insert_left (\<lambda>a b. k a < k b)) xs ys)) \<and>
    filter (\<lambda>a. c = k a) (fold (insert_left (\<lambda>a b. k a < k b)) xs ys) =
      filter (\<lambda>a. c = k a) (rev xs @ ys)"
  using assms
proof (induction xs arbitrary: ys)
  case (Cons x xs)
  have srt: "sorted_wrt (\<ge>) (map k (insert_left (\<lambda>a b. k a < k b) x ys))"
    by (rule sorted_insert_left [OF Cons.prems])
  show ?case
    using Cons.IH [OF srt] filter_insert_left [OF Cons.prems, of c x]
    by (auto split: if_splits)
qed simp

lemma SliceStable_sort_key:
  fixes k :: "'a \<Rightarrow> 'b::linorder"
  shows "SliceStable (\<lambda>a b. k a < k b) xs = sort_key k xs"
proof (rule properties_for_sort_key [symmetric])
  let ?r = "fold (insert_left (\<lambda>a b. k a < k b)) xs []"
  note spec = fold_insert_left_spec [of k "[]" xs]
  show "mset (SliceStable (\<lambda>a b. k a < k b) xs) = mset xs" by simp
  show "filter (\<lambda>b. k a = k b) (SliceStable (\<lambda>a b. k a < k b) xs) = filter (\<lambda>b. k a = k b) xs"
    for a
    using spec [of "k a"] by (simp add: SliceStable_def flip: rev_filter)
  show "sorted (map k (SliceStable (\<lambda>a b. k a < k b) xs))"
    using spec by (simp add: SliceStable_def rev_map [symmetric] sorted_wrt_rev)
qed

section \<open>strings.Split with a one-character separator\<close>

fun split_on :: "char \<Rightarrow> string \<Rightarrow> string list" where
  "split_on c [] = [[]]"
| "split_on c (x # xs) =
     (if x = c then [] # split_on c xs
      else (case split_on c xs of [] \<Rightarrow> [[x]] | w # ws \<Rightarrow> (x # w) # ws))"

lemma split_on_not_Nil [simp]: "split_on c xs \<noteq> []"
  by (cases xs) (auto split: list.splits)

lemma split_on_nosep: "c \<notin> set xs \<Longrightarrow> split_on c xs = [xs]"
  by (induction xs) auto

lemma split_on_sep: "c \<notin> set xs \<Longrightarrow> split_on c (xs @ c # ys) = xs # split_on c ys"
  by (induction xs) auto

lemma length_split_on: "length (split_on c xs) = Suc (count_list xs c)"
  by (induction xs) (auto split: list.splits)

lemma split_on_two_iff: "split_on c xs = [u, v] \<longleftrightarrow> c \<notin> set u \<and> c \<notin> set v \<and> xs = u @ c # v"
proof
  assume two: "split_on c xs = [u, v]"
  then have "count_list xs c = 1" using length_split_on [of c xs] by simp
  then have "c \<in> set xs" by (metis count_notin zero_neq_one)
  then obtain u' v' where xs: "xs = u' @ c # v'" "c \<notin> set u'" by (metis split_list_first)
  with \<open>count_list xs c = 1\<close> have "count_list v' c = 0" by simp
  then have "c \<notin> set v'" by (simp add: count_list_0_iff)
  with two xs show "c \<notin> set u \<and> c \<notin> set v \<and> xs = u @ c # v" by (simp add: split_on_sep split_on_nosep)
qed (simp add: split_on_sep split_on_nosep)

section \<open>Lists and maps\<close>

lemma ran_upd_subset: "ran (m(k \<mapsto> v)) \<subseteq> insert v (ran m)"
  by (auto simp: ran_def)

lemma ran_del_subset: "ran (m(k := None)) \<subseteq> ran m"
  by (auto simp: ran_def split: if_splits)

lemma ranD: "y \<in> ran m \<Longrightarrow> \<exists>x. m x = Some y"
  by (auto simp: ran_def)

end
