(* ===== verification/Memdb.thy ===== *)
theory Memdb
  imports Prelude
begin

text \<open>
  The in-memory database \<open>github.com/hashicorp/go-memdb\<close> that the state package is built on. The
  library is not part of the repository, so its operations are a parameter of the model, the record
  \<open>memdb\<close>, and what the state package relies on is the locale \<open>memdb_spec\<close>: the documented behaviour
  of a table with a unique primary index \<open>id\<close> and further unique indexes on string fields. A write
  transaction works on a snapshot; the code publishes it with \<open>Commit\<close> and otherwise drops it with
  the deferred \<open>Abort\<close>, so an operation of the model returns the new database or an error.

  The locale promises nothing once two rows share a value of a unique index: the library does not
  refuse such an insertion, it lets the newer row take over the index entry.
\<close>

section \<open>Schemas\<close>

datatype indexer = StringFieldIndex string | ConditionalIndex

record IndexSchema =
  Ix_Name :: string
  Ix_Unique :: bool
  Ix_AllowMissing :: bool
  Ix_Indexer :: indexer

record TableSchema =
  Tbl_Name :: string
  Tbl_Indexes :: "(string \<times> IndexSchema) list"

type_synonym DBSchema = "(string \<times> TableSchema) list"

section \<open>The operations of the library\<close>

record ('db, 'o) memdb =
  NewMemDB :: "DBSchema \<Rightarrow> 'db result"
  txn_Insert :: "'db \<Rightarrow> string \<Rightarrow> 'o \<Rightarrow> 'db result"
  txn_Delete :: "'db \<Rightarrow> string \<Rightarrow> 'o \<Rightarrow> 'db result"
  txn_First :: "'db \<Rightarrow> string \<Rightarrow> string \<Rightarrow> string \<Rightarrow> 'o option result"
  txn_Get :: "'db \<Rightarrow> string \<Rightarrow> string \<Rightarrow> bool \<Rightarrow> 'o list result"

section \<open>The contract\<close>

text \<open>The value an object has in an index of a table; empty where the index has no value for it.\<close>

definition index_val :: "DBSchema \<Rightarrow> ('o \<Rightarrow> string \<Rightarrow> string option) \<Rightarrow> string \<Rightarrow> string \<Rightarrow> 'o \<Rightarrow> string" where
  "index_val sch fld t n x =
     (case map_of sch t of
        None \<Rightarrow> []
      | Some ts \<Rightarrow>
          (case map_of (Tbl_Indexes ts) n of
             None \<Rightarrow> []
           | Some ix \<Rightarrow>
               (case Ix_Indexer ix of
                  ConditionalIndex \<Rightarrow> []
                | StringFieldIndex f \<Rightarrow> (case fld x f of None \<Rightarrow> [] | Some s \<Rightarrow> s))))"

definition string_indexes :: "DBSchema \<Rightarrow> string \<Rightarrow> (string \<times> IndexSchema) list" where
  "string_indexes sch t =
     (case map_of sch t of
        None \<Rightarrow> []
      | Some ts \<Rightarrow> filter (\<lambda>(n, ix). Ix_Indexer ix \<noteq> ConditionalIndex \<and> Ix_Unique ix) (Tbl_Indexes ts))"

definition unique_indexes :: "DBSchema \<Rightarrow> string \<Rightarrow> string list" where
  "unique_indexes sch t = map fst (string_indexes sch t)"

definition required_indexes :: "DBSchema \<Rightarrow> string \<Rightarrow> string list" where
  "required_indexes sch t = map fst (filter (\<lambda>(n, ix). \<not> Ix_AllowMissing ix) (string_indexes sch t))"

locale memdb_spec =
  fixes D :: "('db, 'o) memdb"
    and fld :: "'o \<Rightarrow> string \<Rightarrow> string option"
    and sch :: DBSchema
    and rows :: "'db \<Rightarrow> string \<Rightarrow> string \<rightharpoonup> 'o"
    and inv :: "'db \<Rightarrow> bool"
  assumes new_ok: "\<exists>db. NewMemDB D sch = Ok db \<and> inv db \<and> rows db = (\<lambda>t. Map.empty)"
    and rows_pk: "inv db \<Longrightarrow> rows db t k = Some x \<Longrightarrow> index_val sch fld t ''id'' x = k \<and> k \<noteq> []"
    and rows_unique: "inv db \<Longrightarrow> rows db t k = Some x \<Longrightarrow> rows db t k' = Some y \<Longrightarrow>
      n \<in> set (unique_indexes sch t) \<Longrightarrow> index_val sch fld t n x \<noteq> [] \<Longrightarrow>
      index_val sch fld t n y = index_val sch fld t n x \<Longrightarrow> k = k'"
    and insert_ok: "inv db \<Longrightarrow> t \<in> set (map fst sch) \<Longrightarrow>
      \<forall>n\<in>set (required_indexes sch t). index_val sch fld t n x \<noteq> [] \<Longrightarrow>
      \<forall>k y n. rows db t k = Some y \<and> n \<in> set (unique_indexes sch t) \<and> index_val sch fld t n x \<noteq> [] \<and>
        index_val sch fld t n y = index_val sch fld t n x \<longrightarrow> k = index_val sch fld t ''id'' x \<Longrightarrow>
      \<exists>db'. txn_Insert D db t x = Ok db' \<and> inv db' \<and>
        rows db' = (rows db)(t := (rows db t)(index_val sch fld t ''id'' x \<mapsto> x))"
    and insert_missing: "inv db \<Longrightarrow> t \<in> set (map fst sch) \<Longrightarrow> index_val sch fld t ''id'' x = [] \<Longrightarrow>
      \<exists>m. txn_Insert D db t x = Err (NewError m)"
    and delete_ok: "inv db \<Longrightarrow> rows db t (index_val sch fld t ''id'' x) \<noteq> None \<Longrightarrow>
      \<exists>db'. txn_Delete D db t x = Ok db' \<and> inv db' \<and>
        rows db' = (rows db)(t := (rows db t)(index_val sch fld t ''id'' x := None))"
    and delete_missing: "inv db \<Longrightarrow> t \<in> set (map fst sch) \<Longrightarrow>
      rows db t (index_val sch fld t ''id'' x) = None \<Longrightarrow> \<exists>m. txn_Delete D db t x = Err (NewError m)"
    and first_hit: "inv db \<Longrightarrow> rows db t k = Some x \<Longrightarrow> n \<in> set (unique_indexes sch t) \<Longrightarrow>
      index_val sch fld t n x = s \<Longrightarrow> s \<noteq> [] \<Longrightarrow> txn_First D db t n s = Ok (Some x)"
    and first_miss: "inv db \<Longrightarrow> n \<in> set (unique_indexes sch t) \<Longrightarrow>
      s = [] \<or> (\<forall>x\<in>ran (rows db t). index_val sch fld t n x \<noteq> s) \<Longrightarrow> txn_First D db t n s = Ok None"
    and get_all: "inv db \<Longrightarrow> t \<in> set (map fst sch) \<Longrightarrow>
      \<exists>xs. txn_Get D db t ''all'' True = Ok xs \<and> set xs = ran (rows db t) \<and>
        distinct (map (index_val sch fld t ''id'') xs)"

section \<open>A database that satisfies the contract\<close>

text \<open>
  The reference database of the witnesses keeps each table as the list of its rows. An insertion
  drops the row with the same primary key and appends the new one.
\<close>

type_synonym 'o listdb = "string \<Rightarrow> 'o list"

definition listdb_rows :: "DBSchema \<Rightarrow> ('o \<Rightarrow> string \<Rightarrow> string option) \<Rightarrow> 'o listdb \<Rightarrow> string \<Rightarrow> string \<rightharpoonup> 'o" where
  "listdb_rows sch fld db t = map_of (map (\<lambda>x. (index_val sch fld t ''id'' x, x)) (db t))"

definition listdb_inv :: "DBSchema \<Rightarrow> ('o \<Rightarrow> string \<Rightarrow> string option) \<Rightarrow> 'o listdb \<Rightarrow> bool" where
  "listdb_inv sch fld db \<longleftrightarrow> (\<forall>t.
     distinct (map (index_val sch fld t ''id'') (db t)) \<and>
     (\<forall>x\<in>set (db t). index_val sch fld t ''id'' x \<noteq> []) \<and>
     (\<forall>x\<in>set (db t). \<forall>y\<in>set (db t). \<forall>n\<in>set (unique_indexes sch t).
        index_val sch fld t n x \<noteq> [] \<longrightarrow> index_val sch fld t n y = index_val sch fld t n x \<longrightarrow> x = y))"

definition listdb :: "DBSchema \<Rightarrow> ('o \<Rightarrow> string \<Rightarrow> string option) \<Rightarrow> ('o listdb, 'o) memdb" where
  "listdb sch fld = \<lparr>
     NewMemDB = (\<lambda>s. Ok (\<lambda>t. [])),
     txn_Insert = (\<lambda>db t x.
       if \<forall>n\<in>set (''id'' # required_indexes sch t). index_val sch fld t n x \<noteq> []
       then Ok (db(t := filter (\<lambda>y. index_val sch fld t ''id'' y \<noteq> index_val sch fld t ''id'' x) (db t) @ [x]))
       else Err (NewError ''missing index'')),
     txn_Delete = (\<lambda>db t x.
       if \<exists>y\<in>set (db t). index_val sch fld t ''id'' y = index_val sch fld t ''id'' x
       then Ok (db(t := filter (\<lambda>y. index_val sch fld t ''id'' y \<noteq> index_val sch fld t ''id'' x) (db t)))
       else Err (NewError ''not found'')),
     txn_First = (\<lambda>db t n s.
       Ok (if s = [] then None else find (\<lambda>x. index_val sch fld t n x = s) (db t))),
     txn_Get = (\<lambda>db t n b. Ok (db t))\<rparr>"

lemma listdb_rows_Some:
  assumes "listdb_inv sch fld db"
  shows "listdb_rows sch fld db t k = Some x \<longleftrightarrow> x \<in> set (db t) \<and> index_val sch fld t ''id'' x = k"
proof -
  have "distinct (map fst (map (\<lambda>x. (index_val sch fld t ''id'' x, x)) (db t)))"
    using assms by (simp add: listdb_inv_def o_def)
  then show ?thesis by (auto simp: listdb_rows_def)
qed

lemma listdb_rows_None:
  "listdb_rows sch fld db t k = None \<longleftrightarrow> (\<forall>x\<in>set (db t). index_val sch fld t ''id'' x \<noteq> k)"
  by (auto simp: listdb_rows_def map_of_eq_None_iff image_image)

lemma listdb_ran:
  assumes "listdb_inv sch fld db"
  shows "ran (listdb_rows sch fld db t) = set (db t)"
  using listdb_rows_Some [OF assms, of t] by (auto simp: ran_def)

lemma map_of_keyed_filter:
  "map_of (map (\<lambda>x. (f x, x)) (filter (\<lambda>y. f y \<noteq> k) xs)) = (map_of (map (\<lambda>x. (f x, x)) xs))(k := None)"
  by (induction xs) (auto simp: fun_eq_iff)

lemma listdb_rows_remove:
  "listdb_rows sch fld (db(t := filter (\<lambda>y. index_val sch fld t ''id'' y \<noteq> k) (db t))) =
    (listdb_rows sch fld db)(t := (listdb_rows sch fld db t)(k := None))"
  by (rule ext) (simp add: listdb_rows_def map_of_keyed_filter)

lemma listdb_rows_insert:
  "listdb_rows sch fld (db(t := filter (\<lambda>y. index_val sch fld t ''id'' y \<noteq> index_val sch fld t ''id'' x) (db t) @ [x])) =
    (listdb_rows sch fld db)(t := (listdb_rows sch fld db t)(index_val sch fld t ''id'' x \<mapsto> x))"
  by (rule ext) (auto simp: listdb_rows_def map_of_keyed_filter map_add_def fun_eq_iff split: option.splits)

lemma listdb_inv_remove: "listdb_inv sch fld db \<Longrightarrow> listdb_inv sch fld (db(t := filter P (db t)))"
  by (auto simp: listdb_inv_def distinct_map_filter)

lemma listdb_inv_insert:
  assumes inv: "listdb_inv sch fld db"
    and pk: "index_val sch fld t ''id'' x \<noteq> []"
    and nc: "\<forall>k y n. listdb_rows sch fld db t k = Some y \<and> n \<in> set (unique_indexes sch t) \<and>
        index_val sch fld t n x \<noteq> [] \<and> index_val sch fld t n y = index_val sch fld t n x \<longrightarrow>
        k = index_val sch fld t ''id'' x"
  shows "listdb_inv sch fld
    (db(t := filter (\<lambda>y. index_val sch fld t ''id'' y \<noteq> index_val sch fld t ''id'' x) (db t) @ [x]))"
    (is "listdb_inv sch fld ?db")
proof -
  have "n \<in> set (unique_indexes sch t) \<Longrightarrow> index_val sch fld t n x \<noteq> [] \<Longrightarrow>
      index_val sch fld t n y = index_val sch fld t n x \<Longrightarrow> y \<in> set (db t) \<Longrightarrow>
      index_val sch fld t ''id'' y = index_val sch fld t ''id'' x" for n y
    using nc listdb_rows_Some [OF inv, of t "index_val sch fld t ''id'' y" y] by blast
  note same = this
  show ?thesis
    unfolding listdb_inv_def
  proof (intro allI)
    fix t'
    show "distinct (map (index_val sch fld t' ''id'') (?db t')) \<and>
      (\<forall>x\<in>set (?db t'). index_val sch fld t' ''id'' x \<noteq> []) \<and>
      (\<forall>x\<in>set (?db t'). \<forall>y\<in>set (?db t'). \<forall>n\<in>set (unique_indexes sch t').
        index_val sch fld t' n x \<noteq> [] \<longrightarrow> index_val sch fld t' n y = index_val sch fld t' n x \<longrightarrow> x = y)"
    proof (cases "t' = t")
      case True
      from inv have d: "distinct (map (index_val sch fld t ''id'') (db t))"
        and ne: "\<forall>x\<in>set (db t). index_val sch fld t ''id'' x \<noteq> []"
        and u: "\<And>x y n. x \<in> set (db t) \<Longrightarrow> y \<in> set (db t) \<Longrightarrow> n \<in> set (unique_indexes sch t) \<Longrightarrow>
          index_val sch fld t n x \<noteq> [] \<Longrightarrow> index_val sch fld t n y = index_val sch fld t n x \<Longrightarrow> x = y"
        unfolding listdb_inv_def by blast+
      have "distinct (map (index_val sch fld t ''id'') (?db t))"
        using d by (auto simp: distinct_map_filter)
      moreover have "\<forall>x\<in>set (?db t). index_val sch fld t ''id'' x \<noteq> []"
        using ne pk by auto
      moreover have "y = z" if "y \<in> set (?db t)" "z \<in> set (?db t)" "n \<in> set (unique_indexes sch t)"
        "index_val sch fld t n y \<noteq> []" "index_val sch fld t n z = index_val sch fld t n y" for y z n
        using that u [of y z n] same [of n z] same [of n y] by fastforce
      ultimately show ?thesis using True by blast
    next
      case False
      then show ?thesis using inv by (simp add: listdb_inv_def)
    qed
  qed
qed

lemma find_unique:
  assumes "x \<in> set xs" and "P x" and "\<And>y. y \<in> set xs \<Longrightarrow> P y \<Longrightarrow> y = x"
  shows "find P xs = Some x"
proof -
  from assms(1,2) obtain y where y: "find P xs = Some y"
    by (metis find_None_iff not_None_eq)
  then have "y \<in> set xs" and "P y" by (auto simp: find_Some_iff)
  with assms(3) y show ?thesis by simp
qed

lemma listdb_first_hit:
  assumes inv: "listdb_inv sch fld db" and row: "listdb_rows sch fld db t k = Some x"
    and n: "n \<in> set (unique_indexes sch t)" and s: "index_val sch fld t n x = s" "s \<noteq> []"
  shows "find (\<lambda>x. index_val sch fld t n x = s) (db t) = Some x"
proof (rule find_unique)
  show x: "x \<in> set (db t)" using listdb_rows_Some [OF inv] row by simp
  show "index_val sch fld t n x = s" by (rule s)
  show "y = x" if "y \<in> set (db t)" "index_val sch fld t n y = s" for y
    using inv x that n s unfolding listdb_inv_def by metis
qed

text \<open>The primary index of the reference database must be required and must tell rows apart.\<close>

lemma listdb_spec:
  assumes "\<And>t. t \<in> set (map fst sch) \<Longrightarrow> ''id'' \<in> set (required_indexes sch t)"
    and "\<And>t x. t \<notin> set (map fst sch) \<Longrightarrow> index_val sch fld t ''id'' x = []"
  shows "memdb_spec (listdb sch fld) fld sch (listdb_rows sch fld) (listdb_inv sch fld)"
proof (unfold_locales, goal_cases)
  case 1
  show ?case by (auto simp: listdb_def listdb_inv_def listdb_rows_def)
next
  case (2 db t k x)
  then show ?case using listdb_rows_Some [OF 2(1)] by (auto simp: listdb_inv_def)
next
  case (3 db t k x k' y n)
  then show ?case using listdb_rows_Some [OF 3(1)] unfolding listdb_inv_def by metis
next
  case (4 db t x)
  have pk: "index_val sch fld t ''id'' x \<noteq> []" using 4(2,3) assms(1) by blast
  show ?case
    using 4(3) pk listdb_inv_insert [OF 4(1) pk 4(4)] by (simp add: listdb_def listdb_rows_insert)
next
  case (5 db t x)
  then show ?case by (simp add: listdb_def)
next
  case (6 db t x)
  then show ?case
    using listdb_inv_remove [OF 6(1)] by (auto simp: listdb_def listdb_rows_remove listdb_rows_None)
next
  case (7 db t x)
  then show ?case by (auto simp: listdb_def listdb_rows_None)
next
  case (8 db t k x n s)
  then show ?case using listdb_first_hit [OF 8(1,2,3,4)] by (simp add: listdb_def)
next
  case (9 db n t s)
  then show ?case
    using listdb_ran [OF 9(1), of t] by (auto simp: listdb_def find_None_iff)
next
  case (10 db t)
  then show ?case
    using listdb_ran [OF 10(1), of t] by (auto simp: listdb_def listdb_inv_def)
qed

end
