(* ===== verification/Metapb.thy ===== *)
theory Metapb
  imports Prelude
begin

text \<open>
  The messages of Manba's API (package \<open>metapb\<close> of the gateway, which is not part of the
  repository) as far as the controller names their fields. A message type is a record of the fields
  the controller reads or writes; the fields it never names are carried together in a \<open>_rest\<close>
  field, because they take part in copies and comparisons. Pointers to sub-messages that the
  controller only passes on are kept as their serialised bytes, \<open>pbmsg\<close>. A repeated field is a
  list: the messages that are compared have all been decoded, and decoding yields no empty non-nil
  slice.
\<close>

type_synonym pbmsg = string

datatype Status = Down | Up

datatype RoutingStrategy = Copy | Split

datatype Source = QueryString | FormData | JSONBody | Header | Cookie | PathValue

datatype RuleType = RuleRegexp

record metapb_Parameter =
  Param_Name :: string
  Param_Source :: Source

record metapb_ValidationRule =
  Rule_RuleType :: RuleType
  Rule_Expression :: string

record metapb_Validation =
  Val_Parameter :: metapb_Parameter
  Val_Required :: bool
  Val_Rules :: "metapb_ValidationRule list"

record metapb_DispatchNode =
  DN_ClusterID :: uint64
  DN_URLRewrite :: string
  DN_AttrName :: string
  DN_Validations :: "metapb_Validation list"
  DN_Cache :: "pbmsg option"
  DN_DefaultValue :: "pbmsg option"
  DN_UseDefault :: bool
  DN_BatchIndex :: int32
  DN_RetryStrategy :: "pbmsg option"
  DN_WriteTimeout :: int64
  DN_ReadTimeout :: int64
  DN_rest :: pbmsg
  DN_XXX_unrecognized :: string

record metapb_API =
  API_ID :: uint64
  API_Name :: string
  API_URLPattern :: string
  API_Method :: string
  API_Domain :: string
  API_Status :: Status
  API_IPAccessControl :: "pbmsg option"
  API_DefaultValue :: "pbmsg option"
  API_Nodes :: "metapb_DispatchNode list"
  API_AuthFilter :: string
  API_RenderTemplate :: "pbmsg option"
  API_UseDefault :: bool
  API_MatchRule :: int32
  API_Position :: uint32
  API_rest :: pbmsg
  API_XXX_unrecognized :: string

record metapb_Cluster =
  Cluster_ID :: uint64
  Cluster_Name :: string
  Cluster_LoadBalance :: int32
  Cluster_rest :: pbmsg
  Cluster_XXX_unrecognized :: string

record metapb_Server =
  Server_ID :: uint64
  Server_Addr :: string
  Server_MaxQPS :: int64
  Server_CircuitBreaker :: "pbmsg option"
  Server_rest :: pbmsg
  Server_XXX_unrecognized :: string

record metapb_Routing =
  Routing_ID :: uint64
  Routing_Name :: string
  Routing_ClusterID :: uint64
  Routing_API :: uint64
  Routing_Conditions :: "pbmsg list"
  Routing_Strategy :: RoutingStrategy
  Routing_TrafficRate :: int32
  Routing_Status :: Status
  Routing_rest :: pbmsg
  Routing_XXX_unrecognized :: string

record metapb_Bind =
  Bind_ClusterID :: uint64
  Bind_ServerID :: uint64
  Bind_XXX_unrecognized :: string

text \<open>The zero values of the message structs: what \<open>var m metapb.API\<close> holds.\<close>

definition zero_Node :: metapb_DispatchNode where
  "zero_Node = \<lparr>DN_ClusterID = 0, DN_URLRewrite = [], DN_AttrName = [], DN_Validations = [],
     DN_Cache = None, DN_DefaultValue = None, DN_UseDefault = False, DN_BatchIndex = 0,
     DN_RetryStrategy = None, DN_WriteTimeout = 0, DN_ReadTimeout = 0, DN_rest = [],
     DN_XXX_unrecognized = []\<rparr>"

definition zero_API :: metapb_API where
  "zero_API = \<lparr>API_ID = 0, API_Name = [], API_URLPattern = [], API_Method = [], API_Domain = [],
     API_Status = Down, API_IPAccessControl = None, API_DefaultValue = None, API_Nodes = [],
     API_AuthFilter = [], API_RenderTemplate = None, API_UseDefault = False, API_MatchRule = 0,
     API_Position = 0, API_rest = [], API_XXX_unrecognized = []\<rparr>"

definition zero_Cluster :: metapb_Cluster where
  "zero_Cluster = \<lparr>Cluster_ID = 0, Cluster_Name = [], Cluster_LoadBalance = 0, Cluster_rest = [],
     Cluster_XXX_unrecognized = []\<rparr>"

definition zero_Server :: metapb_Server where
  "zero_Server = \<lparr>Server_ID = 0, Server_Addr = [], Server_MaxQPS = 0,
     Server_CircuitBreaker = None, Server_rest = [], Server_XXX_unrecognized = []\<rparr>"

definition zero_Routing :: metapb_Routing where
  "zero_Routing = \<lparr>Routing_ID = 0, Routing_Name = [], Routing_ClusterID = 0, Routing_API = 0,
     Routing_Conditions = [], Routing_Strategy = Copy, Routing_TrafficRate = 0,
     Routing_Status = Down, Routing_rest = [], Routing_XXX_unrecognized = []\<rparr>"

definition zero_Bind :: metapb_Bind where
  "zero_Bind = \<lparr>Bind_ClusterID = 0, Bind_ServerID = 0, Bind_XXX_unrecognized = []\<rparr>"

section \<open>Marshal and Unmarshal\<close>

text \<open>
  The generated codecs of the messages are a parameter of the model: \<open>Marshal\<close> returns the wire
  bytes or an error, \<open>Unmarshal\<close> decodes bytes into an existing message and reports an error.
  The type of the bytes stays open.
\<close>

record ('m, 'w) codec =
  Marshal :: "'m \<Rightarrow> go_error + 'w"
  Unmarshal :: "'w \<Rightarrow> 'm \<Rightarrow> 'm \<times> go_error option"

record 'w codecs =
  pb_API :: "(metapb_API, 'w) codec"
  pb_Cluster :: "(metapb_Cluster, 'w) codec"
  pb_Server :: "(metapb_Server, 'w) codec"
  pb_Routing :: "(metapb_Routing, 'w) codec"
  pb_Bind :: "(metapb_Bind, 'w) codec"

text \<open>
  What protocol buffers promise: a message can be serialised, and decoding the bytes into a zero
  message gives the message back.
\<close>

definition codec_ok :: "('m, 'w) codec \<Rightarrow> 'm \<Rightarrow> bool" where
  "codec_ok c z \<longleftrightarrow> (\<forall>m. \<exists>w. Marshal c m = Inr w \<and> Unmarshal c w z = (m, None))"

locale codecs_spec =
  fixes C :: "'w codecs"
  assumes API_ok: "codec_ok (pb_API C) zero_API"
    and Cluster_ok: "codec_ok (pb_Cluster C) zero_Cluster"
    and Server_ok: "codec_ok (pb_Server C) zero_Server"
    and Routing_ok: "codec_ok (pb_Routing C) zero_Routing"
    and Bind_ok: "codec_ok (pb_Bind C) zero_Bind"

text \<open>
  A codec that satisfies the contract, for the witnesses: its wire format is the message itself
  under a tag, and a tag of another message is a decoding error.
\<close>

datatype wire =
    WAPI metapb_API
  | WCluster metapb_Cluster
  | WServer metapb_Server
  | WRouting metapb_Routing
  | WBind metapb_Bind

definition tagged_codecs :: "wire codecs" where
  "tagged_codecs = \<lparr>
     pb_API = \<lparr>Marshal = (\<lambda>m. Inr (WAPI m)),
       Unmarshal = (\<lambda>w m. case w of WAPI x \<Rightarrow> (x, None) | _ \<Rightarrow> (m, Some (NewError ''wire type'')))\<rparr>,
     pb_Cluster = \<lparr>Marshal = (\<lambda>m. Inr (WCluster m)),
       Unmarshal = (\<lambda>w m. case w of WCluster x \<Rightarrow> (x, None) | _ \<Rightarrow> (m, Some (NewError ''wire type'')))\<rparr>,
     pb_Server = \<lparr>Marshal = (\<lambda>m. Inr (WServer m)),
       Unmarshal = (\<lambda>w m. case w of WServer x \<Rightarrow> (x, None) | _ \<Rightarrow> (m, Some (NewError ''wire type'')))\<rparr>,
     pb_Routing = \<lparr>Marshal = (\<lambda>m. Inr (WRouting m)),
       Unmarshal = (\<lambda>w m. case w of WRouting x \<Rightarrow> (x, None) | _ \<Rightarrow> (m, Some (NewError ''wire type'')))\<rparr>,
     pb_Bind = \<lparr>Marshal = (\<lambda>m. Inr (WBind m)),
       Unmarshal = (\<lambda>w m. case w of WBind x \<Rightarrow> (x, None) | _ \<Rightarrow> (m, Some (NewError ''wire type'')))\<rparr>\<rparr>"

interpretation tagged: codecs_spec tagged_codecs
  by unfold_locales (simp_all add: codec_ok_def tagged_codecs_def)

end
