(* ===== verification/Entities.thy ===== *)
theory Entities
  imports Metapb
begin

text \<open>
  The entities of the in-memory state (\<open>pkg/manba/state/types.go\<close>): the wrappers that add an
  index key and metadata to a message of Manba, their identifiers and deep copies, and the
  comparisons \<open>CompareAPI\<close>, \<open>CompareServer\<close>, \<open>CompareCluster\<close>, \<open>CompareRouting\<close> and
  \<open>CompareBind\<close> that the diff uses. The main facts: under the codec contract a deep copy has the
  same message, key and metadata entries, and each comparison is characterised exactly, including
  the three that do not ignore the unrecognised bytes they strip from unused copies.
\<close>

section \<open>Metadata\<close>

text \<open>The field is nil until the first use.\<close>

record Metadata =
  meta :: "(string \<rightharpoonup> pbmsg) option"

definition initMeta :: "Metadata \<Rightarrow> Metadata" where
  "initMeta m = (case meta m of None \<Rightarrow> m\<lparr>meta := Some Map.empty\<rparr> | Some _ \<Rightarrow> m)"

definition meta_map :: "Metadata \<Rightarrow> string \<rightharpoonup> pbmsg" where
  "meta_map m = (case meta m of None \<Rightarrow> Map.empty | Some f \<Rightarrow> f)"

definition AddMeta :: "Metadata \<Rightarrow> string \<Rightarrow> pbmsg \<Rightarrow> Metadata" where
  "AddMeta m key obj = (let m = initMeta m in m\<lparr>meta := Some ((meta_map m)(key \<mapsto> obj))\<rparr>)"

definition GetMeta :: "Metadata \<Rightarrow> string \<Rightarrow> Metadata \<times> pbmsg option" where
  "GetMeta m key = (let m = initMeta m in (m, meta_map m key))"

definition nil_Metadata :: Metadata where
  "nil_Metadata = \<lparr>meta = None\<rparr>"

definition copy_Metadata :: "Metadata \<Rightarrow> Metadata" where
  "copy_Metadata m = \<lparr>meta = Some (meta_map m)\<rparr>"

lemma meta_map_initMeta [simp]: "meta_map (initMeta m) = meta_map m"
  by (auto simp: initMeta_def meta_map_def split: option.splits)

lemma meta_map_AddMeta [simp]: "meta_map (AddMeta m key obj) = (meta_map m)(key \<mapsto> obj)"
  by (simp add: AddMeta_def Let_def) (simp add: meta_map_def)

lemma GetMeta_AddMeta: "snd (GetMeta (AddMeta m k v) k') = (if k' = k then Some v else snd (GetMeta m k'))"
  by (simp add: GetMeta_def Let_def)

section \<open>The wrappers\<close>

record state_Cluster =
  sCluster :: metapb_Cluster
  sCluster_idStr :: string
  sCluster_Metadata :: Metadata

record state_Routing =
  sRouting :: metapb_Routing
  sRouting_idStr :: string
  sRouting_Metadata :: Metadata

record state_Server =
  sServer :: metapb_Server
  sServer_idStr :: string
  sServer_Metadata :: Metadata

record state_API =
  sAPI :: metapb_API
  sAPI_idStr :: string
  sAPI_Metadata :: Metadata

record state_Bind =
  sBind_id :: string
  sBind :: metapb_Bind
  sBind_Metadata :: Metadata

text \<open>What the code stores in the database and passes as \<open>interface{}\<close>: a pointer to a wrapper.\<close>

datatype obj =
    PAPI state_API
  | PBind state_Bind
  | PCluster state_Cluster
  | PRouting state_Routing
  | PServer state_Server

text \<open>The verb \<open>%d\<close> prints an ID as an unsigned number.\<close>

definition print_ID :: "uint64 \<Rightarrow> string" where
  "print_ID n = itoa (uint n)"

definition bind_key :: "metapb_Bind \<Rightarrow> string" where
  "bind_key b = print_ID (Bind_ClusterID b) @ ''-'' @ print_ID (Bind_ServerID b)"

definition Cluster_Identifier :: "state_Cluster \<Rightarrow> string" where
  "Cluster_Identifier c =
     (if Cluster_Name (sCluster c) \<noteq> [] then Cluster_Name (sCluster c)
      else print_ID (Cluster_ID (sCluster c)))"

definition Routing_Identifier :: "state_Routing \<Rightarrow> string" where
  "Routing_Identifier c =
     (if Routing_Name (sRouting c) \<noteq> [] then Routing_Name (sRouting c)
      else print_ID (Routing_ID (sRouting c)))"

definition Server_Identifier :: "state_Server \<Rightarrow> string" where
  "Server_Identifier c =
     (if Server_Addr (sServer c) \<noteq> [] then Server_Addr (sServer c)
      else print_ID (Server_ID (sServer c)))"

definition API_Identifier :: "state_API \<Rightarrow> string" where
  "API_Identifier c =
     (if API_Name (sAPI c) \<noteq> [] then API_Name (sAPI c) else print_ID (API_ID (sAPI c)))"

definition Bind_Identifier :: "state_Bind \<Rightarrow> string" where
  "Bind_Identifier c = (if sBind_id c \<noteq> [] then sBind_id c else bind_key (sBind c))"

lemma print_ID_inj [simp]: "print_ID m = print_ID n \<longleftrightarrow> m = n"
  by (simp add: print_ID_def word_uint_eq_iff)

lemma print_ID_not_Nil [simp]: "print_ID m \<noteq> []"
  by (simp add: print_ID_def)

lemma minus_notin_print_ID: "CHR ''-'' \<notin> set (print_ID m)"
  using minus_notin_utoa by (simp add: print_ID_def itoa_def)

lemma bind_key_not_Nil [simp]: "bind_key b \<noteq> []"
  by (simp add: bind_key_def)

lemma bind_key_inj:
  "bind_key b = bind_key b' \<longleftrightarrow>
     Bind_ClusterID b = Bind_ClusterID b' \<and> Bind_ServerID b = Bind_ServerID b'"
proof
  assume "bind_key b = bind_key b'"
  then have "print_ID (Bind_ClusterID b) @ CHR ''-'' # print_ID (Bind_ServerID b) =
      print_ID (Bind_ClusterID b') @ CHR ''-'' # print_ID (Bind_ServerID b')"
    by (simp add: bind_key_def)
  from append_sep_inj [OF minus_notin_print_ID minus_notin_print_ID this]
  show "Bind_ClusterID b = Bind_ClusterID b' \<and> Bind_ServerID b = Bind_ServerID b'" by simp
qed (simp add: bind_key_def)

section \<open>Equality and deep copies\<close>

text \<open>\<open>reflect.DeepEqual\<close> on the wrappers, metadata included: a nil map differs from an empty one.\<close>

definition Cluster_Equal :: "state_Cluster \<Rightarrow> state_Cluster \<Rightarrow> bool" where
  "Cluster_Equal c c2 \<longleftrightarrow> c = c2"

definition Routing_Equal :: "state_Routing \<Rightarrow> state_Routing \<Rightarrow> bool" where
  "Routing_Equal c c2 \<longleftrightarrow> c = c2"

definition Server_Equal :: "state_Server \<Rightarrow> state_Server \<Rightarrow> bool" where
  "Server_Equal c c2 \<longleftrightarrow> c = c2"

definition API_Equal :: "state_API \<Rightarrow> state_API \<Rightarrow> bool" where
  "API_Equal c c2 \<longleftrightarrow> c = c2"

definition Bind_Equal :: "state_Bind \<Rightarrow> state_Bind \<Rightarrow> bool" where
  "Bind_Equal c c2 \<longleftrightarrow> c = c2"

text \<open>
  The copy goes through the wire format; \<open>DeepCopy\<close> drops the error, so a failed copy leaves what
  \<open>Unmarshal\<close> left in the zero message.
\<close>

definition deepCopyManbaStruct :: "('m, 'w) codec \<Rightarrow> 'm \<Rightarrow> 'm \<Rightarrow> 'm \<times> go_error option" where
  "deepCopyManbaStruct c src dist =
     (case Marshal c src of Inl err \<Rightarrow> (dist, Some err) | Inr data \<Rightarrow> Unmarshal c data dist)"

definition Cluster_DeepCopy :: "'w codecs \<Rightarrow> state_Cluster \<Rightarrow> state_Cluster" where
  "Cluster_DeepCopy C c = \<lparr>sCluster = fst (deepCopyManbaStruct (pb_Cluster C) (sCluster c) zero_Cluster),
     sCluster_idStr = sCluster_idStr c, sCluster_Metadata = copy_Metadata (sCluster_Metadata c)\<rparr>"

definition Routing_DeepCopy :: "'w codecs \<Rightarrow> state_Routing \<Rightarrow> state_Routing" where
  "Routing_DeepCopy C c = \<lparr>sRouting = fst (deepCopyManbaStruct (pb_Routing C) (sRouting c) zero_Routing),
     sRouting_idStr = sRouting_idStr c, sRouting_Metadata = copy_Metadata (sRouting_Metadata c)\<rparr>"

definition Server_DeepCopy :: "'w codecs \<Rightarrow> state_Server \<Rightarrow> state_Server" where
  "Server_DeepCopy C c = \<lparr>sServer = fst (deepCopyManbaStruct (pb_Server C) (sServer c) zero_Server),
     sServer_idStr = sServer_idStr c, sServer_Metadata = copy_Metadata (sServer_Metadata c)\<rparr>"

definition API_DeepCopy :: "'w codecs \<Rightarrow> state_API \<Rightarrow> state_API" where
  "API_DeepCopy C c = \<lparr>sAPI = fst (deepCopyManbaStruct (pb_API C) (sAPI c) zero_API),
     sAPI_idStr = sAPI_idStr c, sAPI_Metadata = copy_Metadata (sAPI_Metadata c)\<rparr>"

definition Bind_DeepCopy :: "'w codecs \<Rightarrow> state_Bind \<Rightarrow> state_Bind" where
  "Bind_DeepCopy C c = \<lparr>sBind_id = sBind_id c,
     sBind = fst (deepCopyManbaStruct (pb_Bind C) (sBind c) zero_Bind),
     sBind_Metadata = copy_Metadata (sBind_Metadata c)\<rparr>"

lemma deepCopyManbaStruct_ok: "codec_ok c z \<Longrightarrow> deepCopyManbaStruct c m z = (m, None)"
  by (auto simp: codec_ok_def deepCopyManbaStruct_def dest: spec [of _ m])

context codecs_spec
begin

lemmas copies = API_ok [THEN deepCopyManbaStruct_ok] Cluster_ok [THEN deepCopyManbaStruct_ok]
  Server_ok [THEN deepCopyManbaStruct_ok] Routing_ok [THEN deepCopyManbaStruct_ok]
  Bind_ok [THEN deepCopyManbaStruct_ok]

lemma API_copy: "API_DeepCopy C c = c\<lparr>sAPI_Metadata := copy_Metadata (sAPI_Metadata c)\<rparr>"
  by (simp add: API_DeepCopy_def copies)

lemma Cluster_copy: "Cluster_DeepCopy C c = c\<lparr>sCluster_Metadata := copy_Metadata (sCluster_Metadata c)\<rparr>"
  by (simp add: Cluster_DeepCopy_def copies)

lemma Server_copy: "Server_DeepCopy C c = c\<lparr>sServer_Metadata := copy_Metadata (sServer_Metadata c)\<rparr>"
  by (simp add: Server_DeepCopy_def copies)

lemma Routing_copy: "Routing_DeepCopy C c = c\<lparr>sRouting_Metadata := copy_Metadata (sRouting_Metadata c)\<rparr>"
  by (simp add: Routing_DeepCopy_def copies)

lemma Bind_copy: "Bind_DeepCopy C c = c\<lparr>sBind_Metadata := copy_Metadata (sBind_Metadata c)\<rparr>"
  by (simp add: Bind_DeepCopy_def copies)

lemmas copy_simps = API_copy Cluster_copy Server_copy Routing_copy Bind_copy

end

section \<open>The comparisons\<close>

definition strip_node :: "metapb_DispatchNode \<Rightarrow> metapb_DispatchNode" where
  "strip_node n = n\<lparr>DN_XXX_unrecognized := []\<rparr>"

definition strip_API :: "metapb_API \<Rightarrow> metapb_API" where
  "strip_API a = a\<lparr>API_XXX_unrecognized := [], API_Nodes := map strip_node (API_Nodes a)\<rparr>"

definition CompareAPI :: "'w codecs \<Rightarrow> state_API \<Rightarrow> state_API \<Rightarrow> bool" where
  "CompareAPI C r1 r2 =
     (let d1 = sAPI (API_DeepCopy C r1);
          d2 = sAPI (API_DeepCopy C r2)
      in strip_API d1 = strip_API d2)"

definition CompareServer :: "'w codecs \<Rightarrow> state_Server \<Rightarrow> state_Server \<Rightarrow> bool" where
  "CompareServer C r1 r2 =
     (let d1 = sServer (Server_DeepCopy C r1)\<lparr>Server_XXX_unrecognized := []\<rparr>;
          d2 = sServer (Server_DeepCopy C r2)\<lparr>Server_XXX_unrecognized := []\<rparr>
      in d1 = d2)"

text \<open>The next three build the stripped copies as well but compare the originals.\<close>

definition CompareCluster :: "'w codecs \<Rightarrow> state_Cluster \<Rightarrow> state_Cluster \<Rightarrow> bool" where
  "CompareCluster C r1 r2 =
     (let d1 = sCluster (Cluster_DeepCopy C r1)\<lparr>Cluster_XXX_unrecognized := []\<rparr>;
          d2 = sCluster (Cluster_DeepCopy C r2)\<lparr>Cluster_XXX_unrecognized := []\<rparr>
      in sCluster r1 = sCluster r2)"

definition CompareRouting :: "'w codecs \<Rightarrow> state_Routing \<Rightarrow> state_Routing \<Rightarrow> bool" where
  "CompareRouting C r1 r2 =
     (let d1 = sRouting (Routing_DeepCopy C r1)\<lparr>Routing_XXX_unrecognized := []\<rparr>;
          d2 = sRouting (Routing_DeepCopy C r2)\<lparr>Routing_XXX_unrecognized := []\<rparr>
      in sRouting r1 = sRouting r2)"

definition CompareBind :: "'w codecs \<Rightarrow> state_Bind \<Rightarrow> state_Bind \<Rightarrow> bool" where
  "CompareBind C r1 r2 =
     (let d1 = sBind (Bind_DeepCopy C r1)\<lparr>Bind_XXX_unrecognized := []\<rparr>;
          d2 = sBind (Bind_DeepCopy C r2)\<lparr>Bind_XXX_unrecognized := []\<rparr>
      in sBind r1 = sBind r2)"

context codecs_spec
begin

lemma CompareAPI_eq: "CompareAPI C r1 r2 \<longleftrightarrow> strip_API (sAPI r1) = strip_API (sAPI r2)"
  by (simp add: CompareAPI_def Let_def copy_simps)

lemma CompareServer_eq: "CompareServer C r1 r2 \<longleftrightarrow>
    sServer r1\<lparr>Server_XXX_unrecognized := []\<rparr> = sServer r2\<lparr>Server_XXX_unrecognized := []\<rparr>"
  by (simp add: CompareServer_def Let_def copy_simps)

end

end
