(* ===== verification/Collections.thy ===== *)
theory Collections
  imports Memdb Entities
begin

text \<open>
  The five collections of the in-memory state (\<open>pkg/manba/state/api.go\<close>, \<open>cluster.go\<close>,
  \<open>routing.go\<close>, \<open>server.go\<close>, \<open>bind.go\<close>, \<open>utils.go\<close>): their table schemas, the lookup over several
  indexes, and the operations \<open>Add\<close>, \<open>Get\<close>, \<open>Update\<close>, \<open>Delete\<close> and \<open>GetAll\<close>. The Go files of the
  four named collections are the same code over different types, so each operation is one function
  over a record \<open>coll\<close> of what the type contributes (its table, the indexes it is searched by, boxing
  into \<open>interface{}\<close>, the copy it hands out), and each method of the source is an instance of it.
  Binds share the read side and have their own \<open>Add\<close> and \<open>Update\<close>.

  The locale \<open>collection\<close> proves once, from the contract of the database, what each operation does to
  the rows of the table on every branch; it is interpreted for the five collections.
\<close>

section \<open>Table schemas\<close>

definition allIndex :: IndexSchema where
  "allIndex = \<lparr>Ix_Name = ''all'', Ix_Unique = False, Ix_AllowMissing = False, Ix_Indexer = ConditionalIndex\<rparr>"

definition apiTableSchema :: TableSchema where
  "apiTableSchema = \<lparr>Tbl_Name = ''api'', Tbl_Indexes =
     [(''id'', \<lparr>Ix_Name = ''id'', Ix_Unique = True, Ix_AllowMissing = False, Ix_Indexer = StringFieldIndex ''idStr''\<rparr>),
      (''name'', \<lparr>Ix_Name = ''name'', Ix_Unique = True, Ix_AllowMissing = True, Ix_Indexer = StringFieldIndex ''Name''\<rparr>),
      (''all'', allIndex)]\<rparr>"

definition clusterTableSchema :: TableSchema where
  "clusterTableSchema = \<lparr>Tbl_Name = ''cluster'', Tbl_Indexes =
     [(''id'', \<lparr>Ix_Name = ''id'', Ix_Unique = True, Ix_AllowMissing = False, Ix_Indexer = StringFieldIndex ''idStr''\<rparr>),
      (''name'', \<lparr>Ix_Name = ''name'', Ix_Unique = True, Ix_AllowMissing = True, Ix_Indexer = StringFieldIndex ''Name''\<rparr>),
      (''all'', allIndex)]\<rparr>"

definition routingTableSchema :: TableSchema where
  "routingTableSchema = \<lparr>Tbl_Name = ''routing'', Tbl_Indexes =
     [(''id'', \<lparr>Ix_Name = ''id'', Ix_Unique = True, Ix_AllowMissing = False, Ix_Indexer = StringFieldIndex ''idStr''\<rparr>),
      (''name'', \<lparr>Ix_Name = ''name'', Ix_Unique = True, Ix_AllowMissing = True, Ix_Indexer = StringFieldIndex ''Name''\<rparr>),
      (''all'', allIndex)]\<rparr>"

definition serverTableSchema :: TableSchema where
  "serverTableSchema = \<lparr>Tbl_Name = ''server'', Tbl_Indexes =
     [(''id'', \<lparr>Ix_Name = ''id'', Ix_Unique = True, Ix_AllowMissing = False, Ix_Indexer = StringFieldIndex ''idStr''\<rparr>),
      (''addr'', \<lparr>Ix_Name = ''addr'', Ix_Unique = True, Ix_AllowMissing = True, Ix_Indexer = StringFieldIndex ''Addr''\<rparr>),
      (''all'', allIndex)]\<rparr>"

definition bindTableSchema :: TableSchema where
  "bindTableSchema = \<lparr>Tbl_Name = ''bind'', Tbl_Indexes =
     [(''id'', \<lparr>Ix_Name = ''id'', Ix_Unique = True, Ix_AllowMissing = False, Ix_Indexer = StringFieldIndex ''id''\<rparr>),
      (''all'', allIndex)]\<rparr>"

text \<open>The schema literal of \<open>NewManbaState\<close>.\<close>

definition manba_schema :: DBSchema where
  "manba_schema = [(''cluster'', clusterTableSchema), (''api'', apiTableSchema),
     (''routing'', routingTableSchema), (''server'', serverTableSchema), (''bind'', bindTableSchema)]"

text \<open>Reflection, as \<open>StringFieldIndex\<close> uses it: the string field of a wrapper, promoted fields included.\<close>

fun FieldByName :: "obj \<Rightarrow> string \<Rightarrow> string option" where
  "FieldByName (PAPI a) f =
     (if f = ''idStr'' then Some (sAPI_idStr a) else if f = ''Name'' then Some (API_Name (sAPI a)) else None)"
| "FieldByName (PCluster c) f =
     (if f = ''idStr'' then Some (sCluster_idStr c) else if f = ''Name'' then Some (Cluster_Name (sCluster c)) else None)"
| "FieldByName (PRouting r) f =
     (if f = ''idStr'' then Some (sRouting_idStr r) else if f = ''Name'' then Some (Routing_Name (sRouting r)) else None)"
| "FieldByName (PServer s) f =
     (if f = ''idStr'' then Some (sServer_idStr s) else if f = ''Addr'' then Some (Server_Addr (sServer s)) else None)"
| "FieldByName (PBind b) f = (if f = ''id'' then Some (sBind_id b) else None)"

section \<open>Lookups over several indexes\<close>

definition id2Str :: "uint64 \<Rightarrow> string" where
  "id2Str i = (if i = 0 then [] else itoa (sint i))"

fun multiIndexLookupUsingTxn ::
    "('db, obj) memdb \<Rightarrow> 'db \<Rightarrow> string \<Rightarrow> string list \<Rightarrow> string \<Rightarrow> obj result" where
  "multiIndexLookupUsingTxn D txn tableName [] arg = Err ErrNotFound"
| "multiIndexLookupUsingTxn D txn tableName (indexName # indices) arg =
     (case txn_First D txn tableName indexName arg of
        Ok None \<Rightarrow> multiIndexLookupUsingTxn D txn tableName indices arg
      | Err e \<Rightarrow> Err e
      | Ok (Some res) \<Rightarrow> Ok res
      | Panic m \<Rightarrow> Panic m)"

text \<open>The variant with a transaction of its own reads the same snapshot.\<close>

definition multiIndexLookup ::
    "('db, obj) memdb \<Rightarrow> 'db \<Rightarrow> string \<Rightarrow> string list \<Rightarrow> string \<Rightarrow> obj result" where
  "multiIndexLookup D db tableName indices arg = multiIndexLookupUsingTxn D db tableName indices arg"

section \<open>The operations of a collection\<close>

record 'e coll =
  c_table :: string
  c_indices :: "string list"
  c_box :: "'e \<Rightarrow> obj"
  c_unbox :: "obj \<Rightarrow> 'e option"
  c_fresh :: "'e \<Rightarrow> 'e"

record 'e named_coll = "'e coll" +
  c_ID :: "'e \<Rightarrow> uint64"
  c_set_idStr :: "string \<Rightarrow> 'e \<Rightarrow> 'e"

definition unexpectedType :: string where
  "unexpectedType = ''unexpected type found''"

fun getEntity :: "('e, 'z) coll_scheme \<Rightarrow> ('db, obj) memdb \<Rightarrow> 'db \<Rightarrow> string list \<Rightarrow> 'e result" where
  "getEntity c D txn [] = Err ErrNotFound"
| "getEntity c D txn (search # searches) =
     (case multiIndexLookupUsingTxn D txn (c_table c) (c_indices c) search of
        Err e \<Rightarrow> if e = ErrNotFound then getEntity c D txn searches else Err e
      | Panic m \<Rightarrow> Panic m
      | Ok res \<Rightarrow> (case c_unbox c res of None \<Rightarrow> Panic unexpectedType | Some e \<Rightarrow> Ok (c_fresh c e)))"

definition Collection_Add :: "('e, 'z) named_coll_scheme \<Rightarrow> ('db, obj) memdb \<Rightarrow> 'db \<Rightarrow> 'e \<Rightarrow> 'db result" where
  "Collection_Add c D db e =
     (let id = id2Str (c_ID c e) in
      if id = [] then Err errIDRequired
      else
        let e = c_set_idStr c id e; txn = db in
        case getEntity c D txn [id] of
          Ok _ \<Rightarrow> Err ErrAlreadyExists
        | Err err \<Rightarrow> if err \<noteq> ErrNotFound then Err err else txn_Insert D txn (c_table c) (c_box c e)
        | Panic m \<Rightarrow> Panic m)"

definition Collection_Get :: "('e, 'z) coll_scheme \<Rightarrow> ('db, obj) memdb \<Rightarrow> 'db \<Rightarrow> string \<Rightarrow> 'e result" where
  "Collection_Get c D db nameOrID =
     (if nameOrID = [] then Err errIDRequired else getEntity c D db [nameOrID])"

definition deleteEntity :: "('e, 'z) coll_scheme \<Rightarrow> ('db, obj) memdb \<Rightarrow> 'db \<Rightarrow> string \<Rightarrow> 'db result" where
  "deleteEntity c D txn nameOrID =
     rbind (getEntity c D txn [nameOrID]) (\<lambda>e. txn_Delete D txn (c_table c) (c_box c e))"

definition Collection_Update :: "('e, 'z) named_coll_scheme \<Rightarrow> ('db, obj) memdb \<Rightarrow> 'db \<Rightarrow> 'e \<Rightarrow> 'db result" where
  "Collection_Update c D db e =
     (let id = id2Str (c_ID c e) in
      if id = [] then Err errIDRequired
      else rbind (deleteEntity c D db id)
        (\<lambda>txn. txn_Insert D txn (c_table c) (c_box c (c_set_idStr c id e))))"

definition Collection_Delete :: "('e, 'z) coll_scheme \<Rightarrow> ('db, obj) memdb \<Rightarrow> 'db \<Rightarrow> string \<Rightarrow> 'db result" where
  "Collection_Delete c D db nameOrID =
     (if nameOrID = [] then Err errIDRequired else deleteEntity c D db nameOrID)"

fun copy_rows :: "('e, 'z) coll_scheme \<Rightarrow> obj list \<Rightarrow> 'e list result" where
  "copy_rows c [] = Ok []"
| "copy_rows c (el # els) =
     (case c_unbox c el of
        None \<Rightarrow> Panic unexpectedType
      | Some s \<Rightarrow> rbind (copy_rows c els) (\<lambda>res. Ok (c_fresh c s # res)))"

definition Collection_GetAll :: "('e, 'z) coll_scheme \<Rightarrow> ('db, obj) memdb \<Rightarrow> 'db \<Rightarrow> 'e list result" where
  "Collection_GetAll c D db = rbind (txn_Get D db (c_table c) ''all'' True) (copy_rows c)"

section \<open>The five collections\<close>

text \<open>
  A named collection hands out \<open>&API{API: dp.API, idStr: dp.idStr}\<close> for \<open>dp := api.DeepCopy()\<close>: the
  metadata stays behind. A bind is handed out as its deep copy.
\<close>

definition api_coll :: "'w codecs \<Rightarrow> state_API named_coll" where
  "api_coll C = \<lparr>c_table = ''api'', c_indices = [''name'', ''id''],
     c_box = PAPI, c_unbox = (\<lambda>x. case x of PAPI a \<Rightarrow> Some a | _ \<Rightarrow> None),
     c_fresh = (\<lambda>a. let dp = API_DeepCopy C a in
       \<lparr>sAPI = sAPI dp, sAPI_idStr = sAPI_idStr dp, sAPI_Metadata = nil_Metadata\<rparr>),
     c_ID = (\<lambda>a. API_ID (sAPI a)), c_set_idStr = (\<lambda>s a. a\<lparr>sAPI_idStr := s\<rparr>)\<rparr>"

definition cluster_coll :: "'w codecs \<Rightarrow> state_Cluster named_coll" where
  "cluster_coll C = \<lparr>c_table = ''cluster'', c_indices = [''name'', ''id''],
     c_box = PCluster, c_unbox = (\<lambda>x. case x of PCluster a \<Rightarrow> Some a | _ \<Rightarrow> None),
     c_fresh = (\<lambda>a. let dp = Cluster_DeepCopy C a in
       \<lparr>sCluster = sCluster dp, sCluster_idStr = sCluster_idStr dp, sCluster_Metadata = nil_Metadata\<rparr>),
     c_ID = (\<lambda>a. Cluster_ID (sCluster a)), c_set_idStr = (\<lambda>s a. a\<lparr>sCluster_idStr := s\<rparr>)\<rparr>"

definition routing_coll :: "'w codecs \<Rightarrow> state_Routing named_coll" where
  "routing_coll C = \<lparr>c_table = ''routing'', c_indices = [''name'', ''id''],
     c_box = PRouting, c_unbox = (\<lambda>x. case x of PRouting a \<Rightarrow> Some a | _ \<Rightarrow> None),
     c_fresh = (\<lambda>a. let dp = Routing_DeepCopy C a in
       \<lparr>sRouting = sRouting dp, sRouting_idStr = sRouting_idStr dp, sRouting_Metadata = nil_Metadata\<rparr>),
     c_ID = (\<lambda>a. Routing_ID (sRouting a)), c_set_idStr = (\<lambda>s a. a\<lparr>sRouting_idStr := s\<rparr>)\<rparr>"

definition server_coll :: "'w codecs \<Rightarrow> state_Server named_coll" where
  "server_coll C = \<lparr>c_table = ''server'', c_indices = [''addr'', ''id''],
     c_box = PServer, c_unbox = (\<lambda>x. case x of PServer a \<Rightarrow> Some a | _ \<Rightarrow> None),
     c_fresh = (\<lambda>a. let dp = Server_DeepCopy C a in
       \<lparr>sServer = sServer dp, sServer_idStr = sServer_idStr dp, sServer_Metadata = nil_Metadata\<rparr>),
     c_ID = (\<lambda>a. Server_ID (sServer a)), c_set_idStr = (\<lambda>s a. a\<lparr>sServer_idStr := s\<rparr>)\<rparr>"

definition bind_coll :: "'w codecs \<Rightarrow> state_Bind coll" where
  "bind_coll C = \<lparr>c_table = ''bind'', c_indices = [''id''],
     c_box = PBind, c_unbox = (\<lambda>x. case x of PBind a \<Rightarrow> Some a | _ \<Rightarrow> None),
     c_fresh = Bind_DeepCopy C\<rparr>"

definition getAPI :: "'w codecs \<Rightarrow> ('db, obj) memdb \<Rightarrow> 'db \<Rightarrow> string list \<Rightarrow> state_API result" where
  "getAPI C = getEntity (api_coll C)"
definition APICollection_Add :: "'w codecs \<Rightarrow> ('db, obj) memdb \<Rightarrow> 'db \<Rightarrow> state_API \<Rightarrow> 'db result" where
  "APICollection_Add C = Collection_Add (api_coll C)"
definition APICollection_Get :: "'w codecs \<Rightarrow> ('db, obj) memdb \<Rightarrow> 'db \<Rightarrow> string \<Rightarrow> state_API result" where
  "APICollection_Get C = Collection_Get (api_coll C)"
definition APICollection_Update :: "'w codecs \<Rightarrow> ('db, obj) memdb \<Rightarrow> 'db \<Rightarrow> state_API \<Rightarrow> 'db result" where
  "APICollection_Update C = Collection_Update (api_coll C)"
definition deleteAPI :: "'w codecs \<Rightarrow> ('db, obj) memdb \<Rightarrow> 'db \<Rightarrow> string \<Rightarrow> 'db result" where
  "deleteAPI C = deleteEntity (api_coll C)"
definition APICollection_Delete :: "'w codecs \<Rightarrow> ('db, obj) memdb \<Rightarrow> 'db \<Rightarrow> string \<Rightarrow> 'db result" where
  "APICollection_Delete C = Collection_Delete (api_coll C)"
definition APICollection_GetAll :: "'w codecs \<Rightarrow> ('db, obj) memdb \<Rightarrow> 'db \<Rightarrow> state_API list result" where
  "APICollection_GetAll C = Collection_GetAll (api_coll C)"

definition getCluster :: "'w codecs \<Rightarrow> ('db, obj) memdb \<Rightarrow> 'db \<Rightarrow> string list \<Rightarrow> state_Cluster result" where
  "getCluster C = getEntity (cluster_coll C)"
definition ClusterCollection_Add :: "'w codecs \<Rightarrow> ('db, obj) memdb \<Rightarrow> 'db \<Rightarrow> state_Cluster \<Rightarrow> 'db result" where
  "ClusterCollection_Add C = Collection_Add (cluster_coll C)"
definition ClusterCollection_Get :: "'w codecs \<Rightarrow> ('db, obj) memdb \<Rightarrow> 'db \<Rightarrow> string \<Rightarrow> state_Cluster result" where
  "ClusterCollection_Get C = Collection_Get (cluster_coll C)"
definition ClusterCollection_Update :: "'w codecs \<Rightarrow> ('db, obj) memdb \<Rightarrow> 'db \<Rightarrow> state_Cluster \<Rightarrow> 'db result" where
  "ClusterCollection_Update C = Collection_Update (cluster_coll C)"
definition deleteCluster :: "'w codecs \<Rightarrow> ('db, obj) memdb \<Rightarrow> 'db \<Rightarrow> string \<Rightarrow> 'db result" where
  "deleteCluster C = deleteEntity (cluster_coll C)"
definition ClusterCollection_Delete :: "'w codecs \<Rightarrow> ('db, obj) memdb \<Rightarrow> 'db \<Rightarrow> string \<Rightarrow> 'db result" where
  "ClusterCollection_Delete C = Collection_Delete (cluster_coll C)"
definition ClusterCollection_GetAll :: "'w codecs \<Rightarrow> ('db, obj) memdb \<Rightarrow> 'db \<Rightarrow> state_Cluster list result" where
  "ClusterCollection_GetAll C = Collection_GetAll (cluster_coll C)"

definition getRouting :: "'w codecs \<Rightarrow> ('db, obj) memdb \<Rightarrow> 'db \<Rightarrow> string list \<Rightarrow> state_Routing result" where
  "getRouting C = getEntity (routing_coll C)"
definition RoutingCollection_Add :: "'w codecs \<Rightarrow> ('db, obj) memdb \<Rightarrow> 'db \<Rightarrow> state_Routing \<Rightarrow> 'db result" where
  "RoutingCollection_Add C = Collection_Add (routing_coll C)"
definition RoutingCollection_Get :: "'w codecs \<Rightarrow> ('db, obj) memdb \<Rightarrow> 'db \<Rightarrow> string \<Rightarrow> state_Routing result" where
  "RoutingCollection_Get C = Collection_Get (routing_coll C)"
definition RoutingCollection_Update :: "'w codecs \<Rightarrow> ('db, obj) memdb \<Rightarrow> 'db \<Rightarrow> state_Routing \<Rightarrow> 'db result" where
  "RoutingCollection_Update C = Collection_Update (routing_coll C)"
definition deleteRouting :: "'w codecs \<Rightarrow> ('db, obj) memdb \<Rightarrow> 'db \<Rightarrow> string \<Rightarrow> 'db result" where
  "deleteRouting C = deleteEntity (routing_coll C)"
definition RoutingCollection_Delete :: "'w codecs \<Rightarrow> ('db, obj) memdb \<Rightarrow> 'db \<Rightarrow> string \<Rightarrow> 'db result" where
  "RoutingCollection_Delete C = Collection_Delete (routing_coll C)"
definition RoutingCollection_GetAll :: "'w codecs \<Rightarrow> ('db, obj) memdb \<Rightarrow> 'db \<Rightarrow> state_Routing list result" where
  "RoutingCollection_GetAll C = Collection_GetAll (routing_coll C)"

definition getServer :: "'w codecs \<Rightarrow> ('db, obj) memdb \<Rightarrow> 'db \<Rightarrow> string list \<Rightarrow> state_Server result" where
  "getServer C = getEntity (server_coll C)"
definition ServerCollection_Add :: "'w codecs \<Rightarrow> ('db, obj) memdb \<Rightarrow> 'db \<Rightarrow> state_Server \<Rightarrow> 'db result" where
  "ServerCollection_Add C = Collection_Add (server_coll C)"
definition ServerCollection_Get :: "'w codecs \<Rightarrow> ('db, obj) memdb \<Rightarrow> 'db \<Rightarrow> string \<Rightarrow> state_Server result" where
  "ServerCollection_Get C = Collection_Get (server_coll C)"
definition ServerCollection_Update :: "'w codecs \<Rightarrow> ('db, obj) memdb \<Rightarrow> 'db \<Rightarrow> state_Server \<Rightarrow> 'db result" where
  "ServerCollection_Update C = Collection_Update (server_coll C)"
definition deleteServer :: "'w codecs \<Rightarrow> ('db, obj) memdb \<Rightarrow> 'db \<Rightarrow> string \<Rightarrow> 'db result" where
  "deleteServer C = deleteEntity (server_coll C)"
definition ServerCollection_Delete :: "'w codecs \<Rightarrow> ('db, obj) memdb \<Rightarrow> 'db \<Rightarrow> string \<Rightarrow> 'db result" where
  "ServerCollection_Delete C = Collection_Delete (server_coll C)"
definition ServerCollection_GetAll :: "'w codecs \<Rightarrow> ('db, obj) memdb \<Rightarrow> 'db \<Rightarrow> state_Server list result" where
  "ServerCollection_GetAll C = Collection_GetAll (server_coll C)"

definition getBind :: "'w codecs \<Rightarrow> ('db, obj) memdb \<Rightarrow> 'db \<Rightarrow> string list \<Rightarrow> state_Bind result" where
  "getBind C = getEntity (bind_coll C)"
definition BindCollection_Get :: "'w codecs \<Rightarrow> ('db, obj) memdb \<Rightarrow> 'db \<Rightarrow> string \<Rightarrow> state_Bind result" where
  "BindCollection_Get C = Collection_Get (bind_coll C)"
definition deleteBind :: "'w codecs \<Rightarrow> ('db, obj) memdb \<Rightarrow> 'db \<Rightarrow> string \<Rightarrow> 'db result" where
  "deleteBind C = deleteEntity (bind_coll C)"
definition BindCollection_Delete :: "'w codecs \<Rightarrow> ('db, obj) memdb \<Rightarrow> 'db \<Rightarrow> string \<Rightarrow> 'db result" where
  "BindCollection_Delete C = Collection_Delete (bind_coll C)"
definition BindCollection_GetAll :: "'w codecs \<Rightarrow> ('db, obj) memdb \<Rightarrow> 'db \<Rightarrow> state_Bind list result" where
  "BindCollection_GetAll C = Collection_GetAll (bind_coll C)"

text \<open>A bind is keyed by its two IDs; \<open>Update\<close> uses the key the caller passes and does not set it.\<close>

definition BindCollection_Add :: "'w codecs \<Rightarrow> ('db, obj) memdb \<Rightarrow> 'db \<Rightarrow> state_Bind \<Rightarrow> 'db result" where
  "BindCollection_Add C D db b =
     (if Bind_ClusterID (sBind b) = 0 \<or> Bind_ServerID (sBind b) = 0 then Err errIDRequired
      else
        let txn = db; b = b\<lparr>sBind_id := bind_key (sBind b)\<rparr> in
        case getBind C D txn [sBind_id b] of
          Ok _ \<Rightarrow> Err ErrAlreadyExists
        | Err err \<Rightarrow> if err \<noteq> ErrNotFound then Err err else txn_Insert D txn ''bind'' (PBind b)
        | Panic m \<Rightarrow> Panic m)"

definition BindCollection_Update :: "'w codecs \<Rightarrow> ('db, obj) memdb \<Rightarrow> 'db \<Rightarrow> state_Bind \<Rightarrow> 'db result" where
  "BindCollection_Update C D db b =
     (if sBind_id b = [] then Err errIDRequired
      else rbind (deleteBind C D db (sBind_id b)) (\<lambda>txn. txn_Insert D txn ''bind'' (PBind b)))"

end
