(* ===== verification/Collection_Laws.thy ===== *)
theory Collection_Laws
  imports Collections
begin

text \<open>
  What the collections do to the rows of the database, proved once for all of them. An object has a
  table, a primary key and a name (empty for binds); the rows are well typed when every table holds
  objects of its own type. The locale \<open>manba_db\<close> joins the contracts of the database and of the
  codecs; \<open>collection\<close> and \<open>named_collection\<close> add one collection record and state the effect of
  each operation on every branch. They are interpreted for the five collections of the code, over
  any database and codec that keep their contracts.
\<close>

section \<open>Objects, keys and names\<close>

fun obj_table :: "obj \<Rightarrow> string" where
  "obj_table (PAPI _) = ''api''"
| "obj_table (PBind _) = ''bind''"
| "obj_table (PCluster _) = ''cluster''"
| "obj_table (PRouting _) = ''routing''"
| "obj_table (PServer _) = ''server''"

fun obj_key :: "obj \<Rightarrow> string" where
  "obj_key (PAPI a) = sAPI_idStr a"
| "obj_key (PBind b) = sBind_id b"
| "obj_key (PCluster c) = sCluster_idStr c"
| "obj_key (PRouting r) = sRouting_idStr r"
| "obj_key (PServer s) = sServer_idStr s"

fun obj_name :: "obj \<Rightarrow> string" where
  "obj_name (PAPI a) = API_Name (sAPI a)"
| "obj_name (PBind b) = []"
| "obj_name (PCluster c) = Cluster_Name (sCluster c)"
| "obj_name (PRouting r) = Routing_Name (sRouting r)"
| "obj_name (PServer s) = Server_Addr (sServer s)"

definition well_typed :: "(string \<Rightarrow> string \<rightharpoonup> obj) \<Rightarrow> bool" where
  "well_typed R \<longleftrightarrow> (\<forall>t k x. R t k = Some x \<longrightarrow> obj_table x = t)"

definition good_db :: "('db \<Rightarrow> string \<Rightarrow> string \<rightharpoonup> obj) \<Rightarrow> ('db \<Rightarrow> bool) \<Rightarrow> 'db \<Rightarrow> bool" where
  "good_db rows ok db \<longleftrightarrow> ok db \<and> well_typed (rows db)"

definition names :: "(string \<rightharpoonup> obj) \<Rightarrow> string set" where
  "names T = {obj_name x | x. x \<in> ran T \<and> obj_name x \<noteq> []}"

text \<open>The rule of a lookup by \<open>nameOrID\<close>: the row of that name, else the row of that key.\<close>

definition found :: "(string \<rightharpoonup> obj) \<Rightarrow> string \<Rightarrow> obj option" where
  "found T s = (if s \<in> names T then Some (the_elem {x \<in> ran T. obj_name x = s}) else T s)"

definition lookup_indices :: "string \<Rightarrow> string list" where
  "lookup_indices t = (if t = ''bind'' then [''id''] else [if t = ''server'' then ''addr'' else ''name'', ''id''])"

abbreviation ival :: "string \<Rightarrow> string \<Rightarrow> obj \<Rightarrow> string" where
  "ival \<equiv> index_val manba_schema FieldByName"

lemmas schema_defs = manba_schema_def apiTableSchema_def clusterTableSchema_def
  routingTableSchema_def serverTableSchema_def bindTableSchema_def allIndex_def

lemma ival_id [coll_simps]: "ival (obj_table x) ''id'' x = obj_key x"
  by (cases x) (simp_all add: index_val_def schema_defs)

lemma ival_name [coll_simps]:
  "obj_table x \<noteq> ''bind'' \<Longrightarrow> ival (obj_table x) (hd (lookup_indices (obj_table x))) x = obj_name x"
  by (cases x) (simp_all add: index_val_def schema_defs lookup_indices_def)

lemma obj_table_cases: "obj_table x \<in> {''api'', ''bind'', ''cluster'', ''routing'', ''server''}"
  by (cases x) auto

lemma obj_table_schema [simp]: "obj_table x \<in> set (map fst manba_schema)"
  by (cases x) (simp_all add: manba_schema_def)

lemma obj_table_schema' [simp]: "obj_table x \<in> fst ` set manba_schema"
  using obj_table_schema [of x] by (simp only: set_map)

lemma unique_indexes_obj [coll_simps]:
  "set (unique_indexes manba_schema (obj_table x)) = set (lookup_indices (obj_table x))"
  by (cases x) (auto simp: unique_indexes_def string_indexes_def schema_defs lookup_indices_def)

lemma required_indexes_obj [coll_simps]: "required_indexes manba_schema (obj_table x) = [''id'']"
  by (cases x) (simp_all add: required_indexes_def string_indexes_def schema_defs)

lemma lookup_indices_bind [simp]: "lookup_indices ''bind'' = [''id'']"
  by (simp add: lookup_indices_def)

lemma lookup_indices_eq:
  "t \<noteq> ''bind'' \<Longrightarrow> lookup_indices t = [hd (lookup_indices t), ''id'']"
  by (simp add: lookup_indices_def)

lemma obj_name_bind: "obj_table x = ''bind'' \<Longrightarrow> obj_name x = []"
  by (cases x) auto

lemma names_clash: "n \<notin> names T \<Longrightarrow> T k = Some y \<Longrightarrow> n \<noteq> [] \<Longrightarrow> obj_name y = n \<Longrightarrow> False"
  by (auto simp: names_def ran_def)

section \<open>Rows of a database that keeps its contract\<close>

locale manba_db = memdb_spec D FieldByName manba_schema rows inv + codecs_spec C
  for D :: "('db, obj) memdb" and rows :: "'db \<Rightarrow> string \<Rightarrow> string \<rightharpoonup> obj"
    and inv :: "'db \<Rightarrow> bool" and C :: "'w codecs"
begin

abbreviation good :: "'db \<Rightarrow> bool" where
  "good \<equiv> good_db rows inv"

lemmas good_def = good_db_def [of rows inv]

lemma good_typed: "good db \<Longrightarrow> rows db t k = Some x \<Longrightarrow> obj_table x = t"
  by (auto simp: good_def well_typed_def)

lemma good_key: "good db \<Longrightarrow> rows db t k = Some x \<Longrightarrow> obj_key x = k \<and> k \<noteq> []"
  using good_typed [of db t k x] rows_pk [of db t k x] ival_id [of x] by (auto simp: good_def)

lemma good_name_unique:
  assumes "good db" "rows db t k = Some x" "rows db t k' = Some y" "obj_name x \<noteq> []" "obj_name y = obj_name x"
  shows "k = k'"
proof -
  have t: "obj_table x = t" "obj_table y = t" using assms good_typed by blast+
  have nb: "t \<noteq> ''bind''" using assms(4) t(1) obj_name_bind by auto
  have "hd (lookup_indices t) \<in> set (unique_indexes manba_schema t)"
    using unique_indexes_obj [of x] t(1) by (simp add: lookup_indices_def)
  from rows_unique [OF _ assms(2,3) this] show ?thesis
    using assms ival_name [of x] ival_name [of y] t nb by (auto simp: good_def)
qed

lemma first_name:
  assumes "good db" and nb: "obj_table z \<noteq> ''bind''" and t: "t = obj_table z"
  shows "txn_First D db t (hd (lookup_indices t)) s =
    Ok (if s \<in> names (rows db t) then Some (the_elem {x \<in> ran (rows db t). obj_name x = s}) else None)"
proof -
  let ?n = "hd (lookup_indices t)"
  have u: "?n \<in> set (unique_indexes manba_schema t)"
    using unique_indexes_obj [of z] t by (simp add: lookup_indices_def)
  have nm: "ival t ?n x = obj_name x" if "x \<in> ran (rows db t)" for x
    using that ival_name [of x] nb t good_typed [OF assms(1)] by (auto simp: ran_def)
  show ?thesis
  proof (cases "s \<in> names (rows db t)")
    case True
    then obtain x k where x: "rows db t k = Some x" "obj_name x = s" "s \<noteq> []"
      by (auto simp: names_def ran_def)
    then have "{y \<in> ran (rows db t). obj_name y = s} = {x}"
      using good_name_unique [OF assms(1)] by (fastforce simp: ran_def)
    moreover have "txn_First D db t ?n s = Ok (Some x)"
      using assms(1) x u nm [of x] by (auto simp: good_def ran_def intro!: first_hit)
    ultimately show ?thesis using True by simp
  next
    case False
    then have "s = [] \<or> (\<forall>x\<in>ran (rows db t). ival t ?n x \<noteq> s)"
      using nm by (force simp: names_def)
    with first_miss [OF _ u, of db s] False assms(1) show ?thesis by (simp add: good_def)
  qed
qed

lemma first_id:
  assumes "good db" and t: "t = obj_table z"
  shows "txn_First D db t ''id'' s = Ok (rows db t s)"
proof -
  have u: "''id'' \<in> set (unique_indexes manba_schema t)"
    using unique_indexes_obj [of z] t by (simp add: lookup_indices_def)
  have inv: "inv db" using assms(1) by (simp add: good_def)
  show ?thesis
  proof (cases "rows db t s")
    case None
    have "ival t ''id'' x \<noteq> s" if "x \<in> ran (rows db t)" for x
      using that None rows_pk [OF inv] by (auto simp: ran_def)
    with first_miss [OF inv u, of s] None show ?thesis by auto
  next
    case (Some x)
    with first_hit [OF inv Some u] rows_pk [OF inv Some] show ?thesis by simp
  qed
qed

lemma lookup_spec:
  assumes "good db" and t: "t = obj_table z"
  shows "multiIndexLookupUsingTxn D db t (lookup_indices t) s =
    (case found (rows db t) s of None \<Rightarrow> Err ErrNotFound | Some x \<Rightarrow> Ok x)"
proof (cases "t = ''bind''")
  case True
  then have "names (rows db t) = {}"
    using good_typed [OF assms(1)] obj_name_bind by (force simp: names_def ran_def)
  with True first_id [OF assms] show ?thesis by (auto simp: found_def split: option.splits)
next
  case False
  then have nb: "obj_table z \<noteq> ''bind''" using t by simp
  obtain n where n: "hd (lookup_indices t) = n" by simp
  have li: "lookup_indices t = [n, ''id'']" using lookup_indices_eq [OF False] n by simp
  from first_name [OF assms(1) nb t, of s] first_id [OF assms, of s] n
  show ?thesis unfolding li by (simp add: found_def split: option.splits)
qed

lemma found_named:
  assumes "good db" and "rows db t k = Some x" and "obj_name x \<noteq> []"
  shows "found (rows db t) (obj_name x) = Some x"
proof -
  have "obj_name x \<in> names (rows db t)" using assms(2,3) by (auto simp: names_def ran_def)
  moreover have "{y \<in> ran (rows db t). obj_name y = obj_name x} = {x}"
    using good_name_unique [OF assms(1,2) _ assms(3)] assms(2) by (fastforce simp: ran_def)
  ultimately show ?thesis by (simp add: found_def)
qed

lemma found_row:
  assumes "good db" and "found (rows db t) s = Some x"
  shows "rows db t (obj_key x) = Some x \<and> (obj_name x = s \<or> obj_key x = s)"
proof (cases "s \<in> names (rows db t)")
  case True
  then obtain y k where y: "rows db t k = Some y" "obj_name y = s" "s \<noteq> []"
    by (auto simp: names_def ran_def)
  with found_named [OF assms(1), of t k y] assms(2) have "x = y" by simp
  with y good_key [OF assms(1) y(1)] show ?thesis by simp
next
  case False
  with assms(2) have "rows db t s = Some x" by (simp add: found_def)
  with good_key [OF assms(1) this] show ?thesis by simp
qed

lemma insert_row:
  assumes "good db" and t: "t = obj_table x" and "obj_key x \<noteq> []"
    and "\<And>k y. rows db t k = Some y \<Longrightarrow> obj_name x \<noteq> [] \<Longrightarrow> obj_name y = obj_name x \<Longrightarrow> k = obj_key x"
  shows "\<exists>db'. txn_Insert D db t x = Ok db' \<and> good db' \<and>
    rows db' = (rows db)(t := (rows db t)(obj_key x \<mapsto> x))"
proof -
  have inv: "inv db" using assms(1) by (simp add: good_def)
  have "k = ival t ''id'' x"
    if y: "rows db t k = Some y" and n: "n \<in> set (unique_indexes manba_schema t)"
      and ne: "ival t n x \<noteq> []" and eq: "ival t n y = ival t n x" for k y n
  proof (cases "n = ''id''")
    case True
    then show ?thesis using eq rows_pk [OF inv y] by simp
  next
    case False
    with n t have nb: "t \<noteq> ''bind''" and "n = hd (lookup_indices t)"
      using unique_indexes_obj [of x] by (auto simp: lookup_indices_def split: if_splits)
    moreover have "obj_table y = t" by (rule good_typed [OF assms(1) y])
    ultimately have "ival t n x = obj_name x" "ival t n y = obj_name y"
      using ival_name [of x] ival_name [of y] t by metis+
    with assms(4) [OF y] ne eq have "k = obj_key x" by simp
    then show ?thesis using ival_id [of x] t by simp
  qed
  moreover have "\<forall>n\<in>set (required_indexes manba_schema t). ival t n x \<noteq> []"
    using assms(3) t by (simp add: coll_simps)
  ultimately obtain db' where "txn_Insert D db t x = Ok db'" "inv db'"
      "rows db' = (rows db)(t := (rows db t)(ival t ''id'' x \<mapsto> x))"
    using insert_ok [OF inv, of t x] t obj_table_schema [of x] by metis
  then show ?thesis
    using assms(1) t by (auto simp: good_def well_typed_def ival_id split: if_splits)
qed

lemma delete_row:
  assumes "good db" and t: "t = obj_table x" and "rows db t (obj_key x) = Some y"
  shows "\<exists>db'. txn_Delete D db t x = Ok db' \<and> good db' \<and>
    rows db' = (rows db)(t := (rows db t)(obj_key x := None))"
proof -
  have inv: "inv db" using assms(1) by (simp add: good_def)
  have "rows db t (ival t ''id'' x) \<noteq> None" using assms(3) t by (simp add: ival_id)
  from delete_ok [OF inv this] obtain db' where "txn_Delete D db t x = Ok db'" "inv db'"
      "rows db' = (rows db)(t := (rows db t)(ival t ''id'' x := None))"
    by blast
  then show ?thesis
    using assms(1) t by (auto simp: good_def well_typed_def ival_id split: if_splits)
qed

end

section \<open>The laws of a collection\<close>

locale collection = manba_db D rows inv C
  for D :: "('db, obj) memdb" and rows :: "'db \<Rightarrow> string \<Rightarrow> string \<rightharpoonup> obj"
    and inv :: "'db \<Rightarrow> bool" and C :: "'w codecs" +
  fixes c :: "('e, 'z) coll_scheme"
  assumes unbox: "c_unbox c x = Some e \<longleftrightarrow> x = c_box c e"
    and table: "obj_table (c_box c e) = c_table c"
    and boxed: "obj_table x = c_table c \<Longrightarrow> \<exists>e. x = c_box c e"
    and indices: "c_indices c = lookup_indices (c_table c)"
    and fresh_key: "obj_key (c_box c (c_fresh c e)) = obj_key (c_box c e)"
    and fresh_name: "obj_name (c_box c (c_fresh c e)) = obj_name (c_box c e)"
begin

lemma some_object: "\<exists>z. c_table c = obj_table z"
  using table [symmetric] by blast

lemma rows_boxed: "good db \<Longrightarrow> rows db (c_table c) k = Some x \<Longrightarrow> \<exists>e. x = c_box c e"
  using boxed good_typed by blast

lemma get_none:
  assumes "good db" and "found (rows db (c_table c)) s = None"
  shows "getEntity c D db [s] = Err ErrNotFound"
  using lookup_spec [OF assms(1), of "c_table c"] some_object assms(2) by (auto simp: indices)

lemma get_some:
  assumes "good db" and "found (rows db (c_table c)) s = Some (c_box c e)"
  shows "getEntity c D db [s] = Ok (c_fresh c e)"
  using lookup_spec [OF assms(1), of "c_table c"] some_object assms(2) unbox [of "c_box c e" e]
  by (auto simp: indices)

lemma found_boxed:
  assumes "good db" and "found (rows db (c_table c)) s = Some x"
  obtains e where "x = c_box c e"
  using found_row [OF assms] rows_boxed [OF assms(1)] by blast

text \<open>A lookup returns the copy of the row found, or that there is none; nothing else can happen.\<close>

lemma Get_cases:
  assumes "good db"
  obtains (nil) "s = []" and "Collection_Get c D db s = Err errIDRequired"
  | (miss) "s \<noteq> []" and "found (rows db (c_table c)) s = None" and "Collection_Get c D db s = Err ErrNotFound"
  | (hit) e where "s \<noteq> []" and "found (rows db (c_table c)) s = Some (c_box c e)"
      and "Collection_Get c D db s = Ok (c_fresh c e)"
proof (cases "s = []")
  case True
  then show ?thesis using nil by (simp add: Collection_Get_def)
next
  case False
  show ?thesis
  proof (cases "found (rows db (c_table c)) s")
    case None
    with get_none [OF assms] False miss show ?thesis by (simp add: Collection_Get_def)
  next
    case (Some x)
    then obtain e where e: "x = c_box c e" using found_boxed [OF assms] by blast
    with get_some [OF assms] Some False hit show ?thesis by (simp add: Collection_Get_def)
  qed
qed

lemma delete_none:
  assumes "good db" and "found (rows db (c_table c)) s = None"
  shows "deleteEntity c D db s = Err ErrNotFound"
  using get_none [OF assms] by (simp add: deleteEntity_def)

lemma delete_some:
  assumes "good db" and "found (rows db (c_table c)) s = Some x"
  shows "\<exists>db'. deleteEntity c D db s = Ok db' \<and> good db' \<and>
    rows db' = (rows db)(c_table c := (rows db (c_table c))(obj_key x := None))"
proof -
  obtain e where e: "x = c_box c e" using found_boxed [OF assms] .
  have "rows db (c_table c) (obj_key (c_box c (c_fresh c e))) = Some x"
    using found_row [OF assms] e fresh_key by simp
  from delete_row [OF assms(1) table [symmetric] this] get_some [OF assms(1)] assms(2) e
  show ?thesis by (simp add: deleteEntity_def fresh_key)
qed

lemma copy_rows_boxed: "copy_rows c (map (c_box c) es) = Ok (map (c_fresh c) es)"
  by (induction es) (auto simp: unbox [THEN iffD2])

lemma all_boxed: "\<forall>x\<in>set xs. \<exists>e. x = c_box c e \<Longrightarrow> \<exists>es. xs = map (c_box c) es"
  by (induction xs) (auto, metis list.map(2))

lemma GetAll_ok:
  assumes "good db"
  shows "\<exists>es. Collection_GetAll c D db = Ok (map (c_fresh c) es) \<and>
    set (map (c_box c) es) = ran (rows db (c_table c)) \<and> distinct (map (\<lambda>e. obj_key (c_box c e)) es)"
proof -
  obtain z where z: "c_table c = obj_table z" using some_object by blast
  from get_all [of db "c_table c"] assms obj_table_schema [of z]
  obtain xs where xs: "txn_Get D db (c_table c) ''all'' True = Ok xs"
      "set xs = ran (rows db (c_table c))" "distinct (map (ival (c_table c) ''id'') xs)"
    unfolding z good_def by blast
  then obtain es where es: "xs = map (c_box c) es"
    using all_boxed [of xs] rows_boxed [OF assms] by (metis ranD)
  have "ival (c_table c) ''id'' (c_box c e) = obj_key (c_box c e)" for e
    using ival_id [of "c_box c e"] table by simp
  with xs es show ?thesis
    by (auto simp: Collection_GetAll_def copy_rows_boxed o_def)
qed

end

locale named_collection = collection D rows inv C c
  for D :: "('db, obj) memdb" and rows :: "'db \<Rightarrow> string \<Rightarrow> string \<rightharpoonup> obj"
    and inv :: "'db \<Rightarrow> bool" and C :: "'w codecs" and c :: "('e, 'z) named_coll_scheme" +
  assumes set_key: "obj_key (c_box c (c_set_idStr c s e)) = s"
    and set_name: "obj_name (c_box c (c_set_idStr c s e)) = obj_name (c_box c e)"
begin

abbreviation key :: "'e \<Rightarrow> string" where
  "key e \<equiv> id2Str (c_ID c e)"

abbreviation keyed :: "'e \<Rightarrow> 'e" where
  "keyed e \<equiv> c_set_idStr c (key e) e"

lemma Add_nil: "c_ID c e = 0 \<Longrightarrow> Collection_Add c D db e = Err errIDRequired"
  by (simp add: Collection_Add_def id2Str_def)

lemma Add_exists:
  assumes "good db" and "c_ID c e \<noteq> 0" and "found (rows db (c_table c)) (key e) \<noteq> None"
  shows "Collection_Add c D db e = Err ErrAlreadyExists"
proof -
  obtain x where x: "found (rows db (c_table c)) (key e) = Some x" using assms(3) by blast
  obtain y where "x = c_box c y" using found_boxed [OF assms(1) x] .
  with get_some [OF assms(1)] x assms(2) show ?thesis
    by (auto simp: Collection_Add_def id2Str_def Let_def)
qed

lemma Add_ok:
  assumes "good db" and "c_ID c e \<noteq> 0" and "found (rows db (c_table c)) (key e) = None"
    and "obj_name (c_box c e) \<notin> names (rows db (c_table c))"
  shows "\<exists>db'. Collection_Add c D db e = Ok db' \<and> good db' \<and>
    rows db' = (rows db)(c_table c := (rows db (c_table c))(key e \<mapsto> c_box c (keyed e)))"
proof -
  have "key e \<noteq> []" using assms(2) by (simp add: id2Str_def)
  moreover have "\<exists>db'. txn_Insert D db (c_table c) (c_box c (keyed e)) = Ok db' \<and> good db' \<and>
      rows db' = (rows db)(c_table c := (rows db (c_table c))(key e \<mapsto> c_box c (keyed e)))"
    using insert_row [OF assms(1) table [symmetric], of "keyed e"] calculation
      names_clash [OF assms(4)] by (simp add: set_key set_name) blast
  ultimately show ?thesis
    using get_none [OF assms(1,3)] by (simp add: Collection_Add_def Let_def)
qed

lemma Update_nil: "c_ID c e = 0 \<Longrightarrow> Collection_Update c D db e = Err errIDRequired"
  by (simp add: Collection_Update_def id2Str_def)

lemma Update_missing:
  assumes "good db" and "c_ID c e \<noteq> 0" and "found (rows db (c_table c)) (key e) = None"
  shows "Collection_Update c D db e = Err ErrNotFound"
  using delete_none [OF assms(1,3)] assms(2) by (simp add: Collection_Update_def id2Str_def Let_def)

lemma Update_ok:
  assumes "good db" and "c_ID c e \<noteq> 0" and f: "found (rows db (c_table c)) (key e) = Some x"
    and "obj_name (c_box c e) \<notin> names ((rows db (c_table c))(obj_key x := None))"
  shows "\<exists>db'. Collection_Update c D db e = Ok db' \<and> good db' \<and>
    rows db' = (rows db)(c_table c := (rows db (c_table c))(obj_key x := None, key e \<mapsto> c_box c (keyed e)))"
proof -
  have ne: "key e \<noteq> []" using assms(2) by (simp add: id2Str_def)
  obtain db1 where db1: "deleteEntity c D db (key e) = Ok db1" "good db1"
      "rows db1 = (rows db)(c_table c := (rows db (c_table c))(obj_key x := None))"
    using delete_some [OF assms(1) f] by blast
  have "\<exists>db'. txn_Insert D db1 (c_table c) (c_box c (keyed e)) = Ok db' \<and> good db' \<and>
      rows db' = (rows db1)(c_table c := (rows db1 (c_table c))(key e \<mapsto> c_box c (keyed e)))"
    using insert_row [OF db1(2) table [symmetric], of "keyed e"] ne
      names_clash [OF assms(4)] unfolding db1(3) by (simp add: set_key set_name) blast
  with db1 ne show ?thesis by (auto simp: Collection_Update_def Let_def)
qed

end

section \<open>The five collections keep the laws\<close>

lemmas coll_defs = api_coll_def cluster_coll_def routing_coll_def server_coll_def bind_coll_def

sublocale manba_db \<subseteq> apis: named_collection D rows inv C "api_coll C"
proof (unfold_locales, goal_cases)
  case (1 x e) then show ?case by (cases x) (auto simp: api_coll_def)
next
  case (3 x) then show ?case by (cases x) (auto simp: api_coll_def)
qed (simp_all add: api_coll_def lookup_indices_def Let_def copy_simps)

sublocale manba_db \<subseteq> clusters: named_collection D rows inv C "cluster_coll C"
proof (unfold_locales, goal_cases)
  case (1 x e) then show ?case by (cases x) (auto simp: cluster_coll_def)
next
  case (3 x) then show ?case by (cases x) (auto simp: cluster_coll_def)
qed (simp_all add: cluster_coll_def lookup_indices_def Let_def copy_simps)

sublocale manba_db \<subseteq> routings: named_collection D rows inv C "routing_coll C"
proof (unfold_locales, goal_cases)
  case (1 x e) then show ?case by (cases x) (auto simp: routing_coll_def)
next
  case (3 x) then show ?case by (cases x) (auto simp: routing_coll_def)
qed (simp_all add: routing_coll_def lookup_indices_def Let_def copy_simps)

sublocale manba_db \<subseteq> servers: named_collection D rows inv C "server_coll C"
proof (unfold_locales, goal_cases)
  case (1 x e) then show ?case by (cases x) (auto simp: server_coll_def)
next
  case (3 x) then show ?case by (cases x) (auto simp: server_coll_def)
qed (simp_all add: server_coll_def lookup_indices_def Let_def copy_simps)

sublocale manba_db \<subseteq> binds: collection D rows inv C "bind_coll C"
proof (unfold_locales, goal_cases)
  case (1 x e) then show ?case by (cases x) (auto simp: bind_coll_def)
next
  case (3 x) then show ?case by (cases x) (auto simp: bind_coll_def)
qed (simp_all add: bind_coll_def lookup_indices_def Let_def copy_simps)

lemma api_coll_sel [simp]:
  "c_table (api_coll C) = ''api''" "c_box (api_coll C) = PAPI"
  "c_ID (api_coll C) e = API_ID (sAPI e)" "c_set_idStr (api_coll C) i e = e\<lparr>sAPI_idStr := i\<rparr>"
  by (simp_all add: api_coll_def)

lemma cluster_coll_sel [simp]:
  "c_table (cluster_coll C) = ''cluster''" "c_box (cluster_coll C) = PCluster"
  "c_ID (cluster_coll C) e = Cluster_ID (sCluster e)" "c_set_idStr (cluster_coll C) i e = e\<lparr>sCluster_idStr := i\<rparr>"
  by (simp_all add: cluster_coll_def)

lemma routing_coll_sel [simp]:
  "c_table (routing_coll C) = ''routing''" "c_box (routing_coll C) = PRouting"
  "c_ID (routing_coll C) e = Routing_ID (sRouting e)" "c_set_idStr (routing_coll C) i e = e\<lparr>sRouting_idStr := i\<rparr>"
  by (simp_all add: routing_coll_def)

lemma server_coll_sel [simp]:
  "c_table (server_coll C) = ''server''" "c_box (server_coll C) = PServer"
  "c_ID (server_coll C) e = Server_ID (sServer e)" "c_set_idStr (server_coll C) i e = e\<lparr>sServer_idStr := i\<rparr>"
  by (simp_all add: server_coll_def)

lemma bind_coll_sel [simp]: "c_table (bind_coll C) = ''bind''" "c_box (bind_coll C) = PBind"
  by (simp_all add: bind_coll_def)

section \<open>The reference instance\<close>

text \<open>
  The list database over the schema of the code keeps the contract of the database, so the laws of
  all five collections hold for it. The witnesses compute with it.
\<close>

abbreviation refdb :: "(obj listdb, obj) memdb" where
  "refdb \<equiv> listdb manba_schema FieldByName"

abbreviation ref_rows :: "obj listdb \<Rightarrow> string \<Rightarrow> string \<rightharpoonup> obj" where
  "ref_rows \<equiv> listdb_rows manba_schema FieldByName"

abbreviation ref_inv :: "obj listdb \<Rightarrow> bool" where
  "ref_inv \<equiv> listdb_inv manba_schema FieldByName"

interpretation ref: manba_db refdb ref_rows ref_inv tagged_codecs
proof -
  have "memdb_spec refdb FieldByName manba_schema ref_rows ref_inv"
  proof (rule listdb_spec)
    fix t assume "t \<in> set (map fst manba_schema)"
    then show "''id'' \<in> set (required_indexes manba_schema t)"
      by (simp add: manba_schema_def)
        (elim disjE; simp add: required_indexes_def string_indexes_def schema_defs)
  next
    fix t x assume "t \<notin> set (map fst manba_schema)"
    then have "map_of manba_schema t = None" by (simp add: map_of_eq_None_iff)
    then show "ival t ''id'' x = []" by (simp add: index_val_def)
  qed
  then show "manba_db refdb ref_rows ref_inv tagged_codecs"
    unfolding manba_db_def using tagged.codecs_spec_axioms by blast
qed

end
