(* ===== verification/Raw_State.thy ===== *)
theory Raw_State
  imports Metapb
begin

text \<open>
  The raw representation of Manba's configuration (\<open>pkg/manba/dump/types.go\<close>) that the controller
  reads from the gateway, derives from Kubernetes and loads into the in-memory state, and the
  parser's \<open>Proxy\<close> it embeds. The message pointers of API, server, cluster and routing are never nil
  in the code, so they are values here; the pointer of a bind is nil until \<open>setTargetsIDs\<close> fills it,
  so it is an option.
\<close>

record Proxy =
  Proxy_ClusterName :: string
  Proxy_DispatchNode :: metapb_DispatchNode

record dump_Bind =
  dBind_ClusterName :: string
  dBind_ServerAddr :: string
  dBind :: "metapb_Bind option"

record dump_Server =
  dServer :: metapb_Server

record dump_Cluster =
  dCluster :: metapb_Cluster

record dump_Routing =
  dRouting_APIName :: string
  dRouting_ClusterName :: string
  dRouting :: metapb_Routing

record dump_API =
  dAPI :: metapb_API
  dAPI_Proxies :: "Proxy list"

record ManbaRawState =
  raw_APIs :: "dump_API list"
  raw_Servers :: "dump_Server list"
  raw_Clusters :: "dump_Cluster list"
  raw_Binds :: "dump_Bind list"
  raw_Routings :: "dump_Routing list"

definition empty_raw :: ManbaRawState where
  "empty_raw = \<lparr>raw_APIs = [], raw_Servers = [], raw_Clusters = [], raw_Binds = [], raw_Routings = []\<rparr>"

text \<open>The generated getters accept a nil bind and return zero.\<close>

definition GetClusterID :: "metapb_Bind option \<Rightarrow> uint64" where
  "GetClusterID b = (case b of None \<Rightarrow> 0 | Some m \<Rightarrow> Bind_ClusterID m)"

definition GetServerID :: "metapb_Bind option \<Rightarrow> uint64" where
  "GetServerID b = (case b of None \<Rightarrow> 0 | Some m \<Rightarrow> Bind_ServerID m)"

end
