(* ===== verification/Manba_State.thy ===== *)
theory Manba_State
  imports Collection_Laws Raw_State
begin

text \<open>
  The state as a whole (\<open>pkg/manba/state/state.go\<close>): \<open>NewManbaState\<close>, which opens the database with
  the five tables, and \<open>Get\<close>, which loads a raw configuration into it. The five collections of the
  Go struct are views of one database, so the state of the model is the database. Besides the laws of
  the bind collection, the theory proves that loading a configuration with proper keys and names
  succeeds and yields exactly its entities, and what happens on the error branches.
\<close>

section \<open>NewManbaState and Get\<close>

definition NewManbaState :: "('db, obj) memdb \<Rightarrow> 'db result" where
  "NewManbaState D = wrap_err ''creating new ServiceCollection'' (NewMemDB D manba_schema)"

definition new_API :: "metapb_API \<Rightarrow> state_API" where
  "new_API m = \<lparr>sAPI = m, sAPI_idStr = [], sAPI_Metadata = nil_Metadata\<rparr>"
definition new_Cluster :: "metapb_Cluster \<Rightarrow> state_Cluster" where
  "new_Cluster m = \<lparr>sCluster = m, sCluster_idStr = [], sCluster_Metadata = nil_Metadata\<rparr>"
definition new_Routing :: "metapb_Routing \<Rightarrow> state_Routing" where
  "new_Routing m = \<lparr>sRouting = m, sRouting_idStr = [], sRouting_Metadata = nil_Metadata\<rparr>"
definition new_Server :: "metapb_Server \<Rightarrow> state_Server" where
  "new_Server m = \<lparr>sServer = m, sServer_idStr = [], sServer_Metadata = nil_Metadata\<rparr>"
definition new_Bind :: "metapb_Bind \<Rightarrow> state_Bind" where
  "new_Bind m = \<lparr>sBind_id = [], sBind = m, sBind_Metadata = nil_Metadata\<rparr>"

lemmas new_defs = new_API_def new_Cluster_def new_Routing_def new_Server_def new_Bind_def

definition nil_deref :: string where
  "nil_deref = ''invalid memory address or nil pointer dereference''"

definition load_APIs :: "'w codecs \<Rightarrow> ('db, obj) memdb \<Rightarrow> dump_API list \<Rightarrow> 'db \<Rightarrow> 'db result" where
  "load_APIs C D = rfold (\<lambda>a db.
     wrap_err ''add api to state'' (APICollection_Add C D db (new_API (dAPI a))))"

definition load_Routings :: "'w codecs \<Rightarrow> ('db, obj) memdb \<Rightarrow> dump_Routing list \<Rightarrow> 'db \<Rightarrow> 'db result" where
  "load_Routings C D = rfold (\<lambda>r db.
     wrap_err ''add routing to state'' (RoutingCollection_Add C D db (new_Routing (dRouting r))))"

definition load_Clusters :: "'w codecs \<Rightarrow> ('db, obj) memdb \<Rightarrow> dump_Cluster list \<Rightarrow> 'db \<Rightarrow> 'db result" where
  "load_Clusters C D = rfold (\<lambda>c db.
     wrap_err ''add cluster to state'' (ClusterCollection_Add C D db (new_Cluster (dCluster c))))"

text \<open>A server that exists already is skipped.\<close>

definition load_Servers :: "'w codecs \<Rightarrow> ('db, obj) memdb \<Rightarrow> dump_Server list \<Rightarrow> 'db \<Rightarrow> 'db result" where
  "load_Servers C D = rfold (\<lambda>s db.
     case ServerCollection_Add C D db (new_Server (dServer s)) of
       Ok db' \<Rightarrow> Ok db'
     | Err err \<Rightarrow> if err \<noteq> ErrAlreadyExists then Err (Wrap ''add server to state'' err) else Ok db
     | Panic m \<Rightarrow> Panic m)"

definition load_Binds :: "'w codecs \<Rightarrow> ('db, obj) memdb \<Rightarrow> dump_Bind list \<Rightarrow> 'db \<Rightarrow> 'db result" where
  "load_Binds C D = rfold (\<lambda>b db.
     case dBind b of
       None \<Rightarrow> Panic nil_deref
     | Some m \<Rightarrow> wrap_err ''add bind to state'' (BindCollection_Add C D db (new_Bind m)))"

definition state_Get :: "'w codecs \<Rightarrow> ('db, obj) memdb \<Rightarrow> ManbaRawState \<Rightarrow> 'db result" where
  "state_Get C D raw =
     rbind (wrap_err ''new manba state'' (NewManbaState D)) (\<lambda>db.
     rbind (load_APIs C D (raw_APIs raw) db) (\<lambda>db.
     rbind (load_Routings C D (raw_Routings raw) db) (\<lambda>db.
     rbind (load_Clusters C D (raw_Clusters raw) db) (\<lambda>db.
     rbind (load_Servers C D (raw_Servers raw) db) (\<lambda>db.
     load_Binds C D (raw_Binds raw) db)))))"

section \<open>Keys\<close>

lemma id2Str_inj [simp]: "id2Str i = id2Str j \<longleftrightarrow> i = j"
  using itoa_not_Nil [of "sint i"] itoa_not_Nil [of "sint j", symmetric]
  by (auto simp: id2Str_def dest: signed_word_eqI split: if_splits)

lemma id2Str_Nil [simp]: "id2Str i = [] \<longleftrightarrow> i = 0"
  by (simp add: id2Str_def)

text \<open>
  The key printed by \<open>id2Str\<close> and the identifier printed with \<open>%d\<close> agree below \<open>2 ^ 63\<close> only, because
  \<open>id2Str\<close> converts to a signed integer first.
\<close>

lemma id2Str_print_ID:
  assumes "i \<noteq> 0"
  shows "id2Str i = print_ID i \<longleftrightarrow> unat i < 2 ^ 63"
proof -
  have "sint i = signed_take_bit 63 (uint i)" by (simp add: sint_uint)
  then have "sint i = uint i \<longleftrightarrow> - (2 ^ 63) \<le> uint i \<and> uint i < 2 ^ 63"
    by (simp only: signed_take_bit_int_eq_self_iff)
  moreover have "- (2 ^ 63) \<le> uint i" using uint_ge_0 [of i] by (rule order_trans [rotated]) simp
  moreover have "uint i < 2 ^ 63 \<longleftrightarrow> unat i < 2 ^ 63"
    using of_nat_less_iff [of "unat i" "2 ^ 63", where 'a = int] by simp
  ultimately have "sint i = uint i \<longleftrightarrow> unat i < 2 ^ 63" by blast
  with assms show ?thesis by (simp add: id2Str_def print_ID_def)
qed

section \<open>The laws of the bind collection\<close>

context manba_db
begin

lemma found_bind: "good db \<Longrightarrow> found (rows db ''bind'') s = rows db ''bind'' s"
  using good_typed obj_name_bind by (fastforce simp: found_def names_def ran_def)

lemma Bind_Add_nil:
  "Bind_ClusterID (sBind b) = 0 \<or> Bind_ServerID (sBind b) = 0 \<Longrightarrow>
    BindCollection_Add C D db b = Err errIDRequired"
  by (simp add: BindCollection_Add_def)

lemma Bind_Add_exists:
  assumes "good db" and "Bind_ClusterID (sBind b) \<noteq> 0" and "Bind_ServerID (sBind b) \<noteq> 0"
    and "rows db ''bind'' (bind_key (sBind b)) = Some x"
  shows "BindCollection_Add C D db b = Err ErrAlreadyExists"
proof -
  have "found (rows db (c_table (bind_coll C))) (bind_key (sBind b)) = Some x"
    using assms(1,4) found_bind by simp
  then obtain y where "x = PBind y" and "getEntity (bind_coll C) D db [bind_key (sBind b)] = Ok (c_fresh (bind_coll C) y)"
    using binds.found_boxed [OF assms(1)] binds.get_some [OF assms(1)] by (metis bind_coll_sel)
  with assms(2,3) show ?thesis by (simp add: BindCollection_Add_def Let_def getBind_def)
qed

lemma Bind_Add_ok:
  assumes "good db" and "Bind_ClusterID (sBind b) \<noteq> 0" and "Bind_ServerID (sBind b) \<noteq> 0"
    and "rows db ''bind'' (bind_key (sBind b)) = None"
  shows "\<exists>db'. BindCollection_Add C D db b = Ok db' \<and> good db' \<and>
    rows db' = (rows db)(''bind'' := (rows db ''bind'')(bind_key (sBind b) \<mapsto> PBind (b\<lparr>sBind_id := bind_key (sBind b)\<rparr>)))"
proof -
  let ?b = "b\<lparr>sBind_id := bind_key (sBind b)\<rparr>"
  have "found (rows db (c_table (bind_coll C))) (bind_key (sBind b)) = None"
    using assms(1,4) found_bind by simp
  then have "getEntity (bind_coll C) D db [bind_key (sBind b)] = Err ErrNotFound"
    by (rule binds.get_none [OF assms(1)])
  moreover have "\<exists>db'. txn_Insert D db ''bind'' (PBind ?b) = Ok db' \<and> good db' \<and>
      rows db' = (rows db)(''bind'' := (rows db ''bind'')(bind_key (sBind b) \<mapsto> PBind ?b))"
    using insert_row [OF assms(1), of "''bind''" "PBind ?b"] by simp
  ultimately show ?thesis using assms(2,3) by (auto simp: BindCollection_Add_def Let_def getBind_def)
qed

lemma Bind_Update_ok:
  assumes "good db" and "rows db ''bind'' (sBind_id b) = Some x" and "sBind_id b \<noteq> []"
  shows "\<exists>db'. BindCollection_Update C D db b = Ok db' \<and> good db' \<and>
    rows db' = (rows db)(''bind'' := (rows db ''bind'')(sBind_id b \<mapsto> PBind b))"
proof -
  have f: "found (rows db (c_table (bind_coll C))) (sBind_id b) = Some x"
    using assms found_bind by simp
  have "obj_key x = sBind_id b" using good_key [OF assms(1,2)] by simp
  then obtain db1 where db1: "deleteEntity (bind_coll C) D db (sBind_id b) = Ok db1" "good db1"
      "rows db1 = (rows db)(''bind'' := (rows db ''bind'')(sBind_id b := None))"
    using binds.delete_some [OF assms(1) f] by auto
  with insert_row [OF db1(2), of "''bind''" "PBind b"] assms(3)
  show ?thesis by (auto simp: BindCollection_Update_def deleteBind_def)
qed

end

section \<open>Loading a configuration\<close>

text \<open>
  Keys and names a table can hold: keys non-empty and distinct, non-empty names distinct, and no
  name that is the key of a row, since every lookup tries the name first.
\<close>

definition proper :: "(string \<times> string) list \<Rightarrow> bool" where
  "proper ps \<longleftrightarrow> (\<forall>k\<in>set (map fst ps). k \<noteq> []) \<and> distinct (map fst ps) \<and>
     distinct (filter (\<lambda>n. n \<noteq> []) (map snd ps)) \<and> set (map fst ps) \<inter> set (map snd ps) = {}"

definition api_row :: "dump_API \<Rightarrow> string \<times> obj" where
  "api_row a = (let k = id2Str (API_ID (dAPI a)) in (k, PAPI ((new_API (dAPI a))\<lparr>sAPI_idStr := k\<rparr>)))"
definition cluster_row :: "dump_Cluster \<Rightarrow> string \<times> obj" where
  "cluster_row c = (let k = id2Str (Cluster_ID (dCluster c)) in (k, PCluster ((new_Cluster (dCluster c))\<lparr>sCluster_idStr := k\<rparr>)))"
definition routing_row :: "dump_Routing \<Rightarrow> string \<times> obj" where
  "routing_row r = (let k = id2Str (Routing_ID (dRouting r)) in (k, PRouting ((new_Routing (dRouting r))\<lparr>sRouting_idStr := k\<rparr>)))"
definition server_row :: "dump_Server \<Rightarrow> string \<times> obj" where
  "server_row s = (let k = id2Str (Server_ID (dServer s)) in (k, PServer ((new_Server (dServer s))\<lparr>sServer_idStr := k\<rparr>)))"
definition bind_row :: "metapb_Bind \<Rightarrow> string \<times> obj" where
  "bind_row b = (bind_key b, PBind ((new_Bind b)\<lparr>sBind_id := bind_key b\<rparr>))"

lemmas row_defs = api_row_def cluster_row_def routing_row_def server_row_def bind_row_def

definition raw_rows :: "ManbaRawState \<Rightarrow> string \<Rightarrow> string \<rightharpoonup> obj" where
  "raw_rows raw t =
     (if t = ''api'' then map_of (map api_row (raw_APIs raw))
      else if t = ''cluster'' then map_of (map cluster_row (raw_Clusters raw))
      else if t = ''routing'' then map_of (map routing_row (raw_Routings raw))
      else if t = ''server'' then map_of (map server_row (raw_Servers raw))
      else if t = ''bind'' then map_of (map bind_row (List.map_filter dBind (raw_Binds raw)))
      else Map.empty)"

definition raw_proper :: "ManbaRawState \<Rightarrow> bool" where
  "raw_proper raw \<longleftrightarrow>
     proper (map (\<lambda>a. (id2Str (API_ID (dAPI a)), API_Name (dAPI a))) (raw_APIs raw)) \<and>
     proper (map (\<lambda>c. (id2Str (Cluster_ID (dCluster c)), Cluster_Name (dCluster c))) (raw_Clusters raw)) \<and>
     proper (map (\<lambda>r. (id2Str (Routing_ID (dRouting r)), Routing_Name (dRouting r))) (raw_Routings raw)) \<and>
     proper (map (\<lambda>s. (id2Str (Server_ID (dServer s)), Server_Addr (dServer s))) (raw_Servers raw)) \<and>
     (\<forall>b\<in>set (raw_Binds raw). GetClusterID (dBind b) \<noteq> 0 \<and> GetServerID (dBind b) \<noteq> 0) \<and>
     distinct (map bind_key (List.map_filter dBind (raw_Binds raw)))"

lemma rfold_wrap_map:
  "rfold (\<lambda>a db. wrap_err m (f db (g a))) xs db = Ok db' \<longleftrightarrow> rfold (\<lambda>e db. f db e) (map g xs) db = Ok db'"
  by (induction xs arbitrary: db) (auto simp: go_simps)

lemma names_upd: "names (T(k \<mapsto> x)) \<subseteq> insert (obj_name x) (names T)"
  by (auto simp: names_def ran_def split: if_splits)

lemma found_upd_None:
  "found T s = None \<Longrightarrow> s \<noteq> k \<Longrightarrow> s \<noteq> obj_name x \<Longrightarrow> found (T(k \<mapsto> x)) s = None"
  using names_upd [of T k x] by (auto simp: found_def split: if_splits)

context named_collection
begin

lemma Add_all:
  assumes "good db" and "proper (map (\<lambda>e. (key e, obj_name (c_box c e))) es)"
    and "\<forall>e\<in>set es. found (rows db (c_table c)) (key e) = None \<and>
      obj_name (c_box c e) \<notin> names (rows db (c_table c))"
  shows "\<exists>db'. rfold (\<lambda>e db. Collection_Add c D db e) es db = Ok db' \<and> good db' \<and>
    rows db' = (rows db)(c_table c := rows db (c_table c) ++ map_of (map (\<lambda>e. (key e, c_box c (keyed e))) es))"
  using assms
proof (induction es arbitrary: db)
  case (Cons e es)
  let ?T = "rows db (c_table c)"
  have "c_ID c e \<noteq> 0" "found ?T (key e) = None" "obj_name (c_box c e) \<notin> names ?T"
    using Cons.prems by (auto simp: proper_def id2Str_def)
  from Add_ok [OF Cons.prems(1) this] obtain db1 where db1: "Collection_Add c D db e = Ok db1" "good db1"
      "rows db1 = (rows db)(c_table c := ?T(key e \<mapsto> c_box c (keyed e)))"
    by blast
  have es: "proper (map (\<lambda>e. (key e, obj_name (c_box c e))) es)"
    using Cons.prems(2) by (auto simp: proper_def split: if_splits)
  have "found (rows db1 (c_table c)) (key x) = None \<and> obj_name (c_box c x) \<notin> names (rows db1 (c_table c))"
    if x: "x \<in> set es" for x
  proof -
    have "key x \<noteq> key e" "key x \<noteq> obj_name (c_box c e)"
      using Cons.prems(2) x by (fastforce simp: proper_def image_iff)+
    moreover have "obj_name (c_box c x) = [] \<or> obj_name (c_box c x) \<noteq> obj_name (c_box c e)"
      using Cons.prems(2) x by (auto simp: proper_def image_iff split: if_splits)
    ultimately show ?thesis
      using Cons.prems(3) x names_upd [of ?T "key e" "c_box c (keyed e)"] unfolding db1(3)
      by (auto simp: set_name intro!: found_upd_None) (auto simp: names_def)
  qed
  with Cons.IH [OF db1(2) es] obtain db' where db': "rfold (\<lambda>e db. Collection_Add c D db e) es db1 = Ok db'" "good db'"
      "rows db' = (rows db1)(c_table c := rows db1 (c_table c) ++ map_of (map (\<lambda>e. (key e, c_box c (keyed e))) es))"
    by blast
  have "key e \<notin> dom (map_of (map (\<lambda>e. (key e, c_box c (keyed e))) es))"
    using Cons.prems(2) by (auto simp: proper_def dom_map_of_conv_image_fst image_image)
  then have "rows db1 (c_table c) ++ map_of (map (\<lambda>e. (key e, c_box c (keyed e))) es) =
      ?T ++ map_of (map (\<lambda>e. (key e, c_box c (keyed e))) (e # es))"
    unfolding db1(3) by (simp add: map_add_upd_left)
  with db'(3) have "rows db' = (rows db)(c_table c :=
      ?T ++ map_of (map (\<lambda>e. (key e, c_box c (keyed e))) (e # es)))"
    unfolding db1(3) by (metis fun_upd_same fun_upd_upd)
  moreover have "rfold (\<lambda>e db. Collection_Add c D db e) (e # es) db = Ok db'"
    using db1(1) db'(1) by simp
  ultimately show ?case using db'(2) by blast
qed simp

text \<open>The case the loader needs: an empty table.\<close>

lemma load_table:
  assumes "good db" and "rows db (c_table c) = Map.empty"
    and "proper (map (\<lambda>a. (id2Str (c_ID c (g a)), obj_name (c_box c (g a)))) xs)"
  shows "\<exists>db'. rfold (\<lambda>a db. wrap_err m (Collection_Add c D db (g a))) xs db = Ok db' \<and> good db' \<and>
    rows db' = (rows db)(c_table c := map_of (map (\<lambda>a. (key (g a), c_box c (keyed (g a)))) xs))"
proof -
  have "found Map.empty s = None" "s \<notin> names Map.empty" for s
    by (auto simp: found_def names_def)
  with Add_all [OF assms(1), of "map g xs"] assms(2,3) show ?thesis
    by (simp add: o_def rfold_wrap_map)
qed

end

context manba_db
begin

lemma NewManbaState_ok:
  obtains db where "NewManbaState D = Ok db" and "good db" and "rows db = (\<lambda>t. Map.empty)"
  using new_ok by (auto simp: NewManbaState_def good_db_def well_typed_def)

lemma load_APIs_ok:
  assumes "good db" "rows db ''api'' = Map.empty"
    "proper (map (\<lambda>a. (id2Str (API_ID (dAPI a)), API_Name (dAPI a))) xs)"
  shows "\<exists>db'. load_APIs C D xs db = Ok db' \<and> good db' \<and>
    rows db' = (rows db)(''api'' := map_of (map api_row xs))"
  using apis.load_table [OF assms(1), of "\<lambda>a. new_API (dAPI a)" xs] assms(2,3)
  by (simp add: load_APIs_def APICollection_Add_def new_API_def api_row_def [abs_def] Let_def)

lemma load_Routings_ok:
  assumes "good db" "rows db ''routing'' = Map.empty"
    "proper (map (\<lambda>r. (id2Str (Routing_ID (dRouting r)), Routing_Name (dRouting r))) xs)"
  shows "\<exists>db'. load_Routings C D xs db = Ok db' \<and> good db' \<and>
    rows db' = (rows db)(''routing'' := map_of (map routing_row xs))"
  using routings.load_table [OF assms(1), of "\<lambda>a. new_Routing (dRouting a)" xs] assms(2,3)
  by (simp add: load_Routings_def RoutingCollection_Add_def new_Routing_def routing_row_def [abs_def] Let_def)

lemma load_Clusters_ok:
  assumes "good db" "rows db ''cluster'' = Map.empty"
    "proper (map (\<lambda>c. (id2Str (Cluster_ID (dCluster c)), Cluster_Name (dCluster c))) xs)"
  shows "\<exists>db'. load_Clusters C D xs db = Ok db' \<and> good db' \<and>
    rows db' = (rows db)(''cluster'' := map_of (map cluster_row xs))"
  using clusters.load_table [OF assms(1), of "\<lambda>a. new_Cluster (dCluster a)" xs] assms(2,3)
  by (simp add: load_Clusters_def ClusterCollection_Add_def new_Cluster_def cluster_row_def [abs_def] Let_def)

lemma load_Servers_eq:
  "rfold (\<lambda>a db. wrap_err m (ServerCollection_Add C D db (new_Server (dServer a)))) xs db = Ok db' \<Longrightarrow>
    load_Servers C D xs db = Ok db'"
  unfolding load_Servers_def by (induction xs arbitrary: db) (auto simp: go_simps)

lemma load_Servers_ok:
  assumes "good db" "rows db ''server'' = Map.empty"
    "proper (map (\<lambda>s. (id2Str (Server_ID (dServer s)), Server_Addr (dServer s))) xs)"
  shows "\<exists>db'. load_Servers C D xs db = Ok db' \<and> good db' \<and>
    rows db' = (rows db)(''server'' := map_of (map server_row xs))"
proof -
  have "\<exists>db'. rfold (\<lambda>a db. wrap_err [] (ServerCollection_Add C D db (new_Server (dServer a)))) xs db = Ok db' \<and>
      good db' \<and> rows db' = (rows db)(''server'' := map_of (map server_row xs))"
    using servers.load_table [OF assms(1), of "\<lambda>a. new_Server (dServer a)" xs] assms(2,3)
    by (simp add: ServerCollection_Add_def new_Server_def server_row_def [abs_def] Let_def)
  then show ?thesis using load_Servers_eq by blast
qed

lemma load_Binds_ok:
  assumes "good db"
    "\<forall>b\<in>set xs. \<exists>m. dBind b = Some m \<and> Bind_ClusterID m \<noteq> 0 \<and> Bind_ServerID m \<noteq> 0 \<and>
      rows db ''bind'' (bind_key m) = None"
    "distinct (map bind_key (List.map_filter dBind xs))"
  shows "\<exists>db'. load_Binds C D xs db = Ok db' \<and> good db' \<and>
    rows db' = (rows db)(''bind'' := rows db ''bind'' ++ map_of (map bind_row (List.map_filter dBind xs)))"
  using assms unfolding load_Binds_def
proof (induction xs arbitrary: db)
  case Nil
  then show ?case by (simp add: map_filter_simps)
next
  case (Cons b xs)
  then obtain m where m: "dBind b = Some m" "Bind_ClusterID m \<noteq> 0" "Bind_ServerID m \<noteq> 0"
      "rows db ''bind'' (bind_key m) = None" by auto
  from Bind_Add_ok [OF Cons.prems(1), of "new_Bind m"] m
  obtain db1 where db1: "BindCollection_Add C D db (new_Bind m) = Ok db1" "good db1"
      "rows db1 = (rows db)(''bind'' := (rows db ''bind'')(bind_key m \<mapsto> snd (bind_row m)))"
    by (auto simp: new_Bind_def bind_row_def)
  have "bind_key m \<noteq> bind_key n" if "b' \<in> set xs" "dBind b' = Some n" for b' n
    using Cons.prems(3) that m(1) by (force simp: map_filter_def image_iff)
  then have "\<forall>b\<in>set xs. \<exists>m. dBind b = Some m \<and> Bind_ClusterID m \<noteq> 0 \<and> Bind_ServerID m \<noteq> 0 \<and>
      rows db1 ''bind'' (bind_key m) = None"
    using Cons.prems(2) unfolding db1(3) by fastforce
  moreover have "distinct (map bind_key (List.map_filter dBind xs))"
    using Cons.prems(3) m(1) by (simp add: map_filter_simps)
  ultimately obtain db' where db': "rfold (\<lambda>b db. case dBind b of
        None \<Rightarrow> Panic nil_deref
      | Some m \<Rightarrow> wrap_err ''add bind to state'' (BindCollection_Add C D db (new_Bind m))) xs db1 = Ok db'"
      "good db'" "rows db' = (rows db1)(''bind'' := rows db1 ''bind'' ++ map_of (map bind_row (List.map_filter dBind xs)))"
    using Cons.IH [OF db1(2)] by blast
  have "bind_key m \<notin> dom (map_of (map bind_row (List.map_filter dBind xs)))"
    using Cons.prems(3) m(1) by (auto simp: map_filter_simps dom_map_of_conv_image_fst bind_row_def image_image)
  then have "rows db1 ''bind'' ++ map_of (map bind_row (List.map_filter dBind xs)) =
      rows db ''bind'' ++ map_of (map bind_row (List.map_filter dBind (b # xs)))"
    unfolding db1(3) using m(1) by (simp add: map_filter_simps map_add_upd_left bind_row_def)
  with db'(3) have "rows db' = (rows db)(''bind'' :=
      rows db ''bind'' ++ map_of (map bind_row (List.map_filter dBind (b # xs))))"
    unfolding db1(3) by (metis fun_upd_same fun_upd_upd)
  moreover have "rfold (\<lambda>b db. case dBind b of
        None \<Rightarrow> Panic nil_deref
      | Some m \<Rightarrow> wrap_err ''add bind to state'' (BindCollection_Add C D db (new_Bind m))) (b # xs) db = Ok db'"
    using db1(1) m(1) db'(1) by simp
  ultimately show ?case using db'(2) by blast
qed

lemma state_Get_rows:
  assumes "raw_proper raw"
  shows "\<exists>db. state_Get C D raw = Ok db \<and> good db \<and> rows db = raw_rows raw"
proof -
  obtain db0 where db0: "NewManbaState D = Ok db0" "good db0" "rows db0 = (\<lambda>t. Map.empty)"
    by (rule NewManbaState_ok)
  obtain db1 where db1: "load_APIs C D (raw_APIs raw) db0 = Ok db1" "good db1"
      "rows db1 = (rows db0)(''api'' := map_of (map api_row (raw_APIs raw)))"
    using load_APIs_ok [OF db0(2)] assms db0(3) by (auto simp: raw_proper_def)
  obtain db2 where db2: "load_Routings C D (raw_Routings raw) db1 = Ok db2" "good db2"
      "rows db2 = (rows db1)(''routing'' := map_of (map routing_row (raw_Routings raw)))"
    using load_Routings_ok [OF db1(2)] assms db1(3) db0(3) by (auto simp: raw_proper_def)
  obtain db3 where db3: "load_Clusters C D (raw_Clusters raw) db2 = Ok db3" "good db3"
      "rows db3 = (rows db2)(''cluster'' := map_of (map cluster_row (raw_Clusters raw)))"
    using load_Clusters_ok [OF db2(2)] assms db2(3) db1(3) db0(3) by (auto simp: raw_proper_def)
  obtain db4 where db4: "load_Servers C D (raw_Servers raw) db3 = Ok db4" "good db4"
      "rows db4 = (rows db3)(''server'' := map_of (map server_row (raw_Servers raw)))"
    using load_Servers_ok [OF db3(2)] assms db3(3) db2(3) db1(3) db0(3) by (auto simp: raw_proper_def)
  have none: "rows db4 ''bind'' = Map.empty" by (simp add: db4(3) db3(3) db2(3) db1(3) db0(3))
  have "\<forall>b\<in>set (raw_Binds raw). \<exists>m. dBind b = Some m \<and> Bind_ClusterID m \<noteq> 0 \<and> Bind_ServerID m \<noteq> 0"
    using assms by (auto simp: raw_proper_def GetClusterID_def GetServerID_def split: option.splits)
  with none load_Binds_ok [OF db4(2)] assms obtain db5 where db5: "load_Binds C D (raw_Binds raw) db4 = Ok db5" "good db5"
      "rows db5 = (rows db4)(''bind'' := map_of (map bind_row (List.map_filter dBind (raw_Binds raw))))"
    by (force simp: raw_proper_def)
  have "rows db5 t = raw_rows raw t" for t
    by (simp add: db5(3) db4(3) db3(3) db2(3) db1(3) db0(3) raw_rows_def)
  with db5(2) show ?thesis
    by (auto simp: state_Get_def db0(1) db1(1) db2(1) db3(1) db4(1) db5(1))
qed

end

section \<open>The loaded state\<close>

text \<open>A configuration with one entity of each kind, for the witnesses.\<close>

definition sample_raw :: ManbaRawState where
  "sample_raw = empty_raw\<lparr>
     raw_APIs := [\<lparr>dAPI = zero_API\<lparr>API_ID := 1, API_Name := ''a''\<rparr>, dAPI_Proxies = []\<rparr>],
     raw_Servers := [\<lparr>dServer = zero_Server\<lparr>Server_ID := 2, Server_Addr := ''10.0.0.1:80''\<rparr>\<rparr>],
     raw_Clusters := [\<lparr>dCluster = zero_Cluster\<lparr>Cluster_ID := 3, Cluster_Name := ''c''\<rparr>\<rparr>],
     raw_Binds := [\<lparr>dBind_ClusterName = ''c'', dBind_ServerAddr = ''10.0.0.1:80'',
       dBind = Some (zero_Bind\<lparr>Bind_ClusterID := 3, Bind_ServerID := 2\<rparr>)\<rparr>],
     raw_Routings := [\<lparr>dRouting_APIName = ''a'', dRouting_ClusterName = ''c'',
       dRouting = zero_Routing\<lparr>Routing_ID := 4\<rparr>\<rparr>]\<rparr>"

lemma sample_raw_proper: "raw_proper sample_raw"
  by code_simp

text \<open>
  C13. Loading a configuration whose IDs are non-zero and distinct, whose non-empty names are distinct
  and are not the printed ID of another entity of the kind, and whose binds have both IDs, succeeds,
  and the resulting state holds exactly the entities of the configuration, each under its key.
\<close>

theorem state_Get_loads:
  assumes "manba_db D rows ok C" and "raw_proper raw"
  shows "\<exists>db. state_Get C D raw = Ok db \<and> good_db rows ok db \<and> rows db = raw_rows raw"
  using manba_db.state_Get_rows [OF assms] .

theorem state_Get_loads_witness:
  "\<exists>db. state_Get tagged_codecs refdb sample_raw = Ok db \<and> good_db ref_rows ref_inv db \<and>
    ref_rows db = raw_rows sample_raw"
  by (rule state_Get_loads [OF ref.manba_db_axioms sample_raw_proper])

end
