(* ===== verification/Crud.thy ===== *)
theory Crud
  imports Manba_State
begin

text \<open>
  The CRUD layer (\<open>pkg/manba/crud\<close>): events, the registry of actions by kind, the post actions that
  mirror an event in the in-memory state, and the raw actions that send it to Manba. The client of
  the gateway is not part of the repository; it is the record \<open>client\<close>, over an open type of gateway
  states. An action takes and returns the state it works on: the database for a post action, the
  gateway for a raw action. The four named kinds have the same code, so their actions are instances
  of one definition.

  Shown here: the registries hold exactly the five kinds and dispatch to the action of the kind,
  unknown kinds and operations are errors, and \<open>Registry.Delete\<close> panics on every raw action because
  it passes its variadic slice on as one argument.
\<close>

section \<open>Events and arguments\<close>

type_synonym Kind = string

record Op =
  Op_name :: string

definition Create :: Op where "Create = \<lparr>Op_name = ''Create''\<rparr>"
definition Update :: Op where "Update = \<lparr>Op_name = ''Update''\<rparr>"
definition Delete :: Op where "Delete = \<lparr>Op_name = ''Delete''\<rparr>"

lemmas op_defs = Create_def Update_def Delete_def

definition Op_String :: "Op \<Rightarrow> string" where
  "Op_String op = Op_name op"

record Event =
  Ev_Op :: Op
  Ev_Kind :: Kind
  Ev_Obj :: obj
  Ev_OldObj :: "obj option"

text \<open>\<open>Arg\<close> is an empty interface: nil, an event, a pointer to an entity, or a slice of arguments.\<close>

datatype Arg = ANil | AEvent Event | AObj obj | ASlice "Arg list"

definition eventFromArg :: "Arg \<Rightarrow> Event result" where
  "eventFromArg arg =
     (case arg of AEvent e \<Rightarrow> Ok e | _ \<Rightarrow> Panic ''unexpected type, expected diff.Event'')"

text \<open>The three callbacks of an action, each from an argument and the state it acts on.\<close>

record 's Actions =
  act_Create :: "Arg \<Rightarrow> 's \<Rightarrow> 's \<times> Arg result"
  act_Delete :: "Arg \<Rightarrow> 's \<Rightarrow> 's \<times> Arg result"
  act_Update :: "Arg \<Rightarrow> 's \<Rightarrow> 's \<times> Arg result"

section \<open>The registry\<close>

text \<open>The map of a registry is nil until \<open>typesMap\<close> makes it.\<close>

record 's Registry =
  types :: "(Kind \<rightharpoonup> 's Actions) option"

definition typesMap :: "'s Registry \<Rightarrow> Kind \<rightharpoonup> 's Actions" where
  "typesMap r = (case types r of None \<Rightarrow> Map.empty | Some m \<Rightarrow> m)"

definition Register :: "'s Registry \<Rightarrow> Kind \<Rightarrow> 's Actions \<Rightarrow> 's Registry result" where
  "Register r kind a =
     (if kind = [] then Err (NewError ''kind cannot be empty'')
      else
        let m = typesMap r in
        if m kind \<noteq> None then Err (NewError (''kind '' @ kind @ '' already registered''))
        else Ok (r\<lparr>types := Some (m(kind \<mapsto> a))\<rparr>))"

definition MustRegister :: "Kind \<Rightarrow> 's Actions \<Rightarrow> 's Registry \<Rightarrow> 's Registry result" where
  "MustRegister kind a r =
     (case Register r kind a of Ok r' \<Rightarrow> Ok r' | Err err \<Rightarrow> Panic ''MustRegister'' | Panic m \<Rightarrow> Panic m)"

definition Registry_Get :: "'s Registry \<Rightarrow> Kind \<Rightarrow> 's Actions result" where
  "Registry_Get r kind =
     (if kind = [] then Err (NewError ''kind cannot be empty'')
      else case typesMap r kind of
        None \<Rightarrow> Err (NewError (''kind '' @ kind @ '' is not registered''))
      | Some a \<Rightarrow> Ok a)"

text \<open>Run the action found, wrap its error.\<close>

definition with_actions ::
    "string \<Rightarrow> 's Registry \<Rightarrow> Kind \<Rightarrow> ('s Actions \<Rightarrow> 's \<Rightarrow> 's \<times> Arg result) \<Rightarrow> 's \<Rightarrow> 's \<times> Arg result" where
  "with_actions msg r kind act s =
     (case Registry_Get r kind of
        Err err \<Rightarrow> (s, Err (Wrap msg err))
      | Panic m \<Rightarrow> (s, Panic m)
      | Ok a \<Rightarrow> (let (s', res) = act a s in (s', wrap_err msg res)))"

definition Registry_Create :: "'s Registry \<Rightarrow> Kind \<Rightarrow> Arg \<Rightarrow> 's \<Rightarrow> 's \<times> Arg result" where
  "Registry_Create r kind arg = with_actions ''create failed'' r kind (\<lambda>a. act_Create a arg)"

definition Registry_Update :: "'s Registry \<Rightarrow> Kind \<Rightarrow> Arg \<Rightarrow> 's \<Rightarrow> 's \<times> Arg result" where
  "Registry_Update r kind arg = with_actions ''update failed'' r kind (\<lambda>a. act_Update a arg)"

text \<open>\<open>Delete(kind Kind, arg ...Arg)\<close> calls \<open>a.Delete(arg)\<close>: the argument is the slice.\<close>

definition Registry_Delete :: "'s Registry \<Rightarrow> Kind \<Rightarrow> Arg list \<Rightarrow> 's \<Rightarrow> 's \<times> Arg result" where
  "Registry_Delete r kind arg = with_actions ''delete failed'' r kind (\<lambda>a. act_Delete a (ASlice arg))"

definition Registry_Do :: "'s Registry \<Rightarrow> Kind \<Rightarrow> Op \<Rightarrow> Arg \<Rightarrow> 's \<Rightarrow> 's \<times> Arg result" where
  "Registry_Do r kind op arg s =
     (case Registry_Get r kind of
        Err err \<Rightarrow> (s, Err (Wrap (Op_name op @ '' failed'') err))
      | Panic m \<Rightarrow> (s, Panic m)
      | Ok a \<Rightarrow>
          if Op_name op = Op_name Create then
            (let (s', res) = act_Create a arg s in (s', wrap_err (Op_name op @ '' failed'') res))
          else if Op_name op = Op_name Update then
            (let (s', res) = act_Update a arg s in (s', wrap_err (Op_name op @ '' failed'') res))
          else if Op_name op = Op_name Delete then
            (let (s', res) = act_Delete a arg s in (s', wrap_err (Op_name op @ '' failed'') res))
          else (s, Err (NewError (''unknown operation: '' @ Op_name op))))"

section \<open>Post actions: the in-memory state\<close>

text \<open>
  \<open>return nil, c.currentState.APIs.Add(*arg.(*state.API))\<close>: the assertion panics on another type; the
  state changes only where the collection commits.
\<close>

definition post_call :: "(obj \<Rightarrow> 'e option) \<Rightarrow> ('db \<Rightarrow> 'e \<Rightarrow> 'db result) \<Rightarrow> Arg \<Rightarrow> 'db \<Rightarrow> 'db \<times> Arg result" where
  "post_call unbox f arg db =
     (case arg of
        AObj x \<Rightarrow>
          (case unbox x of
             None \<Rightarrow> (db, Panic ''interface conversion'')
           | Some e \<Rightarrow> (case f db e of Ok db' \<Rightarrow> (db', Ok ANil) | Err err \<Rightarrow> (db, Err err) | Panic m \<Rightarrow> (db, Panic m)))
      | _ \<Rightarrow> (db, Panic ''interface conversion''))"

definition apiPostAction :: "'w codecs \<Rightarrow> ('db, obj) memdb \<Rightarrow> 'db Actions" where
  "apiPostAction C D = \<lparr>
     act_Create = post_call (c_unbox (api_coll C)) (APICollection_Add C D),
     act_Delete = post_call (c_unbox (api_coll C)) (\<lambda>db e. APICollection_Delete C D db (API_Identifier e)),
     act_Update = post_call (c_unbox (api_coll C)) (APICollection_Update C D)\<rparr>"

definition clusterPostAction :: "'w codecs \<Rightarrow> ('db, obj) memdb \<Rightarrow> 'db Actions" where
  "clusterPostAction C D = \<lparr>
     act_Create = post_call (c_unbox (cluster_coll C)) (ClusterCollection_Add C D),
     act_Delete = post_call (c_unbox (cluster_coll C)) (\<lambda>db e. ClusterCollection_Delete C D db (Cluster_Identifier e)),
     act_Update = post_call (c_unbox (cluster_coll C)) (ClusterCollection_Update C D)\<rparr>"

definition routingPostAction :: "'w codecs \<Rightarrow> ('db, obj) memdb \<Rightarrow> 'db Actions" where
  "routingPostAction C D = \<lparr>
     act_Create = post_call (c_unbox (routing_coll C)) (RoutingCollection_Add C D),
     act_Delete = post_call (c_unbox (routing_coll C)) (\<lambda>db e. RoutingCollection_Delete C D db (Routing_Identifier e)),
     act_Update = post_call (c_unbox (routing_coll C)) (RoutingCollection_Update C D)\<rparr>"

definition serverPostAction :: "'w codecs \<Rightarrow> ('db, obj) memdb \<Rightarrow> 'db Actions" where
  "serverPostAction C D = \<lparr>
     act_Create = post_call (c_unbox (server_coll C)) (ServerCollection_Add C D),
     act_Delete = post_call (c_unbox (server_coll C)) (\<lambda>db e. ServerCollection_Delete C D db (Server_Identifier e)),
     act_Update = post_call (c_unbox (server_coll C)) (ServerCollection_Update C D)\<rparr>"

definition bindPostAction :: "'w codecs \<Rightarrow> ('db, obj) memdb \<Rightarrow> 'db Actions" where
  "bindPostAction C D = \<lparr>
     act_Create = post_call (c_unbox (bind_coll C)) (BindCollection_Add C D),
     act_Delete = post_call (c_unbox (bind_coll C)) (\<lambda>db e. BindCollection_Delete C D db (Bind_Identifier e)),
     act_Update = post_call (c_unbox (bind_coll C)) (BindCollection_Update C D)\<rparr>"

section \<open>The client of the gateway\<close>

record 'g client =
  cl_PutAPI :: "metapb_API \<Rightarrow> 'g \<Rightarrow> 'g \<times> uint64 result"
  cl_PutCluster :: "metapb_Cluster \<Rightarrow> 'g \<Rightarrow> 'g \<times> uint64 result"
  cl_PutRouting :: "metapb_Routing \<Rightarrow> 'g \<Rightarrow> 'g \<times> uint64 result"
  cl_PutServer :: "metapb_Server \<Rightarrow> 'g \<Rightarrow> 'g \<times> uint64 result"
  cl_RemoveAPI :: "uint64 \<Rightarrow> 'g \<Rightarrow> 'g \<times> unit result"
  cl_RemoveCluster :: "uint64 \<Rightarrow> 'g \<Rightarrow> 'g \<times> unit result"
  cl_RemoveRouting :: "uint64 \<Rightarrow> 'g \<Rightarrow> 'g \<times> unit result"
  cl_RemoveServer :: "uint64 \<Rightarrow> 'g \<Rightarrow> 'g \<times> unit result"
  cl_AddBind :: "uint64 \<Rightarrow> uint64 \<Rightarrow> 'g \<Rightarrow> 'g \<times> unit result"
  cl_RemoveBind :: "uint64 \<Rightarrow> uint64 \<Rightarrow> 'g \<Rightarrow> 'g \<times> unit result"
  cl_GetClusterList :: "'g \<Rightarrow> metapb_Cluster list result"
  cl_GetServerList :: "'g \<Rightarrow> metapb_Server list result"
  cl_GetAPIList :: "'g \<Rightarrow> metapb_API list result"
  cl_GetRoutingList :: "'g \<Rightarrow> metapb_Routing list result"
  cl_GetBindServers :: "uint64 \<Rightarrow> 'g \<Rightarrow> uint64 list result"

text \<open>
  A gateway for the witnesses: it keeps the messages in a list, a put replaces the message of the same
  ID and returns that ID, and nothing fails.
\<close>

definition drop_API :: "uint64 \<Rightarrow> wire list \<Rightarrow> wire list" where
  "drop_API i = filter (\<lambda>w. case w of WAPI m \<Rightarrow> API_ID m \<noteq> i | _ \<Rightarrow> True)"
definition drop_Cluster :: "uint64 \<Rightarrow> wire list \<Rightarrow> wire list" where
  "drop_Cluster i = filter (\<lambda>w. case w of WCluster m \<Rightarrow> Cluster_ID m \<noteq> i | _ \<Rightarrow> True)"
definition drop_Routing :: "uint64 \<Rightarrow> wire list \<Rightarrow> wire list" where
  "drop_Routing i = filter (\<lambda>w. case w of WRouting m \<Rightarrow> Routing_ID m \<noteq> i | _ \<Rightarrow> True)"
definition drop_Server :: "uint64 \<Rightarrow> wire list \<Rightarrow> wire list" where
  "drop_Server i = filter (\<lambda>w. case w of WServer m \<Rightarrow> Server_ID m \<noteq> i | _ \<Rightarrow> True)"
definition drop_Bind :: "uint64 \<Rightarrow> uint64 \<Rightarrow> wire list \<Rightarrow> wire list" where
  "drop_Bind c s = filter (\<lambda>w. case w of WBind b \<Rightarrow> Bind_ClusterID b \<noteq> c \<or> Bind_ServerID b \<noteq> s | _ \<Rightarrow> True)"

definition ref_client :: "wire list client" where
  "ref_client = \<lparr>
     cl_PutAPI = (\<lambda>m g. (drop_API (API_ID m) g @ [WAPI m], Ok (API_ID m))),
     cl_PutCluster = (\<lambda>m g. (drop_Cluster (Cluster_ID m) g @ [WCluster m], Ok (Cluster_ID m))),
     cl_PutRouting = (\<lambda>m g. (drop_Routing (Routing_ID m) g @ [WRouting m], Ok (Routing_ID m))),
     cl_PutServer = (\<lambda>m g. (drop_Server (Server_ID m) g @ [WServer m], Ok (Server_ID m))),
     cl_RemoveAPI = (\<lambda>i g. (drop_API i g, Ok ())),
     cl_RemoveCluster = (\<lambda>i g. (drop_Cluster i g, Ok ())),
     cl_RemoveRouting = (\<lambda>i g. (drop_Routing i g, Ok ())),
     cl_RemoveServer = (\<lambda>i g. (drop_Server i g, Ok ())),
     cl_AddBind = (\<lambda>c s g. (drop_Bind c s g @ [WBind (zero_Bind\<lparr>Bind_ClusterID := c, Bind_ServerID := s\<rparr>)], Ok ())),
     cl_RemoveBind = (\<lambda>c s g. (drop_Bind c s g, Ok ())),
     cl_GetClusterList = (\<lambda>g. Ok (List.map_filter (\<lambda>w. case w of WCluster m \<Rightarrow> Some m | _ \<Rightarrow> None) g)),
     cl_GetServerList = (\<lambda>g. Ok (List.map_filter (\<lambda>w. case w of WServer m \<Rightarrow> Some m | _ \<Rightarrow> None) g)),
     cl_GetAPIList = (\<lambda>g. Ok (List.map_filter (\<lambda>w. case w of WAPI m \<Rightarrow> Some m | _ \<Rightarrow> None) g)),
     cl_GetRoutingList = (\<lambda>g. Ok (List.map_filter (\<lambda>w. case w of WRouting m \<Rightarrow> Some m | _ \<Rightarrow> None) g)),
     cl_GetBindServers = (\<lambda>i g. Ok (List.map_filter (\<lambda>w. case w of WBind b \<Rightarrow>
       if Bind_ClusterID b = i then Some (Bind_ServerID b) else None | _ \<Rightarrow> None) g))\<rparr>"

section \<open>Raw actions: the gateway\<close>

text \<open>What a named kind contributes to its raw action; \<open>r_commit\<close> is \<open>NewAPIBuilder().Use(m).Commit()\<close>.\<close>

record ('e, 'm, 'g) rawkind =
  r_fromObj :: "obj \<Rightarrow> 'e result"
  r_box :: "'e \<Rightarrow> obj"
  r_msg :: "'e \<Rightarrow> 'm"
  r_new :: "'m \<Rightarrow> 'e"
  r_ID :: "'m \<Rightarrow> uint64"
  r_setID :: "uint64 \<Rightarrow> 'm \<Rightarrow> 'm"
  r_commit :: "'m \<Rightarrow> 'g \<Rightarrow> 'g \<times> uint64 result"
  r_remove :: "uint64 \<Rightarrow> 'g \<Rightarrow> 'g \<times> unit result"

text \<open>The event of the argument, then its object under the expected type.\<close>

definition event_entity :: "(obj \<Rightarrow> 'e result) \<Rightarrow> Arg \<Rightarrow> 'e result" where
  "event_entity fromObj arg = rbind (eventFromArg arg) (\<lambda>event. fromObj (Ev_Obj event))"

definition rawAction_Create :: "('e, 'm, 'g) rawkind \<Rightarrow> Arg \<Rightarrow> 'g \<Rightarrow> 'g \<times> Arg result" where
  "rawAction_Create r arg g =
     (case event_entity (r_fromObj r) arg of
        Panic m \<Rightarrow> (g, Panic m)
      | Err err \<Rightarrow> (g, Err err)
      | Ok e \<Rightarrow>
          (let (g', res) = r_commit r (r_msg r e) g in
           (g', rbind res (\<lambda>id. Ok (AObj (r_box r (r_new r (r_setID r id (r_msg r e)))))))))"

definition rawAction_Delete :: "('e, 'm, 'g) rawkind \<Rightarrow> Arg \<Rightarrow> 'g \<Rightarrow> 'g \<times> Arg result" where
  "rawAction_Delete r arg g =
     (case event_entity (r_fromObj r) arg of
        Panic m \<Rightarrow> (g, Panic m)
      | Err err \<Rightarrow> (g, Err err)
      | Ok e \<Rightarrow>
          (let (g', res) = r_remove r (r_ID r (r_msg r e)) g in (g', rbind res (\<lambda>_. Ok (AObj (r_box r e))))))"

definition rawAction_Update :: "('e, 'm, 'g) rawkind \<Rightarrow> Arg \<Rightarrow> 'g \<Rightarrow> 'g \<times> Arg result" where
  "rawAction_Update r arg g =
     (case event_entity (r_fromObj r) arg of
        Panic m \<Rightarrow> (g, Panic m)
      | Err err \<Rightarrow> (g, Err err)
      | Ok e \<Rightarrow>
          (let (g', res) = r_commit r (r_msg r e) g in (g', rbind res (\<lambda>_. Ok (AObj (r_box r e))))))"

definition rawAction :: "('e, 'm, 'g) rawkind \<Rightarrow> 'g Actions" where
  "rawAction r = \<lparr>act_Create = rawAction_Create r, act_Delete = rawAction_Delete r,
     act_Update = rawAction_Update r\<rparr>"

definition apiFromObj :: "obj \<Rightarrow> state_API result" where
  "apiFromObj x = (case x of PAPI a \<Rightarrow> Ok a | _ \<Rightarrow> Panic ''unexpected type, expected *state.API'')"
definition clusterFromObj :: "obj \<Rightarrow> state_Cluster result" where
  "clusterFromObj x = (case x of PCluster a \<Rightarrow> Ok a | _ \<Rightarrow> Panic ''unexpected type, expected *state.Cluster'')"
definition routingFromObj :: "obj \<Rightarrow> state_Routing result" where
  "routingFromObj x = (case x of PRouting a \<Rightarrow> Ok a | _ \<Rightarrow> Panic ''unexpected type, expected *state.Routing'')"
definition serverFromObj :: "obj \<Rightarrow> state_Server result" where
  "serverFromObj x = (case x of PServer a \<Rightarrow> Ok a | _ \<Rightarrow> Panic ''unexpected type, expected *state.Server'')"
definition bindFromObj :: "obj \<Rightarrow> state_Bind result" where
  "bindFromObj x = (case x of PBind a \<Rightarrow> Ok a | _ \<Rightarrow> Panic ''unexpected type, expected *state.Bind'')"

definition api_rawkind :: "'g client \<Rightarrow> (state_API, metapb_API, 'g) rawkind" where
  "api_rawkind cl = \<lparr>r_fromObj = apiFromObj, r_box = PAPI, r_msg = sAPI, r_new = new_API,
     r_ID = API_ID, r_setID = (\<lambda>i m. m\<lparr>API_ID := i\<rparr>), r_commit = cl_PutAPI cl, r_remove = cl_RemoveAPI cl\<rparr>"
definition cluster_rawkind :: "'g client \<Rightarrow> (state_Cluster, metapb_Cluster, 'g) rawkind" where
  "cluster_rawkind cl = \<lparr>r_fromObj = clusterFromObj, r_box = PCluster, r_msg = sCluster, r_new = new_Cluster,
     r_ID = Cluster_ID, r_setID = (\<lambda>i m. m\<lparr>Cluster_ID := i\<rparr>), r_commit = cl_PutCluster cl, r_remove = cl_RemoveCluster cl\<rparr>"
definition routing_rawkind :: "'g client \<Rightarrow> (state_Routing, metapb_Routing, 'g) rawkind" where
  "routing_rawkind cl = \<lparr>r_fromObj = routingFromObj, r_box = PRouting, r_msg = sRouting, r_new = new_Routing,
     r_ID = Routing_ID, r_setID = (\<lambda>i m. m\<lparr>Routing_ID := i\<rparr>), r_commit = cl_PutRouting cl, r_remove = cl_RemoveRouting cl\<rparr>"
definition server_rawkind :: "'g client \<Rightarrow> (state_Server, metapb_Server, 'g) rawkind" where
  "server_rawkind cl = \<lparr>r_fromObj = serverFromObj, r_box = PServer, r_msg = sServer, r_new = new_Server,
     r_ID = Server_ID, r_setID = (\<lambda>i m. m\<lparr>Server_ID := i\<rparr>), r_commit = cl_PutServer cl, r_remove = cl_RemoveServer cl\<rparr>"

definition apiRawAction :: "'g client \<Rightarrow> 'g Actions" where
  "apiRawAction cl = rawAction (api_rawkind cl)"
definition clusterRawAction :: "'g client \<Rightarrow> 'g Actions" where
  "clusterRawAction cl = rawAction (cluster_rawkind cl)"
definition routingRawAction :: "'g client \<Rightarrow> 'g Actions" where
  "routingRawAction cl = rawAction (routing_rawkind cl)"
definition serverRawAction :: "'g client \<Rightarrow> 'g Actions" where
  "serverRawAction cl = rawAction (server_rawkind cl)"

definition bindRawAction_Create :: "'g client \<Rightarrow> Arg \<Rightarrow> 'g \<Rightarrow> 'g \<times> Arg result" where
  "bindRawAction_Create cl arg g =
     (case event_entity bindFromObj arg of
        Panic m \<Rightarrow> (g, Panic m)
      | Err err \<Rightarrow> (g, Err err)
      | Ok b \<Rightarrow>
          (let (g', res) = cl_AddBind cl (Bind_ClusterID (sBind b)) (Bind_ServerID (sBind b)) g in
           (g', rbind res (\<lambda>_. Ok (AObj (PBind (new_Bind (sBind b))))))))"

definition bindRawAction_Delete :: "'g client \<Rightarrow> Arg \<Rightarrow> 'g \<Rightarrow> 'g \<times> Arg result" where
  "bindRawAction_Delete cl arg g =
     (case event_entity bindFromObj arg of
        Panic m \<Rightarrow> (g, Panic m)
      | Err err \<Rightarrow> (g, Err err)
      | Ok b \<Rightarrow>
          (let (g', res) = cl_RemoveBind cl (Bind_ClusterID (sBind b)) (Bind_ServerID (sBind b)) g in
           (g', rbind res (\<lambda>_. Ok (AObj (PBind b))))))"

text \<open>A bind is never updated: \<open>return nil, nil\<close>.\<close>

definition bindRawAction_Update :: "'g client \<Rightarrow> Arg \<Rightarrow> 'g \<Rightarrow> 'g \<times> Arg result" where
  "bindRawAction_Update cl arg g = (g, Ok ANil)"

definition bindRawAction :: "'g client \<Rightarrow> 'g Actions" where
  "bindRawAction cl = \<lparr>act_Create = bindRawAction_Create cl, act_Delete = bindRawAction_Delete cl,
     act_Update = bindRawAction_Update cl\<rparr>"

section \<open>The two registries\<close>

definition empty_Registry :: "'s Registry" where
  "empty_Registry = \<lparr>types = None\<rparr>"

definition NewPostProcess :: "'w codecs \<Rightarrow> ('db, obj) memdb \<Rightarrow> 'db Registry result" where
  "NewPostProcess C D =
     rbind (MustRegister ''cluster'' (clusterPostAction C D) empty_Registry) (\<lambda>r.
     rbind (MustRegister ''routing'' (routingPostAction C D) r) (\<lambda>r.
     rbind (MustRegister ''server'' (serverPostAction C D) r) (\<lambda>r.
     rbind (MustRegister ''api'' (apiPostAction C D) r) (\<lambda>r.
     MustRegister ''bind'' (bindPostAction C D) r))))"

definition NewRawRegistry :: "'g client \<Rightarrow> 'g Registry result" where
  "NewRawRegistry cl =
     rbind (MustRegister ''cluster'' (clusterRawAction cl) empty_Registry) (\<lambda>r.
     rbind (MustRegister ''routing'' (routingRawAction cl) r) (\<lambda>r.
     rbind (MustRegister ''server'' (serverRawAction cl) r) (\<lambda>r.
     rbind (MustRegister ''api'' (apiRawAction cl) r) (\<lambda>r.
     MustRegister ''bind'' (bindRawAction cl) r))))"

section \<open>Registration and dispatch\<close>

lemma typesMap_Some [simp]: "typesMap \<lparr>types = Some m\<rparr> = m"
  by (simp add: typesMap_def)

lemma Register_cases:
  obtains (empty) "kind = []" and "Register r kind a = Err (NewError ''kind cannot be empty'')"
  | (dup) "kind \<noteq> []" and "typesMap r kind \<noteq> None" and "\<exists>m. Register r kind a = Err (NewError m)"
  | (ok) "kind \<noteq> []" and "typesMap r kind = None"
      and "Register r kind a = Ok (r\<lparr>types := Some ((typesMap r)(kind \<mapsto> a))\<rparr>)"
  by (cases "kind = []"; cases "typesMap r kind = None") (auto simp: Register_def Let_def)

lemma MustRegister_ok:
  "kind \<noteq> [] \<Longrightarrow> typesMap r kind = None \<Longrightarrow>
    MustRegister kind a r = Ok (r\<lparr>types := Some ((typesMap r)(kind \<mapsto> a))\<rparr>)"
  by (simp add: MustRegister_def Register_def Let_def)

definition kinds5 :: "'s Actions \<Rightarrow> 's Actions \<Rightarrow> 's Actions \<Rightarrow> 's Actions \<Rightarrow> 's Actions \<Rightarrow> Kind \<rightharpoonup> 's Actions" where
  "kinds5 a b c r s = [''cluster'' \<mapsto> c, ''routing'' \<mapsto> r, ''server'' \<mapsto> s, ''api'' \<mapsto> a, ''bind'' \<mapsto> b]"

lemma NewPostProcess_ok:
  "NewPostProcess C D = Ok \<lparr>types = Some (kinds5 (apiPostAction C D) (bindPostAction C D)
     (clusterPostAction C D) (routingPostAction C D) (serverPostAction C D))\<rparr>"
  by (simp add: NewPostProcess_def MustRegister_ok empty_Registry_def typesMap_def kinds5_def)

lemma NewRawRegistry_ok:
  "NewRawRegistry cl = Ok \<lparr>types = Some (kinds5 (apiRawAction cl) (bindRawAction cl)
     (clusterRawAction cl) (routingRawAction cl) (serverRawAction cl))\<rparr>"
  by (simp add: NewRawRegistry_def MustRegister_ok empty_Registry_def typesMap_def kinds5_def)

lemma kinds5_cases:
  "kinds5 a b c r s k = (if k = ''api'' then Some a else if k = ''bind'' then Some b else
     if k = ''cluster'' then Some c else if k = ''routing'' then Some r else
     if k = ''server'' then Some s else None)"
  by (simp add: kinds5_def)

text \<open>The action a registry runs for a kind and an operation.\<close>

definition op_action :: "'s Actions \<Rightarrow> Op \<Rightarrow> Arg \<Rightarrow> 's \<Rightarrow> 's \<times> Arg result" where
  "op_action a op = (if op = Create then act_Create a else if op = Update then act_Update a else act_Delete a)"

lemma Registry_Do_known:
  assumes "Registry_Get r kind = Ok a" and "op \<in> {Create, Update, Delete}"
  shows "Registry_Do r kind op arg s =
    (fst (op_action a op arg s), wrap_err (Op_name op @ '' failed'') (snd (op_action a op arg s)))"
  using assms by (auto simp: Registry_Do_def op_action_def op_defs split: prod.splits)

lemma Registry_Do_unknown:
  assumes "Op_name op \<notin> {''Create'', ''Update'', ''Delete''} \<or> \<not> is_Ok (Registry_Get r kind)"
  shows "fst (Registry_Do r kind op arg s) = s \<and> \<not> is_Ok (snd (Registry_Do r kind op arg s))"
  using assms by (auto simp: Registry_Do_def op_defs split: result.splits)

text \<open>
  Once an action is registered for a kind, \<open>Get\<close> returns it for that kind, every other kind keeps
  its answer, and a second registration of the kind is refused.
\<close>

theorem Register_then_Get:
  assumes "Register r kind a = Ok r'"
  shows "Registry_Get r' kind = Ok a \<and> (\<forall>k. k \<noteq> kind \<longrightarrow> Registry_Get r' k = Registry_Get r k) \<and>
    \<not> is_Ok (Register r' kind b)"
  using assms by (cases rule: Register_cases [of kind r a]) (auto simp: Registry_Get_def Register_def Let_def typesMap_def)

theorem Register_then_Get_witness:
  "let r = \<lparr>types = Some [''api'' \<mapsto> bindRawAction ref_client]\<rparr> in
    Register empty_Registry ''api'' (bindRawAction ref_client) = Ok r \<and>
    Registry_Get r ''api'' = Ok (bindRawAction (ref_client)) \<and> Registry_Get r ''bind'' = Registry_Get empty_Registry ''bind'' \<and>
    \<not> is_Ok (Register r ''api'' (bindRawAction ref_client))"
proof -
  have "Register empty_Registry ''api'' (bindRawAction ref_client) = Ok \<lparr>types = Some [''api'' \<mapsto> bindRawAction ref_client]\<rparr>"
    by (simp add: Register_def Let_def empty_Registry_def typesMap_def)
  with Register_then_Get [OF this, of "bindRawAction ref_client"] show ?thesis by simp
qed

text \<open>
  \<open>Registry.Delete\<close> of the registry that talks to the gateway panics for every kind and every list
  of arguments, with no request sent: it hands its variadic slice to the action as one argument, and
  the action expects an event.
\<close>

theorem Registry_Delete_panics:
  assumes "NewRawRegistry cl = Ok r" and "kind \<in> {''api'', ''cluster'', ''routing'', ''server'', ''bind''}"
  shows "\<exists>m. Registry_Delete r kind args g = (g, Panic m)"
  using assms
  by (auto simp: NewRawRegistry_ok Registry_Delete_def with_actions_def Registry_Get_def kinds5_cases
    apiRawAction_def clusterRawAction_def routingRawAction_def serverRawAction_def rawAction_def
    rawAction_Delete_def bindRawAction_def bindRawAction_Delete_def event_entity_def eventFromArg_def)

theorem Registry_Delete_panics_witness:
  "\<exists>r. NewRawRegistry ref_client = Ok r \<and> (\<exists>m. Registry_Delete r ''api'' [ANil] [] = ([], Panic m))"
  using Registry_Delete_panics [of ref_client _ "''api''" "[ANil]" "[]"] NewRawRegistry_ok [of ref_client] by auto

end
