(* ===== verification/Post_Laws.thy ===== *)
theory Post_Laws
  imports Crud
begin

text \<open>
  What the post actions do to the contents of the state, for the five kinds at once. The content of a
  row is its message; a message has a table, a key (the printed ID, or the two IDs of a bind), a name
  and an identifier. A coherent set of tags (table, key, name) is one in which keys and names
  determine each other and no name is a key: the situation \<open>setTargetsIDs\<close> establishes between the
  configuration of the gateway and the one derived from Kubernetes. Inside such a set, looking up an
  identifier is looking up a key, and the post actions create, replace and remove exactly one row.
\<close>

section \<open>Messages\<close>

fun obj_msg :: "obj \<Rightarrow> wire" where
  "obj_msg (PAPI a) = WAPI (sAPI a)"
| "obj_msg (PBind b) = WBind (sBind b)"
| "obj_msg (PCluster c) = WCluster (sCluster c)"
| "obj_msg (PRouting r) = WRouting (sRouting r)"
| "obj_msg (PServer s) = WServer (sServer s)"

fun msg_table :: "wire \<Rightarrow> string" where
  "msg_table (WAPI _) = ''api''"
| "msg_table (WBind _) = ''bind''"
| "msg_table (WCluster _) = ''cluster''"
| "msg_table (WRouting _) = ''routing''"
| "msg_table (WServer _) = ''server''"

fun msg_name :: "wire \<Rightarrow> string" where
  "msg_name (WAPI m) = API_Name m"
| "msg_name (WBind m) = []"
| "msg_name (WCluster m) = Cluster_Name m"
| "msg_name (WRouting m) = Routing_Name m"
| "msg_name (WServer m) = Server_Addr m"

fun msg_key :: "wire \<Rightarrow> string" where
  "msg_key (WAPI m) = id2Str (API_ID m)"
| "msg_key (WBind m) = bind_key m"
| "msg_key (WCluster m) = id2Str (Cluster_ID m)"
| "msg_key (WRouting m) = id2Str (Routing_ID m)"
| "msg_key (WServer m) = id2Str (Server_ID m)"

definition usable_ID :: "uint64 \<Rightarrow> bool" where
  "usable_ID i \<longleftrightarrow> i \<noteq> 0 \<and> uint i < 2 ^ 63"

fun msg_valid :: "wire \<Rightarrow> bool" where
  "msg_valid (WAPI m) = usable_ID (API_ID m)"
| "msg_valid (WBind m) = (Bind_ClusterID m \<noteq> 0 \<and> Bind_ServerID m \<noteq> 0)"
| "msg_valid (WCluster m) = usable_ID (Cluster_ID m)"
| "msg_valid (WRouting m) = usable_ID (Routing_ID m)"
| "msg_valid (WServer m) = usable_ID (Server_ID m)"

definition msg_ident :: "wire \<Rightarrow> string" where
  "msg_ident m = (if msg_name m \<noteq> [] then msg_name m else msg_key m)"

text \<open>The comparison of the diff on messages.\<close>

fun msg_same :: "wire \<Rightarrow> wire \<Rightarrow> bool" where
  "msg_same (WAPI m) (WAPI n) = (strip_API m = strip_API n)"
| "msg_same (WServer m) (WServer n) =
     (m\<lparr>Server_XXX_unrecognized := []\<rparr> = n\<lparr>Server_XXX_unrecognized := []\<rparr>)"
| "msg_same m n = (m = n)"

lemma msg_same_refl [simp]: "msg_same m m"
  by (cases m) auto

lemma msg_table_obj [simp]: "msg_table (obj_msg x) = obj_table x"
  by (cases x) auto

lemma msg_name_obj [simp]: "msg_name (obj_msg x) = obj_name x"
  by (cases x) auto

lemma msg_valid_key: "msg_valid m \<Longrightarrow> msg_key m \<noteq> []"
  by (cases m) (auto simp: usable_ID_def)

section \<open>Coherent tags\<close>

type_synonym tag = "string \<times> string \<times> string"

definition msg_tag :: "wire \<Rightarrow> tag" where
  "msg_tag m = (msg_table m, msg_key m, msg_name m)"

definition coherent :: "tag set \<Rightarrow> bool" where
  "coherent U \<longleftrightarrow> (\<forall>(t, k, n)\<in>U. \<forall>(t', k', n')\<in>U. t = t' \<longrightarrow>
     (k = k' \<longrightarrow> n = n') \<and> (n = n' \<and> n \<noteq> [] \<longrightarrow> k = k') \<and> n \<noteq> k')"

lemma coherentD:
  assumes "coherent U" and "(t, k, n) \<in> U" and "(t, k', n') \<in> U"
  shows "(k = k' \<longrightarrow> n = n') \<and> (n = n' \<and> n \<noteq> [] \<longrightarrow> k = k') \<and> n \<noteq> k'"
  using assms unfolding coherent_def by fast

text \<open>Rows filed under the key of their message, with tags of the set.\<close>

definition filed :: "tag set \<Rightarrow> (string \<Rightarrow> string \<rightharpoonup> obj) \<Rightarrow> bool" where
  "filed U R \<longleftrightarrow> (\<forall>t k x. R t k = Some x \<longrightarrow>
     obj_table x = t \<and> msg_key (obj_msg x) = k \<and> msg_valid (obj_msg x) \<and> msg_tag (obj_msg x) \<in> U)"

lemma filedD:
  assumes "filed U R" and "R t k = Some x"
  shows "obj_table x = t" and "msg_key (obj_msg x) = k" and "msg_valid (obj_msg x)" and "(t, k, obj_name x) \<in> U"
  using assms unfolding filed_def by (auto simp: msg_tag_def)

lemma filed_upd:
  assumes "filed U R" and "msg_valid (obj_msg x)" and "msg_tag (obj_msg x) \<in> U"
  shows "filed U (R(obj_table x := (R (obj_table x))(msg_key (obj_msg x) \<mapsto> x)))"
  using assms unfolding filed_def by auto

lemma filed_del: "filed U R \<Longrightarrow> filed U (R(t := (R t)(k := None)))"
  unfolding filed_def by auto

section \<open>Lookups in a coherent state\<close>

context manba_db
begin

lemma names_tag:
  assumes "coherent U" "filed U (rows db)" "msg_tag m \<in> U" "t = msg_table m"
  shows "msg_key m \<notin> names (rows db t)"
    and "msg_name m \<in> names (rows db t) \<longleftrightarrow> msg_name m \<noteq> [] \<and> rows db t (msg_key m) \<noteq> None"
proof -
  have U: "(t, msg_key m, msg_name m) \<in> U" using assms by (simp add: msg_tag_def)
  note row = coherentD [OF assms(1) filedD(4) [OF assms(2)] U]
  show "msg_key m \<notin> names (rows db t)"
  proof
    assume "msg_key m \<in> names (rows db t)"
    then obtain x k where "rows db t k = Some x" "obj_name x = msg_key m" by (auto simp: names_def ran_def)
    with row [of k x] show False by simp
  qed
  show "msg_name m \<in> names (rows db t) \<longleftrightarrow> msg_name m \<noteq> [] \<and> rows db t (msg_key m) \<noteq> None"
  proof
    assume "msg_name m \<in> names (rows db t)"
    then obtain x k where "rows db t k = Some x" "obj_name x = msg_name m" "msg_name m \<noteq> []"
      by (auto simp: names_def ran_def)
    with row [of k x] show "msg_name m \<noteq> [] \<and> rows db t (msg_key m) \<noteq> None" by auto
  next
    assume "msg_name m \<noteq> [] \<and> rows db t (msg_key m) \<noteq> None"
    then obtain x where "rows db t (msg_key m) = Some x" "msg_name m \<noteq> []" by auto
    with row [of "msg_key m" x] show "msg_name m \<in> names (rows db t)"
      by (auto simp: names_def ran_def intro!: exI [of _ x])
  qed
qed

lemma found_key:
  assumes "coherent U" "filed U (rows db)" "msg_tag m \<in> U" "t = msg_table m"
  shows "found (rows db t) (msg_key m) = rows db t (msg_key m)"
  using names_tag(1) [OF assms] by (simp add: found_def)

lemma found_ident:
  assumes "good db" "coherent U" "filed U (rows db)" "msg_tag m \<in> U" "t = msg_table m"
  shows "found (rows db t) (msg_ident m) = rows db t (msg_key m)"
proof (cases "msg_name m = []")
  case True
  then show ?thesis using found_key [OF assms(2-5)] by (simp add: msg_ident_def)
next
  case False
  have U: "(t, msg_key m, msg_name m) \<in> U" using assms by (simp add: msg_tag_def)
  show ?thesis
  proof (cases "rows db t (msg_key m)")
    case None
    have "rows db t (msg_name m) = None"
    proof (rule ccontr)
      assume "rows db t (msg_name m) \<noteq> None"
      then obtain x where "rows db t (msg_name m) = Some x" by auto
      with coherentD [OF assms(2) U filedD(4) [OF assms(3)]] show False by blast
    qed
    with None False names_tag(2) [OF assms(2-5)] show ?thesis by (simp add: found_def msg_ident_def)
  next
    case (Some x)
    then have "obj_name x = msg_name m"
      using coherentD [OF assms(2) U filedD(4) [OF assms(3) Some]] by simp
    with found_named [OF assms(1) Some] False Some show ?thesis by (simp add: msg_ident_def)
  qed
qed

end

section \<open>Post actions of the named kinds\<close>

text \<open>What ties a named collection to the messages it stores.\<close>

locale named_kind = named_collection D rows inv C c
  for D :: "('db, obj) memdb" and rows :: "'db \<Rightarrow> string \<Rightarrow> string \<rightharpoonup> obj"
    and inv :: "'db \<Rightarrow> bool" and C :: "'w codecs" and c :: "('e, 'z) named_coll_scheme" +
  assumes key_msg: "msg_key (obj_msg (c_box c e)) = id2Str (c_ID c e)"
    and valid_msg: "msg_valid (obj_msg (c_box c e)) \<longleftrightarrow> usable_ID (c_ID c e)"
    and set_msg: "obj_msg (c_box c (c_set_idStr c s e)) = obj_msg (c_box c e)"
begin

abbreviation emsg :: "'e \<Rightarrow> wire" where
  "emsg e \<equiv> obj_msg (c_box c e)"

lemma post_Create:
  assumes "good db" "coherent U" "filed U (rows db)" "msg_tag (emsg e) \<in> U" "msg_valid (emsg e)"
    and "rows db (c_table c) (msg_key (emsg e)) = None"
  shows "\<exists>db'. post_call (c_unbox c) (Collection_Add c D) (AObj (c_box c e)) db = (db', Ok ANil) \<and> good db' \<and>
    rows db' = (rows db)(c_table c := (rows db (c_table c))(msg_key (emsg e) \<mapsto> c_box c (keyed e)))"
proof -
  have "c_ID c e \<noteq> 0" using assms(5) by (simp add: valid_msg usable_ID_def)
  moreover have "found (rows db (c_table c)) (key e) = None"
    using found_key [OF assms(2-4)] assms(6) by (simp add: key_msg table)
  moreover have "obj_name (c_box c e) \<notin> names (rows db (c_table c))"
    using names_tag(2) [OF assms(2-4)] assms(6) by (simp add: table)
  ultimately show ?thesis
    using Add_ok [OF assms(1), of e] by (auto simp: post_call_def unbox [THEN iffD2] key_msg)
qed

lemma post_Update:
  assumes "good db" "coherent U" "filed U (rows db)" "msg_tag (emsg e) \<in> U" "msg_valid (emsg e)"
    and "rows db (c_table c) (msg_key (emsg e)) = Some x"
  shows "\<exists>db'. post_call (c_unbox c) (Collection_Update c D) (AObj (c_box c e)) db = (db', Ok ANil) \<and> good db' \<and>
    rows db' = (rows db)(c_table c := (rows db (c_table c))(msg_key (emsg e) \<mapsto> c_box c (keyed e)))"
proof -
  have "c_ID c e \<noteq> 0" using assms(5) by (simp add: valid_msg usable_ID_def)
  moreover have "found (rows db (c_table c)) (key e) = Some x"
    using found_key [OF assms(2-4)] assms(6) by (simp add: key_msg table)
  moreover have k: "obj_key x = msg_key (emsg e)" using good_key [OF assms(1,6)] by simp
  moreover have "obj_name (c_box c e) \<notin> names ((rows db (c_table c))(obj_key x := None))"
  proof
    assume "obj_name (c_box c e) \<in> names ((rows db (c_table c))(obj_key x := None))"
    then obtain y k' where "rows db (c_table c) k' = Some y" "k' \<noteq> msg_key (emsg e)"
        "obj_name y = obj_name (c_box c e)" "obj_name y \<noteq> []"
      using k by (auto simp: names_def ran_def split: if_splits)
    moreover have "(c_table c, msg_key (emsg e), obj_name (c_box c e)) \<in> U"
      using assms(4) by (simp add: msg_tag_def table)
    ultimately show False using coherentD [OF assms(2) filedD(4) [OF assms(3)]] by metis
  qed
  ultimately show ?thesis
    using Update_ok [OF assms(1), of e x] by (auto simp: post_call_def unbox [THEN iffD2] key_msg)
qed

lemma post_Delete:
  assumes "good db" "coherent U" "filed U (rows db)" "msg_tag (emsg e) \<in> U"
    and "rows db (c_table c) (msg_key (emsg e)) = Some x"
    and "ident e = msg_ident (emsg e)"
  shows "\<exists>db'. post_call (c_unbox c) (\<lambda>db e. Collection_Delete c D db (ident e)) (AObj (c_box c e)) db = (db', Ok ANil) \<and>
    good db' \<and> rows db' = (rows db)(c_table c := (rows db (c_table c))(msg_key (emsg e) := None))"
proof -
  have "found (rows db (c_table c)) (ident e) = Some x"
    using found_ident [OF assms(1-4)] assms(5,6) by (simp add: table)
  moreover have k: "obj_key x = msg_key (emsg e)" using good_key [OF assms(1,5)] by simp
  moreover have "ident e \<noteq> []"
    using assms(6) good_key [OF assms(1,5)] by (auto simp: msg_ident_def)
  ultimately show ?thesis
    using delete_some [OF assms(1), of "ident e" x] by (auto simp: post_call_def Collection_Delete_def unbox [THEN iffD2])
qed

end

sublocale manba_db \<subseteq> api_kind: named_kind D rows inv C "api_coll C"
  by unfold_locales (simp_all add: api_coll_def)

sublocale manba_db \<subseteq> cluster_kind: named_kind D rows inv C "cluster_coll C"
  by unfold_locales (simp_all add: cluster_coll_def)

sublocale manba_db \<subseteq> routing_kind: named_kind D rows inv C "routing_coll C"
  by unfold_locales (simp_all add: routing_coll_def)

sublocale manba_db \<subseteq> server_kind: named_kind D rows inv C "server_coll C"
  by unfold_locales (simp_all add: server_coll_def)

section \<open>Identifiers\<close>

fun obj_ident :: "obj \<Rightarrow> string" where
  "obj_ident (PAPI a) = API_Identifier a"
| "obj_ident (PBind b) = Bind_Identifier b"
| "obj_ident (PCluster c) = Cluster_Identifier c"
| "obj_ident (PRouting r) = Routing_Identifier r"
| "obj_ident (PServer s) = Server_Identifier s"

text \<open>The key of a bind is empty until the collection sets it.\<close>

fun key_ok :: "obj \<Rightarrow> bool" where
  "key_ok (PBind b) = (sBind_id b = [] \<or> sBind_id b = bind_key (sBind b))"
| "key_ok _ = True"

lemma usable_ID_key: "usable_ID i \<Longrightarrow> print_ID i = id2Str i"
  using id2Str_print_ID [of i] of_nat_less_iff [of "unat i" "2 ^ 63", where 'a = int] by (simp add: usable_ID_def)

lemma obj_ident_msg: "msg_valid (obj_msg x) \<Longrightarrow> key_ok x \<Longrightarrow> obj_ident x = msg_ident (obj_msg x)"
  by (cases x) (auto simp: msg_ident_def usable_ID_key Bind_Identifier_def
    API_Identifier_def Cluster_Identifier_def Routing_Identifier_def Server_Identifier_def)

section \<open>The post registry\<close>

definition contents :: "(string \<Rightarrow> string \<rightharpoonup> obj) \<Rightarrow> string \<Rightarrow> string \<rightharpoonup> wire" where
  "contents R t k = map_option obj_msg (R t k)"

fun obj_action :: "'w codecs \<Rightarrow> ('db, obj) memdb \<Rightarrow> obj \<Rightarrow> 'db Actions" where
  "obj_action C D (PAPI _) = apiPostAction C D"
| "obj_action C D (PBind _) = bindPostAction C D"
| "obj_action C D (PCluster _) = clusterPostAction C D"
| "obj_action C D (PRouting _) = routingPostAction C D"
| "obj_action C D (PServer _) = serverPostAction C D"

lemma Registry_Get_post: "NewPostProcess C D = Ok r \<Longrightarrow> Registry_Get r (obj_table x) = Ok (obj_action C D x)"
  by (cases x) (auto simp: NewPostProcess_ok Registry_Get_def kinds5_cases)

lemmas post_action_defs = apiPostAction_def clusterPostAction_def routingPostAction_def
  serverPostAction_def bindPostAction_def

lemmas collection_op_defs = APICollection_Add_def APICollection_Update_def APICollection_Delete_def
  ClusterCollection_Add_def ClusterCollection_Update_def ClusterCollection_Delete_def
  RoutingCollection_Add_def RoutingCollection_Update_def RoutingCollection_Delete_def
  ServerCollection_Add_def ServerCollection_Update_def ServerCollection_Delete_def
  BindCollection_Delete_def

text \<open>The row a post action leaves: the object of the event under its key.\<close>

fun rekey :: "obj \<Rightarrow> obj" where
  "rekey (PAPI a) = PAPI (a\<lparr>sAPI_idStr := id2Str (API_ID (sAPI a))\<rparr>)"
| "rekey (PBind b) = PBind (b\<lparr>sBind_id := bind_key (sBind b)\<rparr>)"
| "rekey (PCluster c) = PCluster (c\<lparr>sCluster_idStr := id2Str (Cluster_ID (sCluster c))\<rparr>)"
| "rekey (PRouting r) = PRouting (r\<lparr>sRouting_idStr := id2Str (Routing_ID (sRouting r))\<rparr>)"
| "rekey (PServer s) = PServer (s\<lparr>sServer_idStr := id2Str (Server_ID (sServer s))\<rparr>)"

lemma rekey_simps [simp]: "obj_msg (rekey x) = obj_msg x" "obj_table (rekey x) = obj_table x"
  by (cases x; simp)+

context manba_db
begin

lemma obj_Create:
  assumes "good db" "coherent U" "filed U (rows db)" "msg_tag (obj_msg x) \<in> U" "msg_valid (obj_msg x)"
    and "rows db (obj_table x) (msg_key (obj_msg x)) = None"
  shows "\<exists>db'. act_Create (obj_action C D x) (AObj x) db = (db', Ok ANil) \<and> good db' \<and>
    rows db' = (rows db)(obj_table x := (rows db (obj_table x))(msg_key (obj_msg x) \<mapsto> rekey x))"
proof (cases x)
  case (PAPI a)
  with assms api_kind.post_Create [OF assms(1-3), of a] show ?thesis by (simp add: post_action_defs collection_op_defs)
next
  case (PBind b)
  with assms Bind_Add_ok [OF assms(1), of b] show ?thesis
    by (auto simp: post_action_defs post_call_def binds.unbox [THEN iffD2])
next
  case (PCluster a)
  with assms cluster_kind.post_Create [OF assms(1-3), of a] show ?thesis by (simp add: post_action_defs collection_op_defs)
next
  case (PRouting a)
  with assms routing_kind.post_Create [OF assms(1-3), of a] show ?thesis by (simp add: post_action_defs collection_op_defs)
next
  case (PServer a)
  with assms server_kind.post_Create [OF assms(1-3), of a] show ?thesis by (simp add: post_action_defs collection_op_defs)
qed

text \<open>A bind without its key cannot be updated.\<close>

lemma obj_Update:
  assumes "good db" "coherent U" "filed U (rows db)" "msg_tag (obj_msg x) \<in> U" "msg_valid (obj_msg x)" "key_ok x"
    and "rows db (obj_table x) (msg_key (obj_msg x)) = Some y"
  shows "if obj_table x = ''bind'' \<and> obj_key x = [] then act_Update (obj_action C D x) (AObj x) db = (db, Err errIDRequired)
    else \<exists>db'. act_Update (obj_action C D x) (AObj x) db = (db', Ok ANil) \<and> good db' \<and>
      rows db' = (rows db)(obj_table x := (rows db (obj_table x))(msg_key (obj_msg x) \<mapsto> rekey x))"
proof (cases x)
  case (PAPI a)
  with assms api_kind.post_Update [OF assms(1-3), of a] show ?thesis by (simp add: post_action_defs collection_op_defs)
next
  case (PBind b)
  show ?thesis
  proof (cases "sBind_id b = []")
    case True
    with PBind show ?thesis
      by (simp add: post_action_defs post_call_def binds.unbox [THEN iffD2] BindCollection_Update_def)
  next
    case False
    with PBind assms(6) have "sBind_id b = bind_key (sBind b)" by simp
    moreover from this have "rekey x = PBind b" using PBind by (cases b) simp
    ultimately show ?thesis
      using PBind assms Bind_Update_ok [OF assms(1), of b] False
      by (auto simp: post_action_defs post_call_def binds.unbox [THEN iffD2] simp del: rekey.simps)
  qed
next
  case (PCluster a)
  with assms cluster_kind.post_Update [OF assms(1-3), of a] show ?thesis by (simp add: post_action_defs collection_op_defs)
next
  case (PRouting a)
  with assms routing_kind.post_Update [OF assms(1-3), of a] show ?thesis by (simp add: post_action_defs collection_op_defs)
next
  case (PServer a)
  with assms server_kind.post_Update [OF assms(1-3), of a] show ?thesis by (simp add: post_action_defs collection_op_defs)
qed

lemma obj_Delete:
  assumes "good db" "coherent U" "filed U (rows db)" "msg_tag (obj_msg x) \<in> U" "msg_valid (obj_msg x)" "key_ok x"
    and "rows db (obj_table x) (msg_key (obj_msg x)) = Some y"
  shows "\<exists>db'. act_Delete (obj_action C D x) (AObj x) db = (db', Ok ANil) \<and> good db' \<and>
    rows db' = (rows db)(obj_table x := (rows db (obj_table x))(msg_key (obj_msg x) := None))"
proof -
  note id = obj_ident_msg [OF assms(5,6)]
  show ?thesis
  proof (cases x)
    case (PAPI a)
    with assms id api_kind.post_Delete [OF assms(1-3), of a y API_Identifier] show ?thesis
      by (simp add: post_action_defs collection_op_defs)
  next
    case (PBind b)
    have k: "Bind_Identifier b = bind_key (sBind b)" using PBind id by (simp add: msg_ident_def)
    have "found (rows db (c_table (bind_coll C))) (bind_key (sBind b)) = Some y"
      using PBind assms(1,7) found_bind by simp
    moreover have "obj_key y = bind_key (sBind b)" using good_key [OF assms(1,7)] PBind by simp
    ultimately show ?thesis
      using binds.delete_some [OF assms(1), of "bind_key (sBind b)" y] PBind k
      by (auto simp: post_action_defs post_call_def binds.unbox [THEN iffD2] collection_op_defs Collection_Delete_def)
  next
    case (PCluster a)
    with assms id cluster_kind.post_Delete [OF assms(1-3), of a y Cluster_Identifier] show ?thesis
      by (simp add: post_action_defs collection_op_defs)
  next
    case (PRouting a)
    with assms id routing_kind.post_Delete [OF assms(1-3), of a y Routing_Identifier] show ?thesis
      by (simp add: post_action_defs collection_op_defs)
  next
    case (PServer a)
    with assms id server_kind.post_Delete [OF assms(1-3), of a y Server_Identifier] show ?thesis
      by (simp add: post_action_defs collection_op_defs)
  qed
qed

text \<open>
  One law for the three operations on the five kinds: in a coherent state a post action succeeds, keeps
  the state good and coherent, and changes the content of one key.
\<close>

lemma post_spec:
  assumes r: "NewPostProcess C D = Ok r" and db: "good db" "coherent U" "filed U (rows db)"
    and x: "msg_tag (obj_msg x) \<in> U" "msg_valid (obj_msg x)" "key_ok x" and op: "op \<in> {Create, Update, Delete}"
    and pre: "contents (rows db) (obj_table x) (msg_key (obj_msg x)) = None \<longleftrightarrow> op = Create"
    and bind: "op = Update \<Longrightarrow> obj_table x \<noteq> ''bind'' \<or> obj_key x \<noteq> []"
  shows "\<exists>db'. Registry_Do r (obj_table x) op (AObj x) db = (db', Ok ANil) \<and> good db' \<and> filed U (rows db') \<and>
    contents (rows db') = (contents (rows db))(obj_table x := (contents (rows db) (obj_table x))
      (msg_key (obj_msg x) := (if op = Delete then None else Some (obj_msg x))))"
proof -
  let ?t = "obj_table x" and ?k = "msg_key (obj_msg x)"
  have do: "Registry_Do r ?t op (AObj x) db = (fst (op_action (obj_action C D x) op (AObj x) db),
      wrap_err (Op_name op @ '' failed'') (snd (op_action (obj_action C D x) op (AObj x) db)))"
    by (rule Registry_Do_known [OF Registry_Get_post [OF r] op])
  have ne: "Create \<noteq> Update" "Create \<noteq> Delete" "Update \<noteq> Delete" by (simp_all add: op_defs)
  have "\<exists>db'. op_action (obj_action C D x) op (AObj x) db = (db', Ok ANil) \<and> good db' \<and>
      rows db' = (rows db)(?t := (rows db ?t)(?k := (if op = Delete then None else Some (rekey x))))"
  proof (cases "op = Create")
    case True
    with pre have "rows db ?t ?k = None" by (simp add: contents_def)
    with obj_Create [OF db x(1,2)] True ne show ?thesis by (simp add: op_action_def)
  next
    case False
    with pre obtain y where y: "rows db ?t ?k = Some y" by (auto simp: contents_def)
    show ?thesis
    proof (cases "op = Update")
      case True
      with obj_Update [OF db x y] bind ne show ?thesis by (auto simp: op_action_def split: if_splits)
    next
      case False
      with \<open>op \<noteq> Create\<close> op ne obj_Delete [OF db x y] show ?thesis by (auto simp: op_action_def)
    qed
  qed
  then obtain db' where db': "op_action (obj_action C D x) op (AObj x) db = (db', Ok ANil)" "good db'"
      "rows db' = (rows db)(?t := (rows db ?t)(?k := (if op = Delete then None else Some (rekey x))))" by blast
  have "filed U (rows db')"
    using filed_del [OF db(3), of ?t ?k] filed_upd [OF db(3), of "rekey x"] x unfolding db'(3) by auto
  moreover have "contents (rows db') = (contents (rows db))(?t := (contents (rows db) ?t)
      (?k := (if op = Delete then None else Some (obj_msg x))))"
    by (auto simp: db'(3) contents_def fun_eq_iff)
  ultimately show ?thesis using do db' by auto
qed

end

end
