(* ===== verification/Diff.thy ===== *)
theory Diff
  imports Post_Laws
begin

text \<open>
  The diff of the syncer (\<open>pkg/manba/diff/api.go\<close>, \<open>bind.go\<close>, \<open>cluster.go\<close>, \<open>routing.go\<close>, \<open>server.go\<close>):
  for every kind, the loop over the entities of the target state that creates or updates, the loop
  over the entities of the current state that deletes, and the event each entity gives rise to. The
  five files are the same code over different types, so an event is computed by one function over a
  record of what the kind contributes, and the functions of the source are its instances.

  Shown here: in a coherent pair of states the event of an entity is decided by the contents of its
  key alone, the lookups cannot fail, and two states with the same contents give no event at all.
\<close>

section \<open>The events of an entity\<close>

record ('db, 'e) diffkind =
  dk_kind :: Kind
  dk_plural :: string
  dk_GetAll :: "'db \<Rightarrow> 'e list result"
  dk_Get :: "'db \<Rightarrow> string \<Rightarrow> 'e result"
  dk_Identifier :: "'e \<Rightarrow> string"
  dk_new :: "'e \<Rightarrow> 'e"
  dk_Compare :: "'e \<Rightarrow> 'e \<Rightarrow> bool"
  dk_box :: "'e \<Rightarrow> obj"

text \<open>\<open>errors.Wrapf(err, "looking up api '%s'", api.Identifier())\<close>.\<close>

definition looking_up :: "Kind \<Rightarrow> string \<Rightarrow> string" where
  "looking_up kind i = ''looking up '' @ kind @ '' '' @ [CHR 0x27] @ i @ [CHR 0x27]"

text \<open>\<open>deleteAPI\<close> and its siblings: an event when the target state has no entity of that identifier.\<close>

definition delete_event :: "('db, 'e) diffkind \<Rightarrow> 'db \<Rightarrow> 'e \<Rightarrow> Event option result" where
  "delete_event k target e =
     (case dk_Get k target (dk_Identifier k e) of
        Ok _ \<Rightarrow> Ok None
      | Err err \<Rightarrow>
          if err = ErrNotFound then
            Ok (Some \<lparr>Ev_Op = Delete, Ev_Kind = dk_kind k, Ev_Obj = dk_box k e, Ev_OldObj = None\<rparr>)
          else Err (Wrap (looking_up (dk_kind k) (dk_Identifier k e)) err)
      | Panic m \<Rightarrow> Panic m)"

text \<open>\<open>createUpdateAPI\<close> and its siblings, on a renewed copy of the entity.\<close>

definition createUpdate_event :: "('db, 'e) diffkind \<Rightarrow> 'db \<Rightarrow> 'e \<Rightarrow> Event option result" where
  "createUpdate_event k current e =
     (let new = dk_new k e in
      case dk_Get k current (dk_Identifier k new) of
        Err err \<Rightarrow>
          if err = ErrNotFound then
            Ok (Some \<lparr>Ev_Op = Create, Ev_Kind = dk_kind k, Ev_Obj = dk_box k new, Ev_OldObj = None\<rparr>)
          else Err (Wrap (looking_up (dk_kind k) (dk_Identifier k new)) err)
      | Panic m \<Rightarrow> Panic m
      | Ok cur \<Rightarrow>
          if \<not> dk_Compare k cur new then
            Ok (Some \<lparr>Ev_Op = Update, Ev_Kind = dk_kind k, Ev_Obj = dk_box k new, Ev_OldObj = Some (dk_box k cur)\<rparr>)
          else Ok None)"

section \<open>The five kinds\<close>

definition api_diff :: "'w codecs \<Rightarrow> ('db, obj) memdb \<Rightarrow> ('db, state_API) diffkind" where
  "api_diff C D = \<lparr>dk_kind = ''api'', dk_plural = ''apis'', dk_GetAll = APICollection_GetAll C D,
     dk_Get = APICollection_Get C D, dk_Identifier = API_Identifier,
     dk_new = (\<lambda>a. new_API (sAPI (API_DeepCopy C a))), dk_Compare = CompareAPI C, dk_box = PAPI\<rparr>"

definition cluster_diff :: "'w codecs \<Rightarrow> ('db, obj) memdb \<Rightarrow> ('db, state_Cluster) diffkind" where
  "cluster_diff C D = \<lparr>dk_kind = ''cluster'', dk_plural = ''clusters'', dk_GetAll = ClusterCollection_GetAll C D,
     dk_Get = ClusterCollection_Get C D, dk_Identifier = Cluster_Identifier,
     dk_new = (\<lambda>a. new_Cluster (sCluster (Cluster_DeepCopy C a))), dk_Compare = CompareCluster C, dk_box = PCluster\<rparr>"

definition routing_diff :: "'w codecs \<Rightarrow> ('db, obj) memdb \<Rightarrow> ('db, state_Routing) diffkind" where
  "routing_diff C D = \<lparr>dk_kind = ''routing'', dk_plural = ''routings'', dk_GetAll = RoutingCollection_GetAll C D,
     dk_Get = RoutingCollection_Get C D, dk_Identifier = Routing_Identifier,
     dk_new = (\<lambda>a. new_Routing (sRouting (Routing_DeepCopy C a))), dk_Compare = CompareRouting C, dk_box = PRouting\<rparr>"

definition bind_diff :: "'w codecs \<Rightarrow> ('db, obj) memdb \<Rightarrow> ('db, state_Bind) diffkind" where
  "bind_diff C D = \<lparr>dk_kind = ''bind'', dk_plural = ''binds'', dk_GetAll = BindCollection_GetAll C D,
     dk_Get = BindCollection_Get C D, dk_Identifier = Bind_Identifier,
     dk_new = (\<lambda>a. new_Bind (sBind (Bind_DeepCopy C a))), dk_Compare = CompareBind C, dk_box = PBind\<rparr>"

text \<open>A server is renewed by its deep copy alone, which keeps key and metadata.\<close>

definition server_diff :: "'w codecs \<Rightarrow> ('db, obj) memdb \<Rightarrow> ('db, state_Server) diffkind" where
  "server_diff C D = \<lparr>dk_kind = ''server'', dk_plural = ''servers'', dk_GetAll = ServerCollection_GetAll C D,
     dk_Get = ServerCollection_Get C D, dk_Identifier = Server_Identifier,
     dk_new = Server_DeepCopy C, dk_Compare = CompareServer C, dk_box = PServer\<rparr>"

lemmas diffkind_defs = api_diff_def cluster_diff_def routing_diff_def bind_diff_def server_diff_def

section \<open>The functions of the source\<close>

definition Syncer_deleteAPI :: "'w codecs \<Rightarrow> ('db, obj) memdb \<Rightarrow> 'db \<Rightarrow> state_API \<Rightarrow> Event option result" where
  "Syncer_deleteAPI C D = delete_event (api_diff C D)"
definition Syncer_createUpdateAPI :: "'w codecs \<Rightarrow> ('db, obj) memdb \<Rightarrow> 'db \<Rightarrow> state_API \<Rightarrow> Event option result" where
  "Syncer_createUpdateAPI C D = createUpdate_event (api_diff C D)"
definition Syncer_deleteBind :: "'w codecs \<Rightarrow> ('db, obj) memdb \<Rightarrow> 'db \<Rightarrow> state_Bind \<Rightarrow> Event option result" where
  "Syncer_deleteBind C D = delete_event (bind_diff C D)"
definition Syncer_createUpdateBind :: "'w codecs \<Rightarrow> ('db, obj) memdb \<Rightarrow> 'db \<Rightarrow> state_Bind \<Rightarrow> Event option result" where
  "Syncer_createUpdateBind C D = createUpdate_event (bind_diff C D)"
definition Syncer_deleteCluster :: "'w codecs \<Rightarrow> ('db, obj) memdb \<Rightarrow> 'db \<Rightarrow> state_Cluster \<Rightarrow> Event option result" where
  "Syncer_deleteCluster C D = delete_event (cluster_diff C D)"
definition Syncer_createUpdateCluster :: "'w codecs \<Rightarrow> ('db, obj) memdb \<Rightarrow> 'db \<Rightarrow> state_Cluster \<Rightarrow> Event option result" where
  "Syncer_createUpdateCluster C D = createUpdate_event (cluster_diff C D)"
definition Syncer_deleteRouting :: "'w codecs \<Rightarrow> ('db, obj) memdb \<Rightarrow> 'db \<Rightarrow> state_Routing \<Rightarrow> Event option result" where
  "Syncer_deleteRouting C D = delete_event (routing_diff C D)"
definition Syncer_createUpdateRouting :: "'w codecs \<Rightarrow> ('db, obj) memdb \<Rightarrow> 'db \<Rightarrow> state_Routing \<Rightarrow> Event option result" where
  "Syncer_createUpdateRouting C D = createUpdate_event (routing_diff C D)"
definition Syncer_deleteServer :: "'w codecs \<Rightarrow> ('db, obj) memdb \<Rightarrow> 'db \<Rightarrow> state_Server \<Rightarrow> Event option result" where
  "Syncer_deleteServer C D = delete_event (server_diff C D)"
definition Syncer_createUpdateServer :: "'w codecs \<Rightarrow> ('db, obj) memdb \<Rightarrow> 'db \<Rightarrow> state_Server \<Rightarrow> Event option result" where
  "Syncer_createUpdateServer C D = createUpdate_event (server_diff C D)"

text \<open>
  A loop fetches the entities of its state and handles them one by one, queueing each event before it
  looks at the next entity: \<open>lp_fetch\<close> is the fetch and \<open>lp_event\<close> one iteration up to the queueing,
  both on the current and the target state.
\<close>

record 'db loop =
  lp_fetch :: "'db \<Rightarrow> 'db \<Rightarrow> obj list result"
  lp_event :: "'db \<Rightarrow> 'db \<Rightarrow> obj \<Rightarrow> Event option result"

definition loop_fetch :: "('db, 'e) diffkind \<Rightarrow> 'db \<Rightarrow> obj list result" where
  "loop_fetch k db =
     rbind (wrap_err (''fetching '' @ dk_plural k @ '' from state'') (dk_GetAll k db)) (\<lambda>es. Ok (map (dk_box k) es))"

definition typed :: "('db, 'e) diffkind \<Rightarrow> (obj \<Rightarrow> 'e option) \<Rightarrow> ('e \<Rightarrow> Event option result) \<Rightarrow> obj \<Rightarrow> Event option result" where
  "typed k unbox f x = (case unbox x of None \<Rightarrow> Panic unexpectedType | Some e \<Rightarrow> f e)"

definition deleteAPIs :: "'w codecs \<Rightarrow> ('db, obj) memdb \<Rightarrow> 'db loop" where
  "deleteAPIs C D = \<lparr>lp_fetch = (\<lambda>current target. loop_fetch (api_diff C D) current),
     lp_event = (\<lambda>current target. typed (api_diff C D) (c_unbox (api_coll C)) (Syncer_deleteAPI C D target))\<rparr>"
definition createUpdateAPIs :: "'w codecs \<Rightarrow> ('db, obj) memdb \<Rightarrow> 'db loop" where
  "createUpdateAPIs C D = \<lparr>lp_fetch = (\<lambda>current target. loop_fetch (api_diff C D) target),
     lp_event = (\<lambda>current target. typed (api_diff C D) (c_unbox (api_coll C)) (Syncer_createUpdateAPI C D current))\<rparr>"
definition deleteBinds :: "'w codecs \<Rightarrow> ('db, obj) memdb \<Rightarrow> 'db loop" where
  "deleteBinds C D = \<lparr>lp_fetch = (\<lambda>current target. loop_fetch (bind_diff C D) current),
     lp_event = (\<lambda>current target. typed (bind_diff C D) (c_unbox (bind_coll C)) (Syncer_deleteBind C D target))\<rparr>"
definition createUpdateBinds :: "'w codecs \<Rightarrow> ('db, obj) memdb \<Rightarrow> 'db loop" where
  "createUpdateBinds C D = \<lparr>lp_fetch = (\<lambda>current target. loop_fetch (bind_diff C D) target),
     lp_event = (\<lambda>current target. typed (bind_diff C D) (c_unbox (bind_coll C)) (Syncer_createUpdateBind C D current))\<rparr>"
definition deleteClusters :: "'w codecs \<Rightarrow> ('db, obj) memdb \<Rightarrow> 'db loop" where
  "deleteClusters C D = \<lparr>lp_fetch = (\<lambda>current target. loop_fetch (cluster_diff C D) current),
     lp_event = (\<lambda>current target. typed (cluster_diff C D) (c_unbox (cluster_coll C)) (Syncer_deleteCluster C D target))\<rparr>"
definition createUpdateClusters :: "'w codecs \<Rightarrow> ('db, obj) memdb \<Rightarrow> 'db loop" where
  "createUpdateClusters C D = \<lparr>lp_fetch = (\<lambda>current target. loop_fetch (cluster_diff C D) target),
     lp_event = (\<lambda>current target. typed (cluster_diff C D) (c_unbox (cluster_coll C)) (Syncer_createUpdateCluster C D current))\<rparr>"
definition deleteRoutings :: "'w codecs \<Rightarrow> ('db, obj) memdb \<Rightarrow> 'db loop" where
  "deleteRoutings C D = \<lparr>lp_fetch = (\<lambda>current target. loop_fetch (routing_diff C D) current),
     lp_event = (\<lambda>current target. typed (routing_diff C D) (c_unbox (routing_coll C)) (Syncer_deleteRouting C D target))\<rparr>"
definition createUpdateRoutings :: "'w codecs \<Rightarrow> ('db, obj) memdb \<Rightarrow> 'db loop" where
  "createUpdateRoutings C D = \<lparr>lp_fetch = (\<lambda>current target. loop_fetch (routing_diff C D) target),
     lp_event = (\<lambda>current target. typed (routing_diff C D) (c_unbox (routing_coll C)) (Syncer_createUpdateRouting C D current))\<rparr>"
definition deleteServers :: "'w codecs \<Rightarrow> ('db, obj) memdb \<Rightarrow> 'db loop" where
  "deleteServers C D = \<lparr>lp_fetch = (\<lambda>current target. loop_fetch (server_diff C D) current),
     lp_event = (\<lambda>current target. typed (server_diff C D) (c_unbox (server_coll C)) (Syncer_deleteServer C D target))\<rparr>"
definition createUpdateServers :: "'w codecs \<Rightarrow> ('db, obj) memdb \<Rightarrow> 'db loop" where
  "createUpdateServers C D = \<lparr>lp_fetch = (\<lambda>current target. loop_fetch (server_diff C D) target),
     lp_event = (\<lambda>current target. typed (server_diff C D) (c_unbox (server_coll C)) (Syncer_createUpdateServer C D current))\<rparr>"

text \<open>The ten loops by kind and direction.\<close>

datatype kind = KServer | KCluster | KBind | KAPI | KRouting

fun kind_name :: "kind \<Rightarrow> Kind" where
  "kind_name KServer = ''server''"
| "kind_name KCluster = ''cluster''"
| "kind_name KBind = ''bind''"
| "kind_name KAPI = ''api''"
| "kind_name KRouting = ''routing''"

datatype phase = CreateUpdate kind | Remove kind

fun phase_kind :: "phase \<Rightarrow> kind" where
  "phase_kind (CreateUpdate k) = k"
| "phase_kind (Remove k) = k"

abbreviation phase_table :: "phase \<Rightarrow> string" where
  "phase_table p \<equiv> kind_name (phase_kind p)"

fun phase_loop :: "'w codecs \<Rightarrow> ('db, obj) memdb \<Rightarrow> phase \<Rightarrow> 'db loop" where
  "phase_loop C D (CreateUpdate KServer) = createUpdateServers C D"
| "phase_loop C D (CreateUpdate KCluster) = createUpdateClusters C D"
| "phase_loop C D (CreateUpdate KBind) = createUpdateBinds C D"
| "phase_loop C D (CreateUpdate KAPI) = createUpdateAPIs C D"
| "phase_loop C D (CreateUpdate KRouting) = createUpdateRoutings C D"
| "phase_loop C D (Remove KServer) = deleteServers C D"
| "phase_loop C D (Remove KCluster) = deleteClusters C D"
| "phase_loop C D (Remove KBind) = deleteBinds C D"
| "phase_loop C D (Remove KAPI) = deleteAPIs C D"
| "phase_loop C D (Remove KRouting) = deleteRoutings C D"

definition createUpdateList :: "phase list" where
  "createUpdateList = map CreateUpdate [KServer, KCluster, KBind, KAPI, KRouting]"

definition deleteList :: "phase list" where
  "deleteList = map Remove [KRouting, KAPI, KBind, KCluster, KServer]"

section \<open>Events are decided by contents\<close>

lemma kind_name_inj [simp]: "kind_name a = kind_name b \<longleftrightarrow> a = b"
  by (cases a; cases b) auto

lemma obj_kind: "\<exists>k. obj_table x = kind_name k"
  by (cases x) (auto intro: kind_name.simps [symmetric])

text \<open>What an entity must be for the syncer: tagged, with a usable ID and a proper key.\<close>

definition entity_ok :: "tag set \<Rightarrow> obj \<Rightarrow> bool" where
  "entity_ok U x \<longleftrightarrow> msg_tag (obj_msg x) \<in> U \<and> msg_valid (obj_msg x) \<and> key_ok x"

text \<open>The events that fit a content: create what is missing, update what differs, delete what is extra.\<close>

definition event_for :: "kind \<Rightarrow> wire \<Rightarrow> Event \<Rightarrow> bool" where
  "event_for k m e \<longleftrightarrow> Ev_Kind e = kind_name k \<and> obj_table (Ev_Obj e) = kind_name k \<and>
     obj_msg (Ev_Obj e) = m \<and> key_ok (Ev_Obj e)"

fun createUpdate_ok :: "kind \<Rightarrow> wire option \<Rightarrow> wire \<Rightarrow> Event option \<Rightarrow> bool" where
  "createUpdate_ok k None m v = (\<exists>e. v = Some e \<and> Ev_Op e = Create \<and> event_for k m e)"
| "createUpdate_ok k (Some m') m v =
     (if msg_same m' m then v = None else \<exists>e. v = Some e \<and> Ev_Op e = Update \<and> event_for k m e)"

fun remove_ok :: "kind \<Rightarrow> wire option \<Rightarrow> wire \<Rightarrow> Event option \<Rightarrow> bool" where
  "remove_ok k None m v = (\<exists>e. v = Some e \<and> Ev_Op e = Delete \<and> event_for k m e)"
| "remove_ok k (Some _) m v = (v = None)"

text \<open>What the diff needs of a kind beyond its collection; the laws of the five kinds.\<close>

locale diff_kind = collection D rows inv C c
  for D :: "('db, obj) memdb" and rows :: "'db \<Rightarrow> string \<Rightarrow> string \<rightharpoonup> obj"
    and inv :: "'db \<Rightarrow> bool" and C :: "'w codecs" and c :: "('e, 'z) coll_scheme" +
  fixes k :: "('db, 'e) diffkind" and K :: kind
  assumes dk: "c_table c = kind_name K" "dk_kind k = kind_name K" "dk_GetAll k = Collection_GetAll c D"
      "dk_Get k = Collection_Get c D" "dk_box k = c_box c"
    and dk_ident: "dk_Identifier k e = obj_ident (c_box c e)"
    and fresh_msg: "obj_msg (c_box c (c_fresh c e)) = obj_msg (c_box c e)"
    and fresh_ok: "key_ok (c_box c e) \<Longrightarrow> key_ok (c_box c (c_fresh c e))"
    and new_msg: "obj_msg (c_box c (dk_new k e)) = obj_msg (c_box c e)"
    and new_ok: "key_ok (c_box c e) \<Longrightarrow> key_ok (c_box c (dk_new k e))"
    and compare_msg: "dk_Compare k a b \<longleftrightarrow> msg_same (obj_msg (c_box c a)) (obj_msg (c_box c b))"
begin

lemma Get_content:
  assumes "good db" "coherent U" "filed U (rows db)" "entity_ok U (c_box c e)"
  shows "case contents (rows db) (kind_name K) (msg_key (obj_msg (c_box c e))) of
      None \<Rightarrow> dk_Get k db (dk_Identifier k e) = Err ErrNotFound
    | Some m \<Rightarrow> \<exists>e'. dk_Get k db (dk_Identifier k e) = Ok e' \<and> obj_msg (c_box c e') = m"
proof -
  let ?m = "obj_msg (c_box c e)"
  have tag: "msg_tag ?m \<in> U" "msg_valid ?m" "key_ok (c_box c e)" using assms(4) by (simp_all add: entity_ok_def)
  have id: "dk_Identifier k e = msg_ident ?m" using obj_ident_msg [OF tag(2,3)] by (simp add: dk_ident)
  have ne: "msg_ident ?m \<noteq> []" using msg_valid_key [OF tag(2)] by (simp add: msg_ident_def)
  have f: "found (rows db (c_table c)) (msg_ident ?m) = rows db (c_table c) (msg_key ?m)"
    using found_ident [OF assms(1-3) tag(1)] by (simp add: table)
  show ?thesis
  proof (cases rule: Get_cases [OF assms(1), of "msg_ident ?m"])
    case (3 e')
    with f id show ?thesis by (auto simp: contents_def dk fresh_msg)
  qed (use ne f id in \<open>simp_all add: contents_def dk\<close>)
qed

lemma createUpdate_content:
  assumes "good db" "coherent U" "filed U (rows db)" "entity_ok U (c_box c e)"
  shows "\<exists>o'. createUpdate_event k db e = Ok o' \<and>
    createUpdate_ok K (contents (rows db) (kind_name K) (msg_key (obj_msg (c_box c e)))) (obj_msg (c_box c e)) o'"
proof -
  have "entity_ok U (c_box c (dk_new k e))" using assms(4) new_ok by (simp add: entity_ok_def new_msg)
  note get = Get_content [OF assms(1-3) this, unfolded new_msg]
  have ok: "key_ok (c_box c (dk_new k e))" "obj_table (c_box c (dk_new k e)) = kind_name K"
    using assms(4) new_ok table by (auto simp: entity_ok_def dk)
  show ?thesis
  proof (cases "contents (rows db) (kind_name K) (msg_key (obj_msg (c_box c e)))")
    case None
    with get ok show ?thesis by (simp add: createUpdate_event_def event_for_def dk new_msg)
  next
    case (Some m)
    with get obtain e' where "dk_Get k db (dk_Identifier k (dk_new k e)) = Ok e'" "obj_msg (c_box c e') = m" by auto
    with Some ok show ?thesis
      by (cases "msg_same m (obj_msg (c_box c e))")
        (auto simp: createUpdate_event_def event_for_def dk new_msg compare_msg)
  qed
qed

lemma delete_content:
  assumes "good db" "coherent U" "filed U (rows db)" "entity_ok U (c_box c e)"
  shows "\<exists>o'. delete_event k db e = Ok o' \<and>
    remove_ok K (contents (rows db) (kind_name K) (msg_key (obj_msg (c_box c e)))) (obj_msg (c_box c e)) o'"
  using Get_content [OF assms] assms(4) table
  by (auto simp: delete_event_def event_for_def dk entity_ok_def split: option.splits)

lemma fetch_content:
  assumes "good db" "filed U (rows db)"
  shows "\<exists>xs. loop_fetch k db = Ok xs \<and> (\<forall>x\<in>set xs. entity_ok U x \<and> (\<exists>e. x = c_box c e)) \<and>
    distinct (map (\<lambda>x. msg_key (obj_msg x)) xs) \<and>
    obj_msg ` set xs = ran (contents (rows db) (kind_name K))"
proof -
  obtain es where es: "Collection_GetAll c D db = Ok (map (c_fresh c) es)"
      "set (map (c_box c) es) = ran (rows db (c_table c))" "distinct (map (\<lambda>e. obj_key (c_box c e)) es)"
    using GetAll_ok [OF assms(1)] by blast
  have row: "entity_ok U (c_box c e) \<and> msg_key (obj_msg (c_box c e)) = obj_key (c_box c e)" if e: "e \<in> set es" for e
  proof -
    have "c_box c e \<in> ran (rows db (c_table c))" using es(2) e by auto
    then obtain i where i: "rows db (c_table c) i = Some (c_box c e)" by (auto dest: ranD)
    have ki: "msg_key (obj_msg (c_box c e)) = i" "obj_key (c_box c e) = i"
      using filedD(2) [OF assms(2) i] good_key [OF assms(1) i] by simp_all
    moreover have "key_ok (c_box c e)" using ki by (cases "c_box c e") auto
    ultimately show ?thesis using assms(2) i by (auto simp: entity_ok_def filed_def)
  qed
  have "distinct (map (\<lambda>x. msg_key (obj_msg x)) (map (\<lambda>e. c_box c (c_fresh c e)) es))"
    using es(3) row by (simp add: o_def fresh_msg cong: map_cong)
  moreover have "entity_ok U (c_box c (c_fresh c e))" if "e \<in> set es" for e
    using row [OF that] fresh_ok by (simp add: entity_ok_def fresh_msg)
  moreover have "obj_msg ` set (map (\<lambda>e. c_box c (c_fresh c e)) es) = ran (contents (rows db) (kind_name K))"
  proof -
    have "obj_msg ` set (map (\<lambda>e. c_box c (c_fresh c e)) es) = obj_msg ` ran (rows db (c_table c))"
      unfolding es(2) [symmetric] by (simp add: image_image fresh_msg)
    then show ?thesis by (auto simp: contents_def [abs_def] ran_def dk image_iff)
  qed
  ultimately show ?thesis
    using es(1) by (auto simp: loop_fetch_def dk o_def intro!: exI [of _ "map (\<lambda>e. c_box c (c_fresh c e)) es"])
qed

end

lemma CompareCluster_eq: "CompareCluster C r1 r2 \<longleftrightarrow> sCluster r1 = sCluster r2"
  by (simp add: CompareCluster_def Let_def)
lemma CompareRouting_eq: "CompareRouting C r1 r2 \<longleftrightarrow> sRouting r1 = sRouting r2"
  by (simp add: CompareRouting_def Let_def)
lemma CompareBind_eq: "CompareBind C r1 r2 \<longleftrightarrow> sBind r1 = sBind r2"
  by (simp add: CompareBind_def Let_def)

sublocale manba_db \<subseteq> api_dk: diff_kind D rows inv C "api_coll C" "api_diff C D" KAPI
  by unfold_locales (simp_all add: api_coll_def api_diff_def APICollection_GetAll_def
    APICollection_Get_def new_API_def copy_simps CompareAPI_eq Let_def)

sublocale manba_db \<subseteq> bind_dk: diff_kind D rows inv C "bind_coll C" "bind_diff C D" KBind
  by unfold_locales (simp_all add: bind_coll_def bind_diff_def BindCollection_GetAll_def
    BindCollection_Get_def new_Bind_def copy_simps CompareBind_eq Let_def)

sublocale manba_db \<subseteq> cluster_dk: diff_kind D rows inv C "cluster_coll C" "cluster_diff C D" KCluster
  by unfold_locales (simp_all add: cluster_coll_def cluster_diff_def ClusterCollection_GetAll_def
    ClusterCollection_Get_def new_Cluster_def copy_simps CompareCluster_eq Let_def)

sublocale manba_db \<subseteq> routing_dk: diff_kind D rows inv C "routing_coll C" "routing_diff C D" KRouting
  by unfold_locales (simp_all add: routing_coll_def routing_diff_def RoutingCollection_GetAll_def
    RoutingCollection_Get_def new_Routing_def copy_simps CompareRouting_eq Let_def)

sublocale manba_db \<subseteq> server_dk: diff_kind D rows inv C "server_coll C" "server_diff C D" KServer
  by unfold_locales (simp_all add: server_coll_def server_diff_def ServerCollection_GetAll_def
    ServerCollection_Get_def new_Server_def copy_simps CompareServer_eq Let_def)

lemmas loop_defs = deleteAPIs_def deleteBinds_def deleteClusters_def deleteRoutings_def deleteServers_def
  createUpdateAPIs_def createUpdateBinds_def createUpdateClusters_def createUpdateRoutings_def createUpdateServers_def

lemmas event_defs = Syncer_deleteAPI_def Syncer_deleteBind_def Syncer_deleteCluster_def Syncer_deleteRouting_def
  Syncer_deleteServer_def Syncer_createUpdateAPI_def Syncer_createUpdateBind_def Syncer_createUpdateCluster_def
  Syncer_createUpdateRouting_def Syncer_createUpdateServer_def

fun phase_db :: "phase \<Rightarrow> 'db \<Rightarrow> 'db \<Rightarrow> 'db" where
  "phase_db (CreateUpdate k) current target = target"
| "phase_db (Remove k) current target = current"

context manba_db
begin

text \<open>A loop visits exactly the contents of its state, each once.\<close>

lemma phase_fetch_content:
  assumes "db = phase_db p current target" "good db" "filed U (rows db)"
  shows "\<exists>xs. lp_fetch (phase_loop C D p) current target = Ok xs \<and>
    (\<forall>x\<in>set xs. entity_ok U x \<and> obj_table x = phase_table p) \<and>
    distinct (map (\<lambda>x. msg_key (obj_msg x)) xs) \<and> obj_msg ` set xs = ran (contents (rows db) (phase_table p))"
proof -
  note fetch = api_dk.fetch_content [OF assms(2,3)] bind_dk.fetch_content [OF assms(2,3)]
    cluster_dk.fetch_content [OF assms(2,3)] routing_dk.fetch_content [OF assms(2,3)] server_dk.fetch_content [OF assms(2,3)]
  show ?thesis
  proof (cases p)
    case (CreateUpdate k)
    then show ?thesis using fetch assms(1) by (cases k) (fastforce simp: loop_defs)+
  next
    case (Remove k)
    then show ?thesis using fetch assms(1) by (cases k) (fastforce simp: loop_defs)+
  qed
qed

lemma createUpdate_phase:
  assumes "good current" "coherent U" "filed U (rows current)" "entity_ok U x" "obj_table x = kind_name k"
  shows "\<exists>o'. lp_event (phase_loop C D (CreateUpdate k)) current target x = Ok o' \<and>
    createUpdate_ok k (contents (rows current) (kind_name k) (msg_key (obj_msg x))) (obj_msg x) o'"
proof (cases x)
  case (PAPI e)
  with assms(5) have "k = KAPI" by (cases k) auto
  with PAPI api_dk.createUpdate_content [OF assms(1-3), of e] assms(4) show ?thesis
    by (simp add: loop_defs event_defs typed_def api_coll_def)
next
  case (PBind e)
  with assms(5) have "k = KBind" by (cases k) auto
  with PBind bind_dk.createUpdate_content [OF assms(1-3), of e] assms(4) show ?thesis
    by (simp add: loop_defs event_defs typed_def bind_coll_def)
next
  case (PCluster e)
  with assms(5) have "k = KCluster" by (cases k) auto
  with PCluster cluster_dk.createUpdate_content [OF assms(1-3), of e] assms(4) show ?thesis
    by (simp add: loop_defs event_defs typed_def cluster_coll_def)
next
  case (PRouting e)
  with assms(5) have "k = KRouting" by (cases k) auto
  with PRouting routing_dk.createUpdate_content [OF assms(1-3), of e] assms(4) show ?thesis
    by (simp add: loop_defs event_defs typed_def routing_coll_def)
next
  case (PServer e)
  with assms(5) have "k = KServer" by (cases k) auto
  with PServer server_dk.createUpdate_content [OF assms(1-3), of e] assms(4) show ?thesis
    by (simp add: loop_defs event_defs typed_def server_coll_def)
qed

lemma remove_phase:
  assumes "good target" "coherent U" "filed U (rows target)" "entity_ok U x" "obj_table x = kind_name k"
  shows "\<exists>o'. lp_event (phase_loop C D (Remove k)) current target x = Ok o' \<and>
    remove_ok k (contents (rows target) (kind_name k) (msg_key (obj_msg x))) (obj_msg x) o'"
proof (cases x)
  case (PAPI e)
  with assms(5) have "k = KAPI" by (cases k) auto
  with PAPI api_dk.delete_content [OF assms(1-3), of e] assms(4) show ?thesis
    by (simp add: loop_defs event_defs typed_def api_coll_def)
next
  case (PBind e)
  with assms(5) have "k = KBind" by (cases k) auto
  with PBind bind_dk.delete_content [OF assms(1-3), of e] assms(4) show ?thesis
    by (simp add: loop_defs event_defs typed_def bind_coll_def)
next
  case (PCluster e)
  with assms(5) have "k = KCluster" by (cases k) auto
  with PCluster cluster_dk.delete_content [OF assms(1-3), of e] assms(4) show ?thesis
    by (simp add: loop_defs event_defs typed_def cluster_coll_def)
next
  case (PRouting e)
  with assms(5) have "k = KRouting" by (cases k) auto
  with PRouting routing_dk.delete_content [OF assms(1-3), of e] assms(4) show ?thesis
    by (simp add: loop_defs event_defs typed_def routing_coll_def)
next
  case (PServer e)
  with assms(5) have "k = KServer" by (cases k) auto
  with PServer server_dk.delete_content [OF assms(1-3), of e] assms(4) show ?thesis
    by (simp add: loop_defs event_defs typed_def server_coll_def)
qed

end

section \<open>Silent loops\<close>

text \<open>The contents the syncer aims at: the same keys, and messages the comparison takes for equal.\<close>

definition same_contents :: "(string \<Rightarrow> string \<rightharpoonup> wire) \<Rightarrow> (string \<Rightarrow> string \<rightharpoonup> wire) \<Rightarrow> bool" where
  "same_contents A B \<longleftrightarrow> (\<forall>k i. rel_option msg_same (A (kind_name k) i) (B (kind_name k) i))"

definition loop_silent :: "'db loop \<Rightarrow> 'db \<Rightarrow> 'db \<Rightarrow> bool" where
  "loop_silent l current target =
     (case lp_fetch l current target of
        Ok xs \<Rightarrow> list_all (\<lambda>x. lp_event l current target x = Ok None) xs
      | _ \<Rightarrow> False)"

lemma filed_contents:
  "filed U R \<Longrightarrow> contents R t i = Some m \<Longrightarrow> msg_key m = i"
  by (auto simp: filed_def contents_def)

lemma rel_option_pointwise:
  "rel_option P a b \<longleftrightarrow> (\<forall>m. b = Some m \<longrightarrow> (\<exists>m'. a = Some m' \<and> P m' m)) \<and> (a \<noteq> None \<longrightarrow> b \<noteq> None)"
  by (cases a; cases b) auto

context manba_db
begin

lemma createUpdate_silent:
  assumes "good current" "good target" "coherent U" "filed U (rows current)" "filed U (rows target)"
  shows "loop_silent (phase_loop C D (CreateUpdate k)) current target \<longleftrightarrow>
    (\<forall>i m. contents (rows target) (kind_name k) i = Some m \<longrightarrow>
      (\<exists>m'. contents (rows current) (kind_name k) i = Some m' \<and> msg_same m' m))"
proof -
  obtain xs where xs: "lp_fetch (phase_loop C D (CreateUpdate k)) current target = Ok xs"
      "\<forall>x\<in>set xs. entity_ok U x \<and> obj_table x = kind_name k"
      "obj_msg ` set xs = ran (contents (rows target) (kind_name k))"
    using phase_fetch_content [of target "CreateUpdate k" current target U] assms by auto
  have "lp_event (phase_loop C D (CreateUpdate k)) current target x = Ok None \<longleftrightarrow>
      (\<exists>m'. contents (rows current) (kind_name k) (msg_key (obj_msg x)) = Some m' \<and> msg_same m' (obj_msg x))"
    if "x \<in> set xs" for x
    using createUpdate_phase [OF assms(1,3,4), of x k target] xs(2) that
    by (cases "contents (rows current) (kind_name k) (msg_key (obj_msg x))") (auto split: if_splits)
  then have "loop_silent (phase_loop C D (CreateUpdate k)) current target \<longleftrightarrow>
      (\<forall>m\<in>obj_msg ` set xs. \<exists>m'. contents (rows current) (kind_name k) (msg_key m) = Some m' \<and> msg_same m' m)"
    by (simp add: loop_silent_def xs(1) list_all_iff)
  also have "\<dots> \<longleftrightarrow> (\<forall>i m. contents (rows target) (kind_name k) i = Some m \<longrightarrow>
      (\<exists>m'. contents (rows current) (kind_name k) i = Some m' \<and> msg_same m' m))"
    unfolding xs(3) using filed_contents [OF assms(5)] by (fastforce simp: ran_def)
  finally show ?thesis .
qed

lemma remove_silent:
  assumes "good current" "good target" "coherent U" "filed U (rows current)" "filed U (rows target)"
  shows "loop_silent (phase_loop C D (Remove k)) current target \<longleftrightarrow>
    dom (contents (rows current) (kind_name k)) \<subseteq> dom (contents (rows target) (kind_name k))"
proof -
  obtain xs where xs: "lp_fetch (phase_loop C D (Remove k)) current target = Ok xs"
      "\<forall>x\<in>set xs. entity_ok U x \<and> obj_table x = kind_name k"
      "obj_msg ` set xs = ran (contents (rows current) (kind_name k))"
    using phase_fetch_content [of current "Remove k" current target U] assms by auto
  have "lp_event (phase_loop C D (Remove k)) current target x = Ok None \<longleftrightarrow>
      msg_key (obj_msg x) \<in> dom (contents (rows target) (kind_name k))" if "x \<in> set xs" for x
    using remove_phase [OF assms(2,3,5), of x k current] xs(2) that
    by (cases "contents (rows target) (kind_name k) (msg_key (obj_msg x))") auto
  then have "loop_silent (phase_loop C D (Remove k)) current target \<longleftrightarrow>
      (\<forall>m\<in>obj_msg ` set xs. msg_key m \<in> dom (contents (rows target) (kind_name k)))"
    by (simp add: loop_silent_def xs(1) list_all_iff)
  also have "\<dots> \<longleftrightarrow> dom (contents (rows current) (kind_name k)) \<subseteq> dom (contents (rows target) (kind_name k))"
    unfolding xs(3) using filed_contents [OF assms(4)] by (fastforce simp: ran_def dom_def)
  finally show ?thesis .
qed

lemma silent_iff:
  assumes "good current" "good target" "coherent U" "filed U (rows current)" "filed U (rows target)"
  shows "(\<forall>p\<in>set (createUpdateList @ deleteList). loop_silent (phase_loop C D p) current target) \<longleftrightarrow>
    same_contents (contents (rows current)) (contents (rows target))"
proof -
  let ?A = "contents (rows current)" and ?B = "contents (rows target)"
  have "set (createUpdateList @ deleteList) = range CreateUpdate \<union> range Remove"
    by (auto simp: createUpdateList_def deleteList_def image_iff) (metis kind.exhaust)+
  then have "(\<forall>p\<in>set (createUpdateList @ deleteList). loop_silent (phase_loop C D p) current target) \<longleftrightarrow>
      (\<forall>k. loop_silent (phase_loop C D (CreateUpdate k)) current target \<and>
        loop_silent (phase_loop C D (Remove k)) current target)"
    by auto
  also have "\<dots> \<longleftrightarrow> (\<forall>k. (\<forall>i m. ?B (kind_name k) i = Some m \<longrightarrow> (\<exists>m'. ?A (kind_name k) i = Some m' \<and> msg_same m' m)) \<and>
      dom (?A (kind_name k)) \<subseteq> dom (?B (kind_name k)))"
    by (simp only: createUpdate_silent [OF assms] remove_silent [OF assms])
  also have "\<dots> \<longleftrightarrow> same_contents ?A ?B"
    unfolding same_contents_def rel_option_pointwise by (simp only: subset_iff domIff) blast
  finally show ?thesis .
qed
end

section \<open>Loaded configurations\<close>

definition raw_msgs :: "ManbaRawState \<Rightarrow> wire list" where
  "raw_msgs raw = map (\<lambda>a. WAPI (dAPI a)) (raw_APIs raw) @ map (\<lambda>c. WCluster (dCluster c)) (raw_Clusters raw) @
     map (\<lambda>r. WRouting (dRouting r)) (raw_Routings raw) @ map (\<lambda>s. WServer (dServer s)) (raw_Servers raw) @
     map WBind (List.map_filter dBind (raw_Binds raw))"

definition raw_tags :: "ManbaRawState \<Rightarrow> tag set" where
  "raw_tags raw = set (map msg_tag (raw_msgs raw))"

definition raw_contents :: "ManbaRawState \<Rightarrow> string \<Rightarrow> string \<rightharpoonup> wire" where
  "raw_contents raw = contents (raw_rows raw)"

text \<open>
  Two configurations are aligned when their entities have usable IDs and entities of the same name
  have the same ID and vice versa, across both.
\<close>

definition aligned :: "ManbaRawState \<Rightarrow> ManbaRawState \<Rightarrow> bool" where
  "aligned r1 r2 \<longleftrightarrow> raw_proper r1 \<and> raw_proper r2 \<and> list_all msg_valid (raw_msgs r1 @ raw_msgs r2) \<and>
     coherent (raw_tags r1 \<union> raw_tags r2)"

lemma raw_rows_msg:
  assumes "raw_rows raw t k = Some x"
  shows "obj_table x = t \<and> msg_key (obj_msg x) = k \<and> obj_msg x \<in> set (raw_msgs raw)"
  using assms unfolding raw_rows_def
  by (auto simp: row_defs raw_msgs_def new_defs Let_def dest!: map_of_SomeD split: if_splits)

lemma filed_raw:
  assumes "list_all msg_valid (raw_msgs raw)" and "raw_tags raw \<subseteq> U"
  shows "filed U (raw_rows raw)"
  unfolding filed_def
proof (intro allI impI)
  fix t k x assume "raw_rows raw t k = Some x"
  from raw_rows_msg [OF this] assms
  show "obj_table x = t \<and> msg_key (obj_msg x) = k \<and> msg_valid (obj_msg x) \<and> msg_tag (obj_msg x) \<in> U"
    by (auto simp: raw_tags_def list_all_iff)
qed

lemma alignedD:
  assumes "aligned r1 r2"
  shows "raw_proper r1" "raw_proper r2" "coherent (raw_tags r1 \<union> raw_tags r2)"
    "filed (raw_tags r1 \<union> raw_tags r2) (raw_rows r1)" "filed (raw_tags r1 \<union> raw_tags r2) (raw_rows r2)"
  using assms by (auto simp: aligned_def intro: filed_raw)

text \<open>A second configuration, in which one entity is new, one has changed and one is gone.\<close>

definition sample_target :: ManbaRawState where
  "sample_target = sample_raw\<lparr>
     raw_APIs := [\<lparr>dAPI = zero_API\<lparr>API_ID := 1, API_Name := ''a'', API_Method := ''GET''\<rparr>, dAPI_Proxies = []\<rparr>,
                  \<lparr>dAPI = zero_API\<lparr>API_ID := 9, API_Name := ''b''\<rparr>, dAPI_Proxies = []\<rparr>],
     raw_Routings := []\<rparr>"

lemma sample_aligned: "aligned sample_raw sample_target" "aligned sample_raw sample_raw"
  by code_simp+

text \<open>
  C12. The diff is exact: between two loaded configurations whose names and IDs are aligned, the ten
  loops find nothing to create, update or delete if and only if both states hold the same keys with
  messages that the comparison of the kind takes for equal.
\<close>

theorem diff_silent_iff_same:
  assumes "manba_db D rows ok C" and "aligned raw1 raw2"
    and "state_Get C D raw1 = Ok current" and "state_Get C D raw2 = Ok target"
  shows "(\<forall>p\<in>set (createUpdateList @ deleteList). loop_silent (phase_loop C D p) current target) \<longleftrightarrow>
    same_contents (raw_contents raw1) (raw_contents raw2)"
proof -
  note al = alignedD [OF assms(2)]
  have "good_db rows ok current \<and> rows current = raw_rows raw1" "good_db rows ok target \<and> rows target = raw_rows raw2"
    using manba_db.state_Get_rows [OF assms(1)] al(1,2) assms(3,4) by force+
  with manba_db.silent_iff [OF assms(1), of current target "raw_tags raw1 \<union> raw_tags raw2"] al(3-5)
  show ?thesis by (simp add: raw_contents_def)
qed

theorem diff_silent_iff_same_witness:
  "\<exists>current target. state_Get tagged_codecs refdb sample_raw = Ok current \<and>
    state_Get tagged_codecs refdb sample_target = Ok target \<and>
    ((\<forall>p\<in>set (createUpdateList @ deleteList). loop_silent (phase_loop tagged_codecs refdb p) current target) \<longleftrightarrow>
      same_contents (raw_contents sample_raw) (raw_contents sample_target))"
proof -
  obtain current target where "state_Get tagged_codecs refdb sample_raw = Ok current"
      "state_Get tagged_codecs refdb sample_target = Ok target"
    using ref.state_Get_rows sample_aligned(1) by (metis aligned_def)
  with diff_silent_iff_same [OF ref.manba_db_axioms sample_aligned(1)] show ?thesis by blast
qed

end
