(* ===== verification/Syncer.thy ===== *)
theory Syncer
  imports Diff
begin

text \<open>
  The syncer (\<open>pkg/manba/diff/diff.go\<close>, \<open>event_loop.go\<close>): \<open>Run\<close> starts worker goroutines and a producer,
  which exchange events over a buffered channel and errors over an unbuffered one, and collects the
  errors. The model is a transition system over an explicit state: the in-memory state, the gateway,
  the channels, the counter \<open>InFlightOps\<close> at its width, and the program counter of the producer, of
  every worker and of \<open>Run\<close> itself. One action is one atomic operation of one goroutine (a channel
  operation, an atomic addition, a call of \<open>d\<close>, a committed transaction), \<open>exec\<close> is the state after
  it or \<open>None\<close> where the goroutine is blocked, and \<open>reaches\<close> follows every interleaving.
\<close>

section \<open>The state\<close>

text \<open>
  The producer runs the loops of \<open>createUpdateList\<close> and \<open>deleteList\<close>. \<open>PNext\<close>: the loops still to run;
  \<open>PScan\<close>: in a loop, with the entities left; \<open>PQueue\<close>: in the select of \<open>queueEvent\<close>, the counter already
  incremented; \<open>PWait\<close>: in \<open>wait\<close>; \<open>PFail\<close>: sending its error; \<open>PClose\<close>: before \<open>close(sc.eventChan)\<close>.
\<close>

datatype producer =
    PNext "phase list"
  | PScan phase "obj list" "phase list"
  | PQueue Event phase "obj list" "phase list"
  | PWait "phase list"
  | PFail go_error
  | PClose
  | PDone

text \<open>
  A worker is at the receive of its loop, about to call \<open>d\<close>, about to call the post action on the
  result, about to decrement the counter, sending its error, or finished.
\<close>

datatype worker =
    WIdle
  | WDo Event
  | WPost Event Arg
  | WComplete "go_error option"
  | WFail go_error
  | WDone

datatype main_pc = MSelect | MStop | MCollect | MReturn

record ('db, 'g) Syncer =
  currentState :: 'db
  gateway :: 'g
  eventChan :: "Event list"
  eventClosed :: bool
  errClosed :: bool
  stopClosed :: bool
  InFlightOps :: int32
  producer :: producer
  workers :: "worker list"
  main_pc :: main_pc
  errs :: "go_error list"
  panicked :: bool

text \<open>What does not change during a run; \<open>se_done\<close> tells whether the channel \<open>done\<close> is ever closed.\<close>

record ('w, 'db, 'g) syncer_env =
  se_codecs :: "'w codecs"
  se_memdb :: "('db, obj) memdb"
  targetState :: 'db
  postProcess :: "'db Registry"
  se_do :: "Arg \<Rightarrow> 'g \<Rightarrow> 'g \<times> Arg result"
  se_done :: bool

definition eventChan_cap :: nat where
  "eventChan_cap = 10"

definition NewSyncer ::
    "'w codecs \<Rightarrow> ('db, obj) memdb \<Rightarrow> 'db \<Rightarrow> (Arg \<Rightarrow> 'g \<Rightarrow> 'g \<times> Arg result) \<Rightarrow> bool \<Rightarrow>
     ('w, 'db, 'g) syncer_env result" where
  "NewSyncer C D target d dn =
     rbind (NewPostProcess C D) (\<lambda>r. Ok \<lparr>se_codecs = C, se_memdb = D, targetState = target,
       postProcess = r, se_do = d, se_done = dn\<rparr>)"

section \<open>The producer\<close>

definition queueEvent_start :: "Event \<Rightarrow> phase \<Rightarrow> obj list \<Rightarrow> phase list \<Rightarrow> ('db, 'g) Syncer \<Rightarrow> ('db, 'g) Syncer" where
  "queueEvent_start e p xs ps s = s\<lparr>InFlightOps := InFlightOps s + 1, producer := PQueue e p xs ps\<rparr>"

definition queueEvent_send :: "('db, 'g) Syncer \<Rightarrow> ('db, 'g) Syncer option" where
  "queueEvent_send s =
     (case producer s of
        PQueue e p xs ps \<Rightarrow>
          if length (eventChan s) < eventChan_cap
          then Some (s\<lparr>eventChan := eventChan s @ [e], producer := PScan p xs ps\<rparr>) else None
      | _ \<Rightarrow> None)"

definition queueEvent_stop :: "('db, 'g) Syncer \<Rightarrow> ('db, 'g) Syncer option" where
  "queueEvent_stop s =
     (case producer s of
        PQueue e p xs ps \<Rightarrow> if stopClosed s then Some (s\<lparr>producer := PFail errEnqueueFailed\<rparr>) else None
      | _ \<Rightarrow> None)"

text \<open>\<open>wait\<close> spins until the counter is zero; a spinning producer is a blocked one.\<close>

definition wait :: "phase list \<Rightarrow> ('db, 'g) Syncer \<Rightarrow> ('db, 'g) Syncer option" where
  "wait ps s = (if InFlightOps s = 0 then Some (s\<lparr>producer := PNext ps\<rparr>) else None)"

definition diff :: "('w, 'db, 'g) syncer_env \<Rightarrow> ('db, 'g) Syncer \<Rightarrow> ('db, 'g) Syncer option" where
  "diff env s =
     (let loop = phase_loop (se_codecs env) (se_memdb env) in
      case producer s of
        PNext [] \<Rightarrow> Some (s\<lparr>producer := PClose\<rparr>)
      | PNext (p # ps) \<Rightarrow>
          (case lp_fetch (loop p) (currentState s) (targetState env) of
             Ok xs \<Rightarrow> Some (s\<lparr>producer := PScan p xs ps\<rparr>)
           | Err err \<Rightarrow> Some (s\<lparr>producer := PFail err\<rparr>)
           | Panic m \<Rightarrow> Some (s\<lparr>panicked := True\<rparr>))
      | PScan p [] ps \<Rightarrow> Some (s\<lparr>producer := PWait ps\<rparr>)
      | PScan p (x # xs) ps \<Rightarrow>
          (case lp_event (loop p) (currentState s) (targetState env) x of
             Ok None \<Rightarrow> Some (s\<lparr>producer := PScan p xs ps\<rparr>)
           | Ok (Some e) \<Rightarrow> Some (queueEvent_start e p xs ps s)
           | Err err \<Rightarrow> Some (s\<lparr>producer := PFail err\<rparr>)
           | Panic m \<Rightarrow> Some (s\<lparr>panicked := True\<rparr>))
      | PQueue e p xs ps \<Rightarrow> queueEvent_send s
      | PWait ps \<Rightarrow> wait ps s
      | PFail err \<Rightarrow> None
      | PClose \<Rightarrow> Some (s\<lparr>eventClosed := True, producer := PDone\<rparr>)
      | PDone \<Rightarrow> None)"

section \<open>The workers\<close>

abbreviation set_worker :: "nat \<Rightarrow> worker \<Rightarrow> ('db, 'g) Syncer \<Rightarrow> ('db, 'g) Syncer" where
  "set_worker i w s \<equiv> s\<lparr>workers := (workers s)[i := w]\<rparr>"

text \<open>\<open>handleEvent\<close> in its two calls, each atomic on what it changes.\<close>

definition handleEvent_do :: "('w, 'db, 'g) syncer_env \<Rightarrow> nat \<Rightarrow> Event \<Rightarrow> ('db, 'g) Syncer \<Rightarrow> ('db, 'g) Syncer" where
  "handleEvent_do env i event s =
     (let (g, res) = se_do env (AEvent event) (gateway s); s = s\<lparr>gateway := g\<rparr> in
      case res of
        Err err \<Rightarrow> set_worker i (WComplete (Some (Wrap ''while processing event'' err))) s
      | Panic m \<Rightarrow> s\<lparr>panicked := True\<rparr>
      | Ok r \<Rightarrow> if r = ANil then set_worker i (WComplete (Some (NewError ''result of event is nil''))) s
          else set_worker i (WPost event r) s)"

definition handleEvent_post :: "('w, 'db, 'g) syncer_env \<Rightarrow> nat \<Rightarrow> Event \<Rightarrow> Arg \<Rightarrow> ('db, 'g) Syncer \<Rightarrow> ('db, 'g) Syncer" where
  "handleEvent_post env i event r s =
     (let (db, res) = Registry_Do (postProcess env) (Ev_Kind event) (Ev_Op event) r (currentState s);
          s = s\<lparr>currentState := db\<rparr> in
      case res of
        Err err \<Rightarrow> set_worker i (WComplete (Some (Wrap ''while post processing event'' err))) s
      | Panic m \<Rightarrow> s\<lparr>panicked := True\<rparr>
      | Ok _ \<Rightarrow> set_worker i (WComplete None) s)"

definition eventCompleted :: "nat \<Rightarrow> worker \<Rightarrow> ('db, 'g) Syncer \<Rightarrow> ('db, 'g) Syncer" where
  "eventCompleted i w s = s\<lparr>InFlightOps := InFlightOps s - 1, workers := (workers s)[i := w]\<rparr>"

definition eventLoop :: "('w, 'db, 'g) syncer_env \<Rightarrow> nat \<Rightarrow> ('db, 'g) Syncer \<Rightarrow> ('db, 'g) Syncer option" where
  "eventLoop env i s =
     (if length (workers s) \<le> i then None else
      case workers s ! i of
        WIdle \<Rightarrow>
          (case eventChan s of
             e # es \<Rightarrow> Some (set_worker i (WDo e) (s\<lparr>eventChan := es\<rparr>))
           | [] \<Rightarrow> if eventClosed s then Some (set_worker i WDone s) else None)
      | WDo e \<Rightarrow> Some (handleEvent_do env i e s)
      | WPost e r \<Rightarrow> Some (handleEvent_post env i e r s)
      | WComplete None \<Rightarrow> Some (eventCompleted i WIdle s)
      | WComplete (Some err) \<Rightarrow> Some (eventCompleted i (WFail err) s)
      | WFail err \<Rightarrow> None
      | WDone \<Rightarrow> None)"

section \<open>Run\<close>

text \<open>Receiving an error: the first one ends the select, the others are collected.\<close>

definition receive :: "go_error \<Rightarrow> ('db, 'g) Syncer \<Rightarrow> ('db, 'g) Syncer" where
  "receive err s = s\<lparr>
     errs := (if err \<noteq> errEnqueueFailed then errs s @ [err] else errs s),
     main_pc := (if main_pc s = MSelect then MStop else main_pc s)\<rparr>"

definition receiving :: "('db, 'g) Syncer \<Rightarrow> bool" where
  "receiving s \<longleftrightarrow> main_pc s = MSelect \<or> main_pc s = MCollect"

definition all_done :: "('db, 'g) Syncer \<Rightarrow> bool" where
  "all_done s \<longleftrightarrow> producer s = PDone \<and> list_all (\<lambda>w. w = WDone) (workers s)"

text \<open>Code equations that do not compare events, whose metadata are functions.\<close>

lemma all_done_code [code]:
  "all_done s = ((case producer s of PDone \<Rightarrow> True | _ \<Rightarrow> False) \<and>
     list_all (\<lambda>w. case w of WDone \<Rightarrow> True | _ \<Rightarrow> False) (workers s))"
  by (auto simp: all_done_def list_all_iff split: producer.splits worker.splits)

lemma handleEvent_do_code [code]:
  "handleEvent_do env i event s =
     (let (g, res) = se_do env (AEvent event) (gateway s); s = s\<lparr>gateway := g\<rparr> in
      case res of
        Err err \<Rightarrow> set_worker i (WComplete (Some (Wrap ''while processing event'' err))) s
      | Panic m \<Rightarrow> s\<lparr>panicked := True\<rparr>
      | Ok ANil \<Rightarrow> set_worker i (WComplete (Some (NewError ''result of event is nil''))) s
      | Ok r \<Rightarrow> set_worker i (WPost event r) s)"
  by (auto simp: handleEvent_do_def Let_def split: prod.splits result.splits Arg.splits)

datatype action =
    Produce              \<comment> \<open>the producer takes its next step, sending where it queues\<close>
  | ProduceStop          \<comment> \<open>the producer leaves \<open>queueEvent\<close> by the stop channel\<close>
  | ProduceErr           \<comment> \<open>the producer hands its error to \<open>Run\<close>\<close>
  | Work nat             \<comment> \<open>a worker takes its next step\<close>
  | WorkErr nat          \<comment> \<open>a worker hands its error to \<open>Run\<close>\<close>
  | CloseErr             \<comment> \<open>all goroutines are done: the error channel is closed\<close>
  | Done                 \<comment> \<open>\<open>Run\<close> sees that \<open>done\<close> is closed\<close>
  | Main                 \<comment> \<open>\<open>Run\<close> sees the error channel closed, or closes the stop channel\<close>

definition exec :: "('w, 'db, 'g) syncer_env \<Rightarrow> action \<Rightarrow> ('db, 'g) Syncer \<Rightarrow> ('db, 'g) Syncer option" where
  "exec env a s =
     (if panicked s then None else
      case a of
        Produce \<Rightarrow> diff env s
      | ProduceStop \<Rightarrow> queueEvent_stop s
      | ProduceErr \<Rightarrow>
          (case producer s of
             PFail err \<Rightarrow> if receiving s then Some (receive err (s\<lparr>producer := PClose\<rparr>)) else None
           | _ \<Rightarrow> None)
      | Work i \<Rightarrow> eventLoop env i s
      | WorkErr i \<Rightarrow>
          if length (workers s) \<le> i then None else
          (case workers s ! i of
             WFail err \<Rightarrow> if receiving s then Some (receive err (set_worker i WDone s)) else None
           | _ \<Rightarrow> None)
      | CloseErr \<Rightarrow> if all_done s \<and> \<not> errClosed s then Some (s\<lparr>errClosed := True\<rparr>) else None
      | Done \<Rightarrow> if main_pc s = MSelect \<and> se_done env then Some (s\<lparr>main_pc := MStop\<rparr>) else None
      | Main \<Rightarrow>
          (case main_pc s of
             MSelect \<Rightarrow> if errClosed s then Some (s\<lparr>main_pc := MStop\<rparr>) else None
           | MStop \<Rightarrow> Some (s\<lparr>stopClosed := True, main_pc := MCollect\<rparr>)
           | MCollect \<Rightarrow> if errClosed s then Some (s\<lparr>main_pc := MReturn\<rparr>) else None
           | MReturn \<Rightarrow> None))"

inductive step :: "('w, 'db, 'g) syncer_env \<Rightarrow> ('db, 'g) Syncer \<Rightarrow> ('db, 'g) Syncer \<Rightarrow> bool" for env where
  step: "exec env a s = Some s' \<Longrightarrow> step env s s'"

abbreviation reaches :: "('w, 'db, 'g) syncer_env \<Rightarrow> ('db, 'g) Syncer \<Rightarrow> ('db, 'g) Syncer \<Rightarrow> bool" where
  "reaches env \<equiv> (step env)\<^sup>*\<^sup>*"

definition Run_start :: "'db \<Rightarrow> 'g \<Rightarrow> nat \<Rightarrow> ('db, 'g) Syncer" where
  "Run_start db g parallelism = \<lparr>currentState = db, gateway = g, eventChan = [], eventClosed = False,
     errClosed = False, stopClosed = False, InFlightOps = 0,
     producer = PNext (createUpdateList @ deleteList), workers = replicate parallelism WIdle,
     main_pc = MSelect, errs = [], panicked = False\<rparr>"

text \<open>A run that returns: the final in-memory state, gateway and errors.\<close>

inductive Run :: "('w, 'db, 'g) syncer_env \<Rightarrow> 'db \<Rightarrow> 'g \<Rightarrow> int \<Rightarrow> 'db \<Rightarrow> 'g \<Rightarrow> go_error list \<Rightarrow> bool" for env db g where
  refused: "parallelism < 1 \<Longrightarrow>
    Run env db g parallelism db g [NewError ''parallelism can not be negative'']"
| returns: "1 \<le> parallelism \<Longrightarrow> reaches env (Run_start db g (nat parallelism)) s \<Longrightarrow>
    main_pc s = MReturn \<Longrightarrow> Run env db g parallelism (currentState s) (gateway s) (errs s)"

section \<open>The transitions, one rule each\<close>

inductive move :: "('w, 'db, 'g) syncer_env \<Rightarrow> ('db, 'g) Syncer \<Rightarrow> ('db, 'g) Syncer \<Rightarrow> bool" for env s where
  loops_end: "producer s = PNext [] \<Longrightarrow> move env s (s\<lparr>producer := PClose\<rparr>)"
| fetch: "producer s = PNext (p # ps) \<Longrightarrow>
    lp_fetch (phase_loop (se_codecs env) (se_memdb env) p) (currentState s) (targetState env) = Ok xs \<Longrightarrow>
    move env s (s\<lparr>producer := PScan p xs ps\<rparr>)"
| fetch_err: "producer s = PNext (p # ps) \<Longrightarrow>
    lp_fetch (phase_loop (se_codecs env) (se_memdb env) p) (currentState s) (targetState env) = Err err \<Longrightarrow>
    move env s (s\<lparr>producer := PFail err\<rparr>)"
| fetch_panic: "producer s = PNext (p # ps) \<Longrightarrow>
    lp_fetch (phase_loop (se_codecs env) (se_memdb env) p) (currentState s) (targetState env) = Panic m \<Longrightarrow>
    move env s (s\<lparr>panicked := True\<rparr>)"
| scan_end: "producer s = PScan p [] ps \<Longrightarrow> move env s (s\<lparr>producer := PWait ps\<rparr>)"
| scan_none: "producer s = PScan p (x # xs) ps \<Longrightarrow>
    lp_event (phase_loop (se_codecs env) (se_memdb env) p) (currentState s) (targetState env) x = Ok None \<Longrightarrow>
    move env s (s\<lparr>producer := PScan p xs ps\<rparr>)"
| scan_some: "producer s = PScan p (x # xs) ps \<Longrightarrow>
    lp_event (phase_loop (se_codecs env) (se_memdb env) p) (currentState s) (targetState env) x = Ok (Some e) \<Longrightarrow>
    move env s (s\<lparr>InFlightOps := InFlightOps s + 1, producer := PQueue e p xs ps\<rparr>)"
| scan_err: "producer s = PScan p (x # xs) ps \<Longrightarrow>
    lp_event (phase_loop (se_codecs env) (se_memdb env) p) (currentState s) (targetState env) x = Err err \<Longrightarrow>
    move env s (s\<lparr>producer := PFail err\<rparr>)"
| scan_panic: "producer s = PScan p (x # xs) ps \<Longrightarrow>
    lp_event (phase_loop (se_codecs env) (se_memdb env) p) (currentState s) (targetState env) x = Panic m \<Longrightarrow>
    move env s (s\<lparr>panicked := True\<rparr>)"
| queue_send: "producer s = PQueue e p xs ps \<Longrightarrow> length (eventChan s) < eventChan_cap \<Longrightarrow>
    move env s (s\<lparr>eventChan := eventChan s @ [e], producer := PScan p xs ps\<rparr>)"
| queue_stop: "producer s = PQueue e p xs ps \<Longrightarrow> stopClosed s \<Longrightarrow>
    move env s (s\<lparr>producer := PFail errEnqueueFailed\<rparr>)"
| wait_over: "producer s = PWait ps \<Longrightarrow> InFlightOps s = 0 \<Longrightarrow> move env s (s\<lparr>producer := PNext ps\<rparr>)"
| close_events: "producer s = PClose \<Longrightarrow> move env s (s\<lparr>eventClosed := True, producer := PDone\<rparr>)"
| producer_err: "producer s = PFail err \<Longrightarrow> receiving s \<Longrightarrow> move env s (receive err (s\<lparr>producer := PClose\<rparr>))"
| take: "i < length (workers s) \<Longrightarrow> workers s ! i = WIdle \<Longrightarrow> eventChan s = e # es \<Longrightarrow>
    move env s (s\<lparr>eventChan := es, workers := (workers s)[i := WDo e]\<rparr>)"
| worker_end: "i < length (workers s) \<Longrightarrow> workers s ! i = WIdle \<Longrightarrow> eventChan s = [] \<Longrightarrow> eventClosed s \<Longrightarrow>
    move env s (s\<lparr>workers := (workers s)[i := WDone]\<rparr>)"
| do_err: "i < length (workers s) \<Longrightarrow> workers s ! i = WDo e \<Longrightarrow>
    se_do env (AEvent e) (gateway s) = (g, r) \<Longrightarrow> r = Err err' \<or> r = Ok ANil \<Longrightarrow> err \<noteq> errEnqueueFailed \<Longrightarrow>
    move env s (s\<lparr>gateway := g, workers := (workers s)[i := WComplete (Some err)]\<rparr>)"
| do_panic: "i < length (workers s) \<Longrightarrow> workers s ! i = WDo e \<Longrightarrow>
    se_do env (AEvent e) (gateway s) = (g, Panic m) \<Longrightarrow> move env s (s\<lparr>gateway := g, panicked := True\<rparr>)"
| do_ok: "i < length (workers s) \<Longrightarrow> workers s ! i = WDo e \<Longrightarrow>
    se_do env (AEvent e) (gateway s) = (g, Ok r) \<Longrightarrow> r \<noteq> ANil \<Longrightarrow>
    move env s (s\<lparr>gateway := g, workers := (workers s)[i := WPost e r]\<rparr>)"
| post_err: "i < length (workers s) \<Longrightarrow> workers s ! i = WPost e r \<Longrightarrow>
    Registry_Do (postProcess env) (Ev_Kind e) (Ev_Op e) r (currentState s) = (db, Err err') \<Longrightarrow> err \<noteq> errEnqueueFailed \<Longrightarrow>
    move env s (s\<lparr>currentState := db, workers := (workers s)[i := WComplete (Some err)]\<rparr>)"
| post_panic: "i < length (workers s) \<Longrightarrow> workers s ! i = WPost e r \<Longrightarrow>
    Registry_Do (postProcess env) (Ev_Kind e) (Ev_Op e) r (currentState s) = (db, Panic m) \<Longrightarrow>
    move env s (s\<lparr>currentState := db, panicked := True\<rparr>)"
| post_ok: "i < length (workers s) \<Longrightarrow> workers s ! i = WPost e r \<Longrightarrow>
    Registry_Do (postProcess env) (Ev_Kind e) (Ev_Op e) r (currentState s) = (db, Ok r') \<Longrightarrow>
    move env s (s\<lparr>currentState := db, workers := (workers s)[i := WComplete None]\<rparr>)"
| complete: "i < length (workers s) \<Longrightarrow> workers s ! i = WComplete err \<Longrightarrow>
    move env s (eventCompleted i (case err of None \<Rightarrow> WIdle | Some e \<Rightarrow> WFail e) s)"
| worker_err: "i < length (workers s) \<Longrightarrow> workers s ! i = WFail err \<Longrightarrow> receiving s \<Longrightarrow>
    move env s (receive err (s\<lparr>workers := (workers s)[i := WDone]\<rparr>))"
| close_errors: "all_done s \<Longrightarrow> \<not> errClosed s \<Longrightarrow> move env s (s\<lparr>errClosed := True\<rparr>)"
| main_done: "main_pc s = MSelect \<Longrightarrow> se_done env \<Longrightarrow> move env s (s\<lparr>main_pc := MStop\<rparr>)"
| main_closed: "main_pc s = MSelect \<Longrightarrow> errClosed s \<Longrightarrow> move env s (s\<lparr>main_pc := MStop\<rparr>)"
| main_stop: "main_pc s = MStop \<Longrightarrow> move env s (s\<lparr>stopClosed := True, main_pc := MCollect\<rparr>)"
| main_return: "main_pc s = MCollect \<Longrightarrow> errClosed s \<Longrightarrow> move env s (s\<lparr>main_pc := MReturn\<rparr>)"

lemma diff_move: "diff env s = Some s' \<Longrightarrow> move env s s'"
  by (auto simp: diff_def Let_def queueEvent_start_def queueEvent_send_def wait_def intro: move.intros
    split: producer.splits list.splits result.splits option.splits if_splits)

lemma eventLoop_move: "eventLoop env i s = Some s' \<Longrightarrow> move env s s'"
proof -
  have d: "move env s (handleEvent_do env i e s)" if "i < length (workers s)" "workers s ! i = WDo e" for e
  proof -
    obtain g r where gr: "se_do env (AEvent e) (gateway s) = (g, r)" by fastforce
    show ?thesis
    proof (cases r)
      case (Ok a)
      then show ?thesis using that gr
        by (cases "a = ANil") (auto simp: handleEvent_do_def intro: move.do_ok move.do_err)
    next
      case (Err err)
      then show ?thesis using that gr by (auto simp: handleEvent_do_def intro: move.do_err)
    next
      case (Panic m)
      then show ?thesis using that gr by (auto simp: handleEvent_do_def intro: move.do_panic)
    qed
  qed
  have p: "move env s (handleEvent_post env i e r s)" if "i < length (workers s)" "workers s ! i = WPost e r" for e r
    using that by (auto simp: handleEvent_post_def Let_def intro: move.post_ok move.post_err move.post_panic
      split: prod.splits result.splits)
  assume "eventLoop env i s = Some s'"
  then show ?thesis
    using move.complete [of i s None env] move.complete [of i s "Some _" env]
    by (auto simp: eventLoop_def d p intro: move.take move.worker_end
      split: worker.splits list.splits option.splits if_splits)
qed

lemma exec_move: "exec env a s = Some s' \<Longrightarrow> \<not> panicked s \<and> move env s s'"
  by (cases a) (auto simp: exec_def queueEvent_stop_def diff_move eventLoop_move
    intro: move.producer_err move.worker_err move.close_errors move.main_done move.main_closed move.main_stop
      move.main_return move.queue_stop
    split: producer.splits worker.splits main_pc.splits if_splits)

lemma step_move: "step env s s' \<Longrightarrow> \<not> panicked s \<and> move env s s'"
  by (auto elim!: step.cases dest: exec_move)

text \<open>Invariants: what holds at the start and is kept by every move holds in every reachable state.\<close>

lemma reaches_invariant:
  assumes "reaches env s s'" and "P s" and "\<And>s s'. P s \<Longrightarrow> \<not> panicked s \<Longrightarrow> move env s s' \<Longrightarrow> P s'"
  shows "P s'"
  using assms by (induction rule: rtranclp_induct) (auto dest: step_move)

end
