(* ===== verification/Sync_Invariants.thy ===== *)
theory Sync_Invariants
  imports Syncer
begin

text \<open>
  The bookkeeping of a run: the counter \<open>InFlightOps\<close> is the number of events that are queued, held by
  a worker or about to be queued, plus at most one that \<open>queueEvent\<close> leaks when it leaves by the stop
  channel. From the bound on that number follow that the counter never wraps and that the barrier
  \<open>wait\<close> works: when it lets the producer pass, no event of the finished loop is left anywhere.
\<close>

section \<open>Counting events\<close>

fun busy :: "worker \<Rightarrow> bool" where
  "busy (WDo e) = True"
| "busy (WPost e r) = True"
| "busy (WComplete o') = True"
| "busy _ = False"

fun queueing :: "producer \<Rightarrow> bool" where
  "queueing (PQueue e p xs ps) = True"
| "queueing _ = False"

definition pending :: "('db, 'g) Syncer \<Rightarrow> nat" where
  "pending s = length (eventChan s) + length (filter busy (workers s)) + (if queueing (producer s) then 1 else 0)"

text \<open>An event leaked by the stop branch of \<open>queueEvent\<close>: only then, and the producer runs no loop any more.\<close>

definition leaked :: "('db, 'g) Syncer \<Rightarrow> nat \<Rightarrow> bool" where
  "leaked s l \<longleftrightarrow> l = 0 \<or> l = 1 \<and> stopClosed s \<and> producer s \<in> {PFail errEnqueueFailed, PClose, PDone}"

definition counted :: "nat \<Rightarrow> ('db, 'g) Syncer \<Rightarrow> bool" where
  "counted n s \<longleftrightarrow> length (workers s) = n \<and> length (eventChan s) \<le> eventChan_cap \<and>
     (\<exists>l. leaked s l \<and> InFlightOps s = of_nat (pending s + l))"

lemma filter_update:
  assumes "i < length ws"
  shows "length (filter P (ws[i := w])) + (if P (ws ! i) then 1 else 0) = length (filter P ws) + (if P w then 1 else 0)"
proof -
  have "length (filter P ws) = length (filter P (take i ws @ ws ! i # drop (Suc i) ws))"
    using id_take_nth_drop [OF assms] by simp
  then have "length (filter P ws) = length (filter P (take i ws)) + (if P (ws ! i) then 1 else 0) + length (filter P (drop (Suc i) ws))"
    by simp
  moreover have "length (filter P (ws[i := w])) = length (filter P (take i ws)) + (if P w then 1 else 0) + length (filter P (drop (Suc i) ws))"
    using assms by (simp add: upd_conv_take_nth_drop)
  ultimately show ?thesis by simp
qed

lemma filter_update_same: "i < length ws \<Longrightarrow> P w = P (ws ! i) \<Longrightarrow> length (filter P (ws[i := w])) = length (filter P ws)"
  using filter_update [of i ws P w] by auto

lemma filter_update_add: "i < length ws \<Longrightarrow> P w \<Longrightarrow> \<not> P (ws ! i) \<Longrightarrow> length (filter P (ws[i := w])) = Suc (length (filter P ws))"
  using filter_update [of i ws P w] by auto

lemma filter_update_del: "i < length ws \<Longrightarrow> \<not> P w \<Longrightarrow> P (ws ! i) \<Longrightarrow> length (filter P ws) = Suc (length (filter P (ws[i := w])))"
  using filter_update [of i ws P w] by auto

lemmas filter_updates = filter_update_same filter_update_add filter_update_del

lemma counted_move:
  assumes "counted n s" and "move env s s'"
  shows "counted n s'"
proof -
  obtain l where l: "leaked s l" "InFlightOps s = of_nat (pending s + l)" "length (workers s) = n"
      "length (eventChan s) \<le> eventChan_cap"
    using assms(1) by (auto simp: counted_def)
  have keep: "counted n s'" if "leaked s' l" "InFlightOps s' = InFlightOps s" "pending s' = pending s"
    "length (workers s') = n" "length (eventChan s') \<le> eventChan_cap"
    using that l by (auto simp: counted_def)
  have change: "counted n s'" if "leaked s' l'" "InFlightOps s' = of_nat (pending s' + l')"
    "length (workers s') = n" "length (eventChan s') \<le> eventChan_cap" for l'
    using that by (auto simp: counted_def)
  show ?thesis
    using assms(2)
  proof (cases rule: move.cases)
    case (scan_some p x xs ps e)
    then have "pending s' = Suc (pending s)" and "l = 0" using l(1) by (auto simp: pending_def leaked_def)
    moreover have "InFlightOps s' = InFlightOps s + 1" using scan_some(1) by simp
    ultimately show ?thesis using scan_some(1) l by (intro change [of 0]) (simp_all add: leaked_def)
  next
    case (queue_stop e p xs ps)
    then have "pending s = Suc (pending s')" and "l = 0" using l(1) by (auto simp: pending_def leaked_def)
    moreover have "InFlightOps s' = InFlightOps s" using queue_stop(1) by simp
    ultimately show ?thesis using queue_stop l by (intro change [of 1]) (simp_all add: leaked_def)
  next
    case (complete i err)
    then have "pending s = Suc (pending s')"
      using filter_update_del [of i "workers s" busy "case err of None \<Rightarrow> WIdle | Some e \<Rightarrow> WFail e"]
      by (auto simp: pending_def eventCompleted_def split: option.splits)
    moreover have "InFlightOps s' = InFlightOps s - 1" using complete(1) by (simp add: eventCompleted_def)
    moreover have "leaked s' l" "length (workers s') = n" "length (eventChan s') \<le> eventChan_cap"
      using complete(1) l by (simp_all add: leaked_def eventCompleted_def)
    ultimately show ?thesis using l(2) by (intro change [of l]) simp_all
  next
    case (take i e es)
    then show ?thesis using l by (intro keep) (auto simp: pending_def leaked_def filter_update_add)
  qed (use l in \<open>intro keep; simp add: pending_def leaked_def receive_def filter_update_same; auto\<close>)+
qed

lemma counted_start: "counted n (Run_start db g n)"
  by (auto simp: counted_def Run_start_def pending_def leaked_def intro!: exI [of _ 0])

lemma reaches_counted: "reaches env (Run_start db g n) s \<Longrightarrow> counted n s"
  by (rule reaches_invariant [where P = "counted n"]) (auto intro: counted_start counted_move)

lemma pending_bound: "counted n s \<Longrightarrow> pending s \<le> n + 11"
  using length_filter_le [of busy "workers s"] by (auto simp: counted_def pending_def eventChan_cap_def)

text \<open>Below the range of the counter nothing wraps, and a zero means that nothing is pending.\<close>

lemma counted_zero:
  assumes "counted n s" and "n + 12 < 2 ^ 32" and "InFlightOps s = 0"
  shows "pending s = 0"
proof -
  obtain l where l: "leaked s l" "InFlightOps s = of_nat (pending s + l)" using assms(1) by (auto simp: counted_def)
  have "pending s + l < 2 ^ 32" using pending_bound [OF assms(1)] l(1) assms(2) by (auto simp: leaked_def)
  then have "unat (InFlightOps s) = pending s + l" using of_nat_inverse [OF l(2) [symmetric]] by simp
  with assms(3) show ?thesis by simp
qed

section \<open>The counter and the barrier\<close>

text \<open>
  C9. With fewer than \<open>2 ^ 31 - 12\<close> workers the counter \<open>InFlightOps\<close>, a signed 32 bit integer, never
  wraps: in every reachable state it is between zero and the number of workers plus 12, the capacity of
  the channel plus the event being queued plus one that may have leaked.
\<close>

theorem InFlightOps_bounded:
  assumes "reaches env (Run_start db g n) s" and "n + 12 < 2 ^ 31"
  shows "0 \<le> sint (InFlightOps s) \<and> sint (InFlightOps s) \<le> int n + 12"
proof -
  have c: "counted n s" by (rule reaches_counted [OF assms(1)])
  then obtain l where l: "leaked s l" "InFlightOps s = of_nat (pending s + l)" by (auto simp: counted_def)
  have le: "pending s + l \<le> n + 12" using pending_bound [OF c] l(1) by (auto simp: leaked_def)
  have "sint (InFlightOps s) = int (pending s + l)"
    unfolding l(2) using le assms(2) by (subst signed_of_nat) (simp add: signed_take_bit_int_eq_self)
  with le show ?thesis by simp
qed

text \<open>
  C8. The barrier between the loops works: when \<open>wait\<close> lets the producer go on, no event is left in
  the channel and no worker is handling one, so every effect of a loop precedes the next loop.
\<close>

theorem wait_is_a_barrier:
  assumes "reaches env (Run_start db g n) s" and "n + 12 < 2 ^ 32"
    and "producer s = PWait ps" and "diff env s = Some s'"
  shows "eventChan s' = [] \<and> list_all (\<lambda>w. \<not> busy w) (workers s') \<and> producer s' = PNext ps"
proof -
  have s': "InFlightOps s = 0" "s' = s\<lparr>producer := PNext ps\<rparr>"
    using assms(3,4) by (auto simp: diff_def wait_def split: if_splits)
  have "pending s = 0" by (rule counted_zero [OF reaches_counted [OF assms(1)] assms(2) s'(1)])
  then show ?thesis by (auto simp: s'(2) pending_def list_all_iff filter_empty_conv split: if_splits)
qed

end
