(* ===== verification/Sync_Events.thy ===== *)
theory Sync_Events
  imports Sync_Invariants
begin

text \<open>
  The parts of the correctness argument for a run: the outstanding events (queued, held by a worker, or
  being queued) as a multiset, when an event fits the contents of the two states and what applying it
  does, when a loop is covered up to a set of keys, and how the channels and the program counters move
  together.
\<close>

section \<open>Outstanding events\<close>

fun worker_events :: "worker \<Rightarrow> Event multiset" where
  "worker_events (WDo e) = {#e#}"
| "worker_events (WPost e r) = {#e#}"
| "worker_events _ = {#}"

fun producer_events :: "producer \<Rightarrow> Event multiset" where
  "producer_events (PQueue e p xs ps) = {#e#}"
| "producer_events _ = {#}"

definition all_worker_events :: "worker list \<Rightarrow> Event multiset" where
  "all_worker_events ws = sum_list (map worker_events ws)"

definition outstanding :: "('db, 'g) Syncer \<Rightarrow> Event multiset" where
  "outstanding s = mset (eventChan s) + all_worker_events (workers s) + producer_events (producer s)"

lemma worker_events_update:
  assumes "i < length ws"
  shows "all_worker_events (ws[i := w]) + worker_events (ws ! i) = all_worker_events ws + worker_events w"
proof -
  have "all_worker_events ws = sum_list (map worker_events (take i ws @ ws ! i # drop (Suc i) ws))"
    using id_take_nth_drop [OF assms] by (simp add: all_worker_events_def)
  then show ?thesis using assms by (simp add: all_worker_events_def upd_conv_take_nth_drop ac_simps)
qed

lemma worker_events_update_same:
  "i < length ws \<Longrightarrow> worker_events w = worker_events (ws ! i) \<Longrightarrow> all_worker_events (ws[i := w]) = all_worker_events ws"
  using worker_events_update [of i ws w] by simp

lemma worker_events_nth: "i < length ws \<Longrightarrow> worker_events (ws ! i) \<subseteq># all_worker_events ws"
  using id_take_nth_drop [of i ws] by (metis (no_types) all_worker_events_def list.simps(9) map_append
    mset_subset_eq_add_left sum_list.Cons sum_list_append union_commute union_assoc)

lemma no_worker_events: "\<forall>w\<in>set ws. \<not> busy w \<Longrightarrow> all_worker_events ws = {#}"
proof (induction ws)
  case (Cons w ws)
  then show ?case by (cases w) (auto simp: all_worker_events_def)
qed (simp add: all_worker_events_def)

lemma pending_outstanding: "pending s = 0 \<Longrightarrow> outstanding s = {#}"
proof -
  assume "pending s = 0"
  then have "eventChan s = []" "\<forall>w\<in>set (workers s). \<not> busy w" "\<not> queueing (producer s)"
    by (auto simp: pending_def filter_empty_conv split: if_splits)
  moreover have "\<not> queueing p \<Longrightarrow> producer_events p = {#}" for p by (cases p) auto
  ultimately show ?thesis by (simp add: outstanding_def no_worker_events)
qed

section \<open>Events that fit\<close>

definition ev_key :: "Event \<Rightarrow> string \<times> string" where
  "ev_key e = (Ev_Kind e, msg_key (obj_msg (Ev_Obj e)))"

text \<open>
  An event fits contents \<open>A\<close> (current) and \<open>T\<close> (target): it creates what \<open>A\<close> lacks and \<open>T\<close> has, updates
  what both have to the message of \<open>T\<close>, or deletes what only \<open>A\<close> has.
\<close>

definition fits :: "tag set \<Rightarrow> (string \<Rightarrow> string \<rightharpoonup> wire) \<Rightarrow> (string \<Rightarrow> string \<rightharpoonup> wire) \<Rightarrow> Event \<Rightarrow> bool" where
  "fits U A T e \<longleftrightarrow> (let t = Ev_Kind e; x = Ev_Obj e; i = msg_key (obj_msg x) in
     obj_table x = t \<and> entity_ok U x \<and>
     (Ev_Op e = Create \<and> A t i = None \<and> T t i = Some (obj_msg x) \<or>
      Ev_Op e = Update \<and> A t i \<noteq> None \<and> T t i = Some (obj_msg x) \<or>
      Ev_Op e = Delete \<and> A t i \<noteq> None \<and> T t i = None))"

definition apply_event :: "Event \<Rightarrow> (string \<Rightarrow> string \<rightharpoonup> wire) \<Rightarrow> string \<Rightarrow> string \<rightharpoonup> wire" where
  "apply_event e A = A(Ev_Kind e := (A (Ev_Kind e))(msg_key (obj_msg (Ev_Obj e)) :=
     (if Ev_Op e = Delete then None else Some (obj_msg (Ev_Obj e)))))"

definition keys_differ :: "Event multiset \<Rightarrow> bool" where
  "keys_differ M \<longleftrightarrow> (\<forall>x. count (image_mset ev_key M) x \<le> 1)"

lemma keys_differ_add: "keys_differ (add_mset e M) \<longleftrightarrow> keys_differ M \<and> ev_key e \<notin> ev_key ` set_mset M"
proof -
  let ?c = "count (image_mset ev_key M)"
  have z: "ev_key e \<notin> ev_key ` set_mset M \<longleftrightarrow> ?c (ev_key e) = 0"
    by (metis not_in_iff set_image_mset)
  have c: "count (image_mset ev_key (add_mset e M)) x = (if x = ev_key e then Suc (?c x) else ?c x)" for x
    by simp
  show ?thesis unfolding keys_differ_def z c
  proof (intro iffI conjI allI)
    fix x assume *: "\<forall>x. (if x = ev_key e then Suc (?c x) else ?c x) \<le> 1"
    show "?c x \<le> 1" using spec [OF *, of x] by (simp split: if_splits)
    show "?c (ev_key e) = 0" using spec [OF *, of "ev_key e"] by simp
  next
    fix x assume "(\<forall>x. ?c x \<le> 1) \<and> ?c (ev_key e) = 0"
    then show "(if x = ev_key e then Suc (?c x) else ?c x) \<le> 1" by (cases x) simp
  qed
qed

lemma apply_event_other: "(t, i) \<noteq> ev_key e \<Longrightarrow> apply_event e A t i = A t i"
  by (auto simp: apply_event_def ev_key_def)

lemma apply_event_key:
  "(t, i) = ev_key e \<Longrightarrow> apply_event e A t i = (if Ev_Op e = Delete then None else Some (obj_msg (Ev_Obj e)))"
  by (auto simp: apply_event_def ev_key_def)

lemma fits_key:
  assumes "fits U A T e" and "(t, i) = ev_key e"
  shows "T t i = (if Ev_Op e = Delete then None else Some (obj_msg (Ev_Obj e)))"
  using assms by (auto simp: fits_def ev_key_def Let_def op_defs)

lemma fits_other: "fits U A T e' \<Longrightarrow> ev_key e' \<noteq> ev_key e \<Longrightarrow> fits U (apply_event e A) T e'"
  by (auto simp: fits_def apply_event_def ev_key_def Let_def)

text \<open>A loop is covered up to a set of keys.\<close>

fun covered :: "(string \<Rightarrow> string \<rightharpoonup> wire) \<Rightarrow> (string \<Rightarrow> string \<rightharpoonup> wire) \<Rightarrow> (string \<times> string) set \<Rightarrow> phase \<Rightarrow> bool" where
  "covered A T S (CreateUpdate k) = (\<forall>i m. T (kind_name k) i = Some m \<longrightarrow>
     (kind_name k, i) \<in> S \<or> (\<exists>m'. A (kind_name k) i = Some m' \<and> msg_same m' m))"
| "covered A T S (Remove k) = (\<forall>i. A (kind_name k) i \<noteq> None \<longrightarrow> (kind_name k, i) \<in> S \<or> T (kind_name k) i \<noteq> None)"

lemma covered_mono: "covered A T S p \<Longrightarrow> S \<subseteq> S' \<Longrightarrow> covered A T S' p"
  by (cases p) (simp; blast)+

text \<open>Applying an event that fits settles its key and spoils nothing.\<close>

lemma covered_apply:
  assumes "fits U A T e" and "covered A T (insert (ev_key e) S) p"
  shows "covered (apply_event e A) T S p"
proof (cases p)
  case (CreateUpdate k)
  have "(kind_name k, i) \<in> S \<or> (\<exists>m'. apply_event e A (kind_name k) i = Some m' \<and> msg_same m' m)"
    if "T (kind_name k) i = Some m" for i m
    using fits_key [OF assms(1)] apply_event_key [of "kind_name k" i e A] apply_event_other [of "kind_name k" i e A]
      assms(2) CreateUpdate that by (cases "(kind_name k, i) = ev_key e") (force split: if_splits)+
  with CreateUpdate show ?thesis by simp
next
  case (Remove k)
  have "(kind_name k, i) \<in> S \<or> T (kind_name k) i \<noteq> None" if "apply_event e A (kind_name k) i \<noteq> None" for i
    using fits_key [OF assms(1)] apply_event_key [of "kind_name k" i e A] apply_event_other [of "kind_name k" i e A]
      assms(2) Remove that by (cases "(kind_name k, i) = ev_key e") (auto split: if_splits)
  with Remove show ?thesis by simp
qed

lemma covered_same:
  assumes "\<forall>p\<in>set (createUpdateList @ deleteList). covered A T {} p"
  shows "same_contents A T"
proof -
  have "covered A T {} (CreateUpdate k) \<and> covered A T {} (Remove k)" for k
    using assms by (cases k) (auto simp: createUpdateList_def deleteList_def)
  then show ?thesis unfolding same_contents_def rel_option_pointwise by simp
qed

section \<open>Control\<close>

definition worker_failed :: "worker \<Rightarrow> bool" where
  "worker_failed w \<longleftrightarrow> (\<exists>err. w = WFail err \<or> w = WComplete (Some err))"

definition failed :: "('db, 'g) Syncer \<Rightarrow> bool" where
  "failed s \<longleftrightarrow> errs s \<noteq> [] \<or> (\<exists>err. producer s = PFail err) \<or> (\<exists>w\<in>set (workers s). worker_failed w) \<or> panicked s"

text \<open>
  How the channels and \<open>Run\<close> move together when \<open>done\<close> is never closed: \<open>Run\<close> leaves its select only
  for an error or for the closed error channel, and no error is the one it filters out.
\<close>

definition control :: "('db, 'g) Syncer \<Rightarrow> bool" where
  "control s \<longleftrightarrow>
     (eventClosed s \<longleftrightarrow> producer s = PDone) \<and> (errClosed s \<longrightarrow> all_done s) \<and> (main_pc s = MReturn \<longrightarrow> errClosed s) \<and>
     (main_pc s \<noteq> MSelect \<longrightarrow> errs s \<noteq> [] \<or> errClosed s) \<and> (stopClosed s \<longrightarrow> main_pc s \<noteq> MSelect) \<and>
     (producer s = PFail errEnqueueFailed \<longrightarrow> errs s \<noteq> []) \<and>
     (\<forall>err. WFail err \<in> set (workers s) \<or> WComplete (Some err) \<in> set (workers s) \<longrightarrow> err \<noteq> errEnqueueFailed) \<and>
     (panicked s \<longrightarrow> \<not> all_done s)"

text \<open>The errors of the loops are wrapped, so none of them is the sentinel either.\<close>

lemma loop_errors_wrapped:
  "loop_fetch k db \<noteq> Err errEnqueueFailed" "createUpdate_event k db e \<noteq> Err errEnqueueFailed"
  "delete_event k db e \<noteq> Err errEnqueueFailed"
  by (auto simp: loop_fetch_def createUpdate_event_def delete_event_def Let_def go_simps split: result.splits)

lemma phase_errors_wrapped:
  "lp_fetch (phase_loop C D p) current target \<noteq> Err errEnqueueFailed"
  "lp_event (phase_loop C D p) current target x \<noteq> Err errEnqueueFailed"
proof -
  obtain k where "p = CreateUpdate k \<or> p = Remove k" by (cases p) auto
  then show "lp_fetch (phase_loop C D p) current target \<noteq> Err errEnqueueFailed"
    "lp_event (phase_loop C D p) current target x \<noteq> Err errEnqueueFailed"
    by (cases k; auto simp: loop_defs event_defs typed_def loop_errors_wrapped split: option.splits)+
qed

lemma control_start: "control (Run_start db g n)"
  by (auto simp: control_def Run_start_def)

lemma all_done_worker: "all_done s \<Longrightarrow> i < length (workers s) \<Longrightarrow> workers s ! i = WDone"
  by (auto simp: all_done_def list_all_length)

lemma set_updateD: "w \<in> set (ws[i := w']) \<Longrightarrow> w = w' \<or> w \<in> set ws"
  using set_update_subset_insert [of ws i w'] by auto

lemma all_done_sets: "all_done s \<longleftrightarrow> producer s = PDone \<and> set (workers s) \<subseteq> {WDone}"
  by (auto simp: all_done_def list_all_iff)

lemma control_move:
  assumes "control s" and "\<not> panicked s" and "\<not> se_done env" and "move env s s'"
  shows "control s'"
  using assms(4)
proof (cases rule: move.cases)
  case (take i e es)
  with assms all_done_worker [of s i] show ?thesis by (auto simp: control_def dest!: set_updateD)
next
  case (worker_end i)
  with assms all_done_worker [of s i] show ?thesis by (auto simp: control_def dest!: set_updateD)
next
  case (do_err i e g r err')
  with assms all_done_worker [of s i] show ?thesis by (auto simp: control_def dest!: set_updateD)
next
  case (do_panic i e g m)
  with assms all_done_worker [of s i] show ?thesis by (auto simp: control_def all_done_def)
next
  case (do_ok i e g r)
  with assms all_done_worker [of s i] show ?thesis by (auto simp: control_def dest!: set_updateD)
next
  case (post_err i e r db err' err)
  with assms all_done_worker [of s i] show ?thesis by (auto simp: control_def dest!: set_updateD)
next
  case (post_panic i e r db m)
  with assms all_done_worker [of s i] show ?thesis by (auto simp: control_def all_done_def)
next
  case (post_ok i e r db r')
  with assms all_done_worker [of s i] show ?thesis by (auto simp: control_def dest!: set_updateD)
next
  case (complete i err)
  with assms all_done_worker [of s i] show ?thesis
    by (auto simp: control_def eventCompleted_def dest!: set_updateD nth_mem split: option.splits)
next
  case (worker_err i err)
  with assms all_done_worker [of s i] show ?thesis
    by (auto simp: control_def receive_def receiving_def dest!: set_updateD nth_mem split: if_splits)
qed (use assms in \<open>auto simp: control_def receive_def receiving_def all_done_def phase_errors_wrapped
    split: if_splits\<close>)

lemma set_update_keep: "w \<in> set ws \<Longrightarrow> w \<noteq> ws ! i \<Longrightarrow> w \<in> set (ws[i := w'])"
  by (metis in_set_conv_nth length_list_update nth_list_update_neq)

lemma failed_worker_update:
  assumes "\<exists>w\<in>set ws. worker_failed w" and "i < length ws" and "worker_failed (ws ! i) \<longrightarrow> worker_failed w'"
  shows "\<exists>w\<in>set (ws[i := w']). worker_failed w"
proof -
  obtain w where w: "w \<in> set ws" "worker_failed w" using assms(1) by blast
  show ?thesis
  proof (cases "w = ws ! i")
    case True
    then show ?thesis using assms w set_update_memI [OF assms(2), of w'] by blast
  next
    case False
    then show ?thesis using set_update_keep [OF w(1)] w(2) by blast
  qed
qed

lemma failed_move:
  assumes "control s" and "failed s" and "\<not> panicked s" and "move env s s'"
  shows "failed s'"
proof -
  have upd: "failed s'" if "i < length (workers s)" "workers s' = (workers s)[i := w]" "producer s' = producer s"
    "errs s' = errs s" "worker_failed (workers s ! i) \<longrightarrow> worker_failed w" for i w
    using assms(2,3) that failed_worker_update [OF _ that(1), of w] by (auto simp: failed_def)
  show ?thesis
    using assms(4)
  proof (cases rule: move.cases)
    case (take i e es)
    then show ?thesis by (intro upd [of i "WDo e"]) (simp_all add: worker_failed_def)
  next
    case (worker_end i)
    then show ?thesis by (intro upd [of i WDone]) (simp_all add: worker_failed_def)
  next
    case (do_err i e g r err' err)
    then show ?thesis by (intro upd [of i "WComplete (Some err)"]) (simp_all add: worker_failed_def)
  next
    case (do_ok i e g r)
    then show ?thesis by (intro upd [of i "WPost e r"]) (simp_all add: worker_failed_def)
  next
    case (post_err i e r db err' err)
    then show ?thesis by (intro upd [of i "WComplete (Some err)"]) (simp_all add: worker_failed_def)
  next
    case (post_ok i e r db r')
    then show ?thesis by (intro upd [of i "WComplete None"]) (simp_all add: worker_failed_def)
  next
    case (complete i err)
    then show ?thesis
      by (intro upd [of i "case err of None \<Rightarrow> WIdle | Some e \<Rightarrow> WFail e"])
        (simp_all add: worker_failed_def eventCompleted_def split: option.splits)
  next
    case (worker_err i err)
    then have "WFail err \<in> set (workers s)" by (metis nth_mem)
    with worker_err assms(1) show ?thesis by (auto simp: failed_def receive_def control_def)
  qed (use assms(1-3) in \<open>auto simp: control_def failed_def receive_def\<close>)
qed

text \<open>Workers end only when the channel is closed and empty, or with an error.\<close>

definition drained :: "('db, 'g) Syncer \<Rightarrow> bool" where
  "drained s \<longleftrightarrow> (\<not> failed s \<and> WDone \<in> set (workers s) \<longrightarrow> eventChan s = [] \<and> producer s = PDone)"

lemma drained_move:
  assumes "control s" and "drained s" and "\<not> panicked s" and "move env s s'"
  shows "drained s'"
proof (cases "failed s")
  case True
  then show ?thesis using failed_move [OF assms(1) True assms(3,4)] by (simp add: drained_def)
next
  case False
  show ?thesis
    using assms(4)
  proof (cases rule: move.cases)
    case (worker_err i err)
    then have "WFail err \<in> set (workers s)" by (metis nth_mem)
    with False show ?thesis by (auto simp: failed_def worker_failed_def)
  next
    case (complete i err)
    then have "err = None" using False nth_mem [OF complete(2)] by (cases err) (auto simp: failed_def worker_failed_def)
    with complete False assms(2) show ?thesis
      by (auto simp: drained_def eventCompleted_def failed_def dest!: set_updateD)
  qed (use False assms(1,2) in \<open>auto simp: drained_def control_def failed_def receive_def dest!: set_updateD\<close>)
qed

end
