(* ===== verification/Sync_Converge.thy ===== *)
theory Sync_Converge
  imports Sync_Events
begin

text \<open>
  Correctness of a run under every interleaving. The outstanding events always fit the contents of the
  two states and concern different keys, so applying any of them in any order is right; the loops that
  are over are covered up to the outstanding events; and \<open>Run\<close> returns without errors only when
  nothing is outstanding. Hence a run that reports no error has made the contents of the current state
  those of the target state, and at no time does a key hold anything but its old content or that of the
  target.
\<close>

section \<open>The data of a run\<close>

lemma covered_settled:
  assumes "A (kind_name k) i = Some m'" and "msg_same m' m" and "T (kind_name k) i = Some m"
    and "covered A T (insert (kind_name k, i) S) (CreateUpdate k)"
  shows "covered A T S (CreateUpdate k)"
proof -
  have "(kind_name k, j) \<in> S \<or> (\<exists>m'. A (kind_name k) j = Some m' \<and> msg_same m' n)" if "T (kind_name k) j = Some n" for j n
    using assms that by (cases "j = i") auto
  then show ?thesis by simp
qed

fun todo :: "producer \<Rightarrow> obj list" where
  "todo (PScan p xs ps) = xs"
| "todo (PQueue e p xs ps) = xs"
| "todo _ = []"

fun current_phase :: "producer \<Rightarrow> phase option" where
  "current_phase (PScan p xs ps) = Some p"
| "current_phase (PQueue e p xs ps) = Some p"
| "current_phase _ = None"

fun remaining :: "producer \<Rightarrow> phase set" where
  "remaining (PNext ps) = set ps"
| "remaining (PScan p xs ps) = set ps"
| "remaining (PQueue e p xs ps) = set ps"
| "remaining (PWait ps) = set ps"
| "remaining _ = {}"

text \<open>The keys of the entities a loop has still to look at.\<close>

definition scan_keys :: "phase \<Rightarrow> obj list \<Rightarrow> (string \<times> string) set" where
  "scan_keys p xs = (\<lambda>x. (phase_table p, msg_key (obj_msg x))) ` set xs"

lemma scan_keys_Cons [simp]:
  "scan_keys p (x # xs) = insert (phase_table p, msg_key (obj_msg x)) (scan_keys p xs)"
  by (simp add: scan_keys_def)

definition todo_keys :: "producer \<Rightarrow> phase \<Rightarrow> (string \<times> string) set" where
  "todo_keys pr q = (if current_phase pr = Some q then scan_keys q (todo pr) else {})"

definition todo_ok :: "tag set \<Rightarrow> (string \<Rightarrow> string \<rightharpoonup> wire) \<Rightarrow> (string \<Rightarrow> string \<rightharpoonup> wire) \<Rightarrow> phase \<Rightarrow> obj list \<Rightarrow> bool" where
  "todo_ok U A T p xs \<longleftrightarrow> distinct (map (\<lambda>x. msg_key (obj_msg x)) xs) \<and>
     (\<forall>x\<in>set xs. entity_ok U x \<and> obj_table x = phase_table p \<and>
        phase_db p A T (phase_table p) (msg_key (obj_msg x)) = Some (obj_msg x))"

abbreviation out_keys :: "('db, 'g) Syncer \<Rightarrow> (string \<times> string) set" where
  "out_keys s \<equiv> ev_key ` set_mset (outstanding s)"

definition scan_ok :: "tag set \<Rightarrow> (string \<Rightarrow> string \<rightharpoonup> wire) \<Rightarrow> (string \<Rightarrow> string \<rightharpoonup> wire) \<Rightarrow> ('db, 'g) Syncer \<Rightarrow> bool" where
  "scan_ok U A T s \<longleftrightarrow> (\<forall>p. current_phase (producer s) = Some p \<longrightarrow>
     todo_ok U A T p (todo (producer s)) \<and> scan_keys p (todo (producer s)) \<inter> out_keys s = {})"

definition results_ok :: "('db, 'g) Syncer \<Rightarrow> bool" where
  "results_ok s \<longleftrightarrow> (\<forall>e r. WPost e r \<in> set (workers s) \<longrightarrow>
     (\<exists>x. r = AObj x \<and> obj_msg x = obj_msg (Ev_Obj e) \<and> key_ok x))"

definition coverage :: "(string \<Rightarrow> string \<rightharpoonup> wire) \<Rightarrow> (string \<Rightarrow> string \<rightharpoonup> wire) \<Rightarrow> ('db, 'g) Syncer \<Rightarrow> bool" where
  "coverage A T s \<longleftrightarrow> failed s \<or> (\<forall>q\<in>set (createUpdateList @ deleteList).
     q \<in> remaining (producer s) \<or> covered A T (out_keys s \<union> todo_keys (producer s) q) q)"

text \<open>
  What a run relies on: the environment is the one \<open>NewSyncer\<close> builds, \<open>done\<close> is never closed, the
  target state is good and coherently tagged, and where \<open>d\<close> returns an object it is the object of the
  event, with the same message.
\<close>

locale sync_run = manba_db D rows inv C
  for D :: "('db, obj) memdb" and rows :: "'db \<Rightarrow> string \<Rightarrow> string \<rightharpoonup> obj"
    and inv :: "'db \<Rightarrow> bool" and C :: "'w codecs" +
  fixes env :: "('w, 'db, 'g) syncer_env" and U :: "tag set"
  assumes env: "se_codecs env = C" "se_memdb env = D" "NewPostProcess C D = Ok (postProcess env)" "\<not> se_done env"
    and target: "good (targetState env)" "filed U (rows (targetState env))"
    and coherent: "coherent U"
    and faithful: "se_do env (AEvent e) g = (g', Ok r) \<Longrightarrow> Ev_Kind e = obj_table (Ev_Obj e) \<Longrightarrow>
      entity_ok U (Ev_Obj e) \<Longrightarrow> r = ANil \<or> (\<exists>x. r = AObj x \<and> obj_msg x = obj_msg (Ev_Obj e) \<and> key_ok x)"
begin

abbreviation T :: "string \<Rightarrow> string \<rightharpoonup> wire" where
  "T \<equiv> contents (rows (targetState env))"

abbreviation A :: "('db, 'g) Syncer \<Rightarrow> string \<Rightarrow> string \<rightharpoonup> wire" where
  "A s \<equiv> contents (rows (currentState s))"

lemma fits_post:
  assumes "fits U (contents (rows db)) T e" "obj_msg x = obj_msg (Ev_Obj e)"
  shows "obj_table x = Ev_Kind e" "msg_tag (obj_msg x) \<in> U" "msg_valid (obj_msg x)" "Ev_Op e \<in> {Create, Update, Delete}"
    "contents (rows db) (obj_table x) (msg_key (obj_msg x)) = None \<longleftrightarrow> Ev_Op e = Create"
proof -
  show t: "obj_table x = Ev_Kind e" using assms by (metis fits_def msg_table_obj)
  show "msg_tag (obj_msg x) \<in> U" "msg_valid (obj_msg x)" "Ev_Op e \<in> {Create, Update, Delete}"
    using assms by (auto simp: fits_def entity_ok_def Let_def)
  show "contents (rows db) (obj_table x) (msg_key (obj_msg x)) = None \<longleftrightarrow> Ev_Op e = Create"
    using assms t by (auto simp: fits_def Let_def op_defs)
qed

lemma post_fits_ok:
  assumes "good db" "filed U (rows db)" "fits U (contents (rows db)) T e" "obj_msg x = obj_msg (Ev_Obj e)" "key_ok x"
    and "Ev_Op e = Update \<Longrightarrow> Ev_Kind e \<noteq> ''bind'' \<or> obj_key x \<noteq> []"
  shows "\<exists>db'. Registry_Do (postProcess env) (Ev_Kind e) (Ev_Op e) (AObj x) db = (db', Ok ANil) \<and> good db' \<and>
      filed U (rows db') \<and> contents (rows db') = apply_event e (contents (rows db))"
proof -
  note x = fits_post [OF assms(3,4)]
  show ?thesis
    using post_spec [OF env(3) assms(1) coherent assms(2) x(2,3) assms(5) x(4,5)] x(1) assms(4,6)
    by (auto simp: apply_event_def)
qed

lemma post_fits:
  assumes "good db" "filed U (rows db)" "fits U (contents (rows db)) T e" "obj_msg x = obj_msg (Ev_Obj e)" "key_ok x"
  shows "(\<exists>db'. Registry_Do (postProcess env) (Ev_Kind e) (Ev_Op e) (AObj x) db = (db', Ok ANil) \<and> good db' \<and>
      filed U (rows db') \<and> contents (rows db') = apply_event e (contents (rows db))) \<or>
    (\<exists>err. Registry_Do (postProcess env) (Ev_Kind e) (Ev_Op e) (AObj x) db = (db, Err err))"
proof (cases "Ev_Op e = Update \<and> Ev_Kind e = ''bind'' \<and> obj_key x = []")
  case True
  note x = fits_post [OF assms(3,4)]
  from True obtain y where y: "rows db (obj_table x) (msg_key (obj_msg x)) = Some y"
    using x(5) by (auto simp: contents_def op_defs)
  have "Create \<noteq> Update" by (simp add: op_defs)
  then have "op_action (obj_action C D x) (Ev_Op e) (AObj x) db = (db, Err errIDRequired)"
    using obj_Update [OF assms(1) coherent assms(2) x(2,3) assms(5) y] True x(1) by (simp add: op_action_def)
  then show ?thesis
    using Registry_Do_known [OF Registry_Get_post [OF env(3)] x(4), of x "AObj x" db] x(1) by auto
next
  case False
  then show ?thesis using post_fits_ok [OF assms] by blast
qed

definition data :: "('db, 'g) Syncer \<Rightarrow> bool" where
  "data s \<longleftrightarrow> good (currentState s) \<and> filed U (rows (currentState s)) \<and>
     (\<forall>e\<in>#outstanding s. fits U (A s) T e) \<and> keys_differ (outstanding s) \<and> scan_ok U (A s) T s \<and>
     (\<forall>ps. producer s = PNext ps \<longrightarrow> outstanding s = {#}) \<and> results_ok s \<and> coverage (A s) T s"

lemma dataD:
  assumes "data s"
  shows "good (currentState s)" "filed U (rows (currentState s))" "e \<in># outstanding s \<Longrightarrow> fits U (A s) T e"
    "keys_differ (outstanding s)" "scan_ok U (A s) T s" "results_ok s" "coverage (A s) T s"
    "producer s = PNext ps \<Longrightarrow> outstanding s = {#}"
  using assms by (auto simp: data_def)

text \<open>Moves that leave the contents, the outstanding events and the producer alone.\<close>

lemma data_keep:
  assumes "data s" and "currentState s' = currentState s" and "outstanding s' = outstanding s"
    and "producer s' = producer s" and "failed s \<Longrightarrow> failed s'" and "results_ok s'"
  shows "data s'"
  using assms by (auto simp: data_def scan_ok_def coverage_def)

text \<open>Moves after which the run has failed may lose events.\<close>

lemma data_fail:
  assumes "data s" and "currentState s' = currentState s" and "outstanding s' \<subseteq># outstanding s"
    and "current_phase (producer s') \<noteq> None \<Longrightarrow> producer s' = producer s" and "failed s'" and "results_ok s'"
    and "\<And>ps. producer s' = PNext ps \<Longrightarrow> producer s = PNext ps"
  shows "data s'"
proof -
  have "\<exists>M. outstanding s = M + outstanding s'" using assms(3) by (metis subset_mset.le_iff_add union_commute)
  then have "keys_differ (outstanding s')"
    using dataD(4) [OF assms(1)] by (auto simp: keys_differ_def) (meson le_add2 order_trans)
  moreover have sub: "set_mset (outstanding s') \<subseteq> set_mset (outstanding s)" using assms(3) by (rule set_mset_mono)
  moreover have "scan_ok U (A s') T s'"
    using dataD(5) [OF assms(1)] assms(2,4) sub by (fastforce simp: scan_ok_def)
  moreover have "\<forall>ps. producer s' = PNext ps \<longrightarrow> outstanding s' = {#}"
    using dataD(8) [OF assms(1)] assms(3,7) by auto
  ultimately show ?thesis using assms dataD [OF assms(1)] by (auto simp: data_def coverage_def)
qed

text \<open>The moves of the producer.\<close>

lemma fetch_ok:
  assumes "data s"
  shows "\<exists>xs. lp_fetch (phase_loop (se_codecs env) (se_memdb env) p) (currentState s) (targetState env) = Ok xs \<and>
    todo_ok U (A s) T p xs \<and> covered (A s) T (scan_keys p xs) p"
proof -
  let ?db = "phase_db p (currentState s) (targetState env)"
  have ok: "good ?db" "filed U (rows ?db)" and c: "contents (rows ?db) = phase_db p (A s) T"
    using dataD(1,2) [OF assms] target by (cases p; simp)+
  obtain xs where xs: "lp_fetch (phase_loop C D p) (currentState s) (targetState env) = Ok xs"
      "\<forall>x\<in>set xs. entity_ok U x \<and> obj_table x = phase_table p" "distinct (map (\<lambda>x. msg_key (obj_msg x)) xs)"
      "obj_msg ` set xs = ran (phase_db p (A s) T (phase_table p))"
    using phase_fetch_content [OF refl ok] c by auto
  have key: "phase_db p (A s) T (phase_table p) i = Some m \<Longrightarrow> msg_key m = i" for i m
    using filed_contents [OF ok(2)] c by simp
  have "phase_db p (A s) T (phase_table p) (msg_key (obj_msg x)) = Some (obj_msg x)" if "x \<in> set xs" for x
    using xs(4) that key by (force simp: ran_def)
  moreover have "(phase_table p, i) \<in> scan_keys p xs" if m: "phase_db p (A s) T (phase_table p) i = Some m" for i m
  proof -
    have "m \<in> obj_msg ` set xs" unfolding xs(4) using m by (auto simp: ran_def)
    with key [OF m] show ?thesis by (auto simp: scan_keys_def)
  qed
  then have "covered (A s) T (scan_keys p xs) p" by (cases p) auto
  ultimately show ?thesis using xs(1-3) env by (auto simp: todo_ok_def)
qed

lemma scan_event:
  assumes "data s" and "producer s = PScan p (x # xs) ps"
  shows "\<exists>v. lp_event (phase_loop (se_codecs env) (se_memdb env) p) (currentState s) (targetState env) x = Ok v \<and>
    (case v of
       None \<Rightarrow> covered (A s) T (insert (phase_table p, msg_key (obj_msg x)) S) p \<longrightarrow> covered (A s) T S p
     | Some e \<Rightarrow> fits U (A s) T e \<and> ev_key e = (phase_table p, msg_key (obj_msg x)))"
proof -
  have x: "entity_ok U x" "obj_table x = phase_table p"
      "phase_db p (A s) T (phase_table p) (msg_key (obj_msg x)) = Some (obj_msg x)"
    using dataD(5) [OF assms(1)] assms(2) by (auto simp: scan_ok_def todo_ok_def)
  have ent: "entity_ok U (Ev_Obj e)" if "event_for k (obj_msg x) e" for k e
    using that x(1) by (simp add: event_for_def entity_ok_def)
  show ?thesis
  proof (cases p)
    case (CreateUpdate k)
    from createUpdate_phase [OF dataD(1) [OF assms(1)] coherent dataD(2) [OF assms(1)] x(1), of k "targetState env"]
    obtain v where v: "lp_event (phase_loop C D p) (currentState s) (targetState env) x = Ok v"
        "createUpdate_ok k (A s (kind_name k) (msg_key (obj_msg x))) (obj_msg x) v"
      using x(2) CreateUpdate by auto
    show ?thesis
    proof (cases "A s (kind_name k) (msg_key (obj_msg x))")
      case None
      then obtain e where "v = Some e" "Ev_Op e = Create" "event_for k (obj_msg x) e" using v(2) by auto
      then show ?thesis
        using v(1) env x(3) None CreateUpdate ent
        by (auto simp: fits_def ev_key_def event_for_def Let_def)
    next
      case (Some m)
      show ?thesis
      proof (cases "msg_same m (obj_msg x)")
        case True
        with Some v(2) have "v = None" by simp
        then show ?thesis using v(1) env CreateUpdate x(3)
          by (auto simp del: covered.simps intro: covered_settled [of "A s" k, OF Some True])
      next
        case False
        with Some v(2) obtain e where "v = Some e" "Ev_Op e = Update" "event_for k (obj_msg x) e" by auto
        then show ?thesis
          using v(1) env x(3) Some CreateUpdate ent by (auto simp: fits_def ev_key_def event_for_def Let_def)
      qed
    qed
  next
    case (Remove k)
    from remove_phase [OF target(1) coherent target(2) x(1), of k "currentState s"]
    obtain v where v: "lp_event (phase_loop C D p) (currentState s) (targetState env) x = Ok v"
        "remove_ok k (T (kind_name k) (msg_key (obj_msg x))) (obj_msg x) v"
      using x(2) Remove by auto
    show ?thesis
    proof (cases "T (kind_name k) (msg_key (obj_msg x))")
      case None
      then obtain e where "v = Some e" "Ev_Op e = Delete" "event_for k (obj_msg x) e" using v(2) by auto
      then show ?thesis
        using v(1) env x(3) None Remove ent by (auto simp: fits_def ev_key_def event_for_def Let_def)
    next
      case (Some m)
      then show ?thesis using v env Remove by auto
    qed
  qed
qed

lemma data_fetch:
  assumes "data s" and "producer s = PNext (p # ps)"
    and "lp_fetch (phase_loop (se_codecs env) (se_memdb env) p) (currentState s) (targetState env) = Ok xs"
  shows "data (s\<lparr>producer := PScan p xs ps\<rparr>)" (is "data ?s")
proof -
  have out: "outstanding s = {#}" using dataD(8) [OF assms(1,2)] .
  then have out': "outstanding ?s = {#}" by (simp add: outstanding_def)
  have xs: "todo_ok U (A s) T p xs" "covered (A s) T (scan_keys p xs) p" using fetch_ok [OF assms(1), of p] assms(3) by auto
  have "coverage (A s) T ?s"
    using dataD(7) [OF assms(1)] xs(2) assms(2) out out' by (auto simp: coverage_def failed_def todo_keys_def)
  then show ?thesis
    using dataD [OF assms(1)] xs(1) out out'
    by (auto simp: data_def scan_ok_def results_ok_def)
qed

lemma data_scan_none:
  assumes "data s" and p: "producer s = PScan p (x # xs) ps"
    and "lp_event (phase_loop (se_codecs env) (se_memdb env) p) (currentState s) (targetState env) x = Ok None"
  shows "data (s\<lparr>producer := PScan p xs ps\<rparr>)" (is "data ?s")
proof -
  have out: "outstanding ?s = outstanding s" using p by (simp add: outstanding_def)
  have "covered (A s) T (insert (phase_table p, msg_key (obj_msg x)) S) p \<Longrightarrow> covered (A s) T S p" for S
    using scan_event [OF assms(1) p, of S] assms(3) by simp
  then have "coverage (A s) T ?s"
    using dataD(7) [OF assms(1)] p out by (auto simp: coverage_def failed_def todo_keys_def)
  moreover have "scan_ok U (A s) T ?s"
    using dataD(5) [OF assms(1)] p out by (auto simp: scan_ok_def todo_ok_def)
  ultimately show ?thesis
    using dataD [OF assms(1)] out by (auto simp: data_def results_ok_def)
qed

lemma data_scan_some:
  assumes "data s" and p: "producer s = PScan p (x # xs) ps"
    and "lp_event (phase_loop (se_codecs env) (se_memdb env) p) (currentState s) (targetState env) x = Ok (Some e)"
  shows "data (s\<lparr>InFlightOps := c, producer := PQueue e p xs ps\<rparr>)" (is "data ?s")
proof -
  have out: "outstanding ?s = add_mset e (outstanding s)" using p by (simp add: outstanding_def)
  have e: "fits U (A s) T e" "ev_key e = (phase_table p, msg_key (obj_msg x))"
    using scan_event [OF assms(1) p, of "{}"] assms(3) by auto
  have todo: "todo_ok U (A s) T p (x # xs)" "scan_keys p (x # xs) \<inter> out_keys s = {}"
    using dataD(5) [OF assms(1)] p by (auto simp: scan_ok_def)
  have "ev_key e \<notin> scan_keys p xs" using todo(1) e(2) by (auto simp: todo_ok_def scan_keys_def)
  then have "scan_ok U (A s) T ?s" using todo out by (auto simp: scan_ok_def todo_ok_def)
  moreover have "keys_differ (outstanding ?s)"
    using dataD(4) [OF assms(1)] todo(2) e(2) unfolding out keys_differ_add by auto
  moreover have "coverage (A s) T ?s"
  proof -
    have "out_keys ?s \<union> todo_keys (producer ?s) q \<supseteq> out_keys s \<union> todo_keys (producer s) q" for q
      using p out e(2) by (auto simp: todo_keys_def)
    then show ?thesis
      using dataD(7) [OF assms(1)] p covered_mono by (auto simp: coverage_def failed_def)
  qed
  ultimately show ?thesis
    using dataD [OF assms(1)] out e(1) by (auto simp: data_def results_ok_def)
qed

text \<open>A post action on an outstanding event never panics, and where it fails the state stays.\<close>

lemma posting:
  assumes "data s" and i: "i < length (workers s)" "workers s ! i = WPost e r"
  shows "fits U (A s) T e" "\<exists>x. r = AObj x \<and> obj_msg x = obj_msg (Ev_Obj e) \<and> key_ok x"
proof -
  have "worker_events (workers s ! i) \<subseteq># outstanding s"
    using worker_events_nth [OF i(1)] by (auto simp: outstanding_def intro: subset_mset.order_trans)
  then show "fits U (A s) T e" using i(2) dataD(3) [OF assms(1)] by simp
  have "WPost e r \<in> set (workers s)" using i by (metis nth_mem)
  then show "\<exists>x. r = AObj x \<and> obj_msg x = obj_msg (Ev_Obj e) \<and> key_ok x"
    using dataD(6) [OF assms(1)] by (auto simp: results_ok_def)
qed

lemma post_outcome:
  assumes "data s" and i: "i < length (workers s)" "workers s ! i = WPost e r"
  shows "(\<exists>db. Registry_Do (postProcess env) (Ev_Kind e) (Ev_Op e) r (currentState s) = (db, Ok ANil) \<and> good db \<and>
      filed U (rows db) \<and> contents (rows db) = apply_event e (A s)) \<or>
    (\<exists>err. Registry_Do (postProcess env) (Ev_Kind e) (Ev_Op e) r (currentState s) = (currentState s, Err err))"
proof -
  note p = posting [OF assms]
  from p(2) obtain x where x: "r = AObj x" "obj_msg x = obj_msg (Ev_Obj e)" "key_ok x" by blast
  from post_fits [OF dataD(1,2) [OF assms(1)] p(1) x(2,3)] x(1) show ?thesis by blast
qed

text \<open>A post action that succeeds settles its event.\<close>

lemma data_post_ok:
  assumes "data s" and i: "i < length (workers s)" "workers s ! i = WPost e r"
    and "Registry_Do (postProcess env) (Ev_Kind e) (Ev_Op e) r (currentState s) = (db, Ok r')"
  shows "data (s\<lparr>currentState := db, workers := (workers s)[i := WComplete None]\<rparr>)" (is "data ?s")
proof -
  have out: "outstanding s = add_mset e (outstanding ?s)"
    using worker_events_update [OF i(1), of "WComplete None"] i(2) by (simp add: outstanding_def)
  note fit = posting(1) [OF assms(1) i]
  have db: "good db" "filed U (rows db)" and A: "A ?s = apply_event e (A s)"
    using post_outcome [OF assms(1) i] assms(4) by auto
  have ne: "ev_key e \<notin> out_keys ?s" and kd: "keys_differ (outstanding ?s)"
    using dataD(4) [OF assms(1)] unfolding out keys_differ_add by auto
  have "fits U (A ?s) T e'" if "e' \<in># outstanding ?s" for e'
  proof -
    have "ev_key e' \<noteq> ev_key e" using that ne by (metis imageI)
    with that dataD(3) [OF assms(1), of e'] out show ?thesis unfolding A by (auto intro!: fits_other)
  qed
  moreover have "scan_ok U (A ?s) T ?s"
  proof -
    have "todo_ok U (apply_event e (A s)) T p (todo (producer s)) \<and> scan_keys p (todo (producer s)) \<inter> out_keys ?s = {}"
      if "current_phase (producer s) = Some p" for p
    proof -
      have t: "todo_ok U (A s) T p (todo (producer s))" "scan_keys p (todo (producer s)) \<inter> insert (ev_key e) (out_keys ?s) = {}"
        using dataD(5) [OF assms(1)] that out by (auto simp: scan_ok_def)
      have "apply_event e (A s) (phase_table p) (msg_key (obj_msg x)) = A s (phase_table p) (msg_key (obj_msg x))"
        if "x \<in> set (todo (producer s))" for x
        using t(2) that by (intro apply_event_other) (force simp: scan_keys_def)
      with t show ?thesis by (cases p) (auto simp: todo_ok_def)
    qed
    then show ?thesis unfolding A by (simp add: scan_ok_def)
  qed
  moreover have "coverage (A ?s) T ?s"
  proof (cases "failed s")
    case True
    then have "failed ?s" using failed_worker_update [OF _ i(1), of "WComplete None"] i(2)
      by (auto simp: failed_def worker_failed_def)
    then show ?thesis by (simp add: coverage_def)
  next
    case False
    have "out_keys s = insert (ev_key e) (out_keys ?s)" unfolding out by simp
    with False dataD(7) [OF assms(1)]
    have "q \<in> remaining (producer s) \<or> covered (A s) T (insert (ev_key e) (out_keys ?s \<union> todo_keys (producer s) q)) q"
      if "q \<in> set (createUpdateList @ deleteList)" for q
      using that by (auto simp: coverage_def)
    then show ?thesis unfolding A coverage_def using covered_apply [OF fit] by auto
  qed
  moreover have "results_ok ?s" using dataD(6) [OF assms(1)] by (auto simp: results_ok_def dest!: set_updateD)
  moreover have "\<forall>ps. producer ?s = PNext ps \<longrightarrow> outstanding ?s = {#}" using dataD(8) [OF assms(1)] out by auto
  ultimately show ?thesis using db kd by (simp add: data_def)
qed

lemma outstanding_worker:
  assumes "i < length (workers s)" and "workers s' = (workers s)[i := w]" and "eventChan s' = eventChan s"
    and "producer s' = producer s"
  shows "outstanding s' + worker_events (workers s ! i) = outstanding s + worker_events w"
  using worker_events_update [OF assms(1), of w] assms(2-4) by (simp add: outstanding_def ac_simps)

lemma results_update:
  assumes "results_ok s" and "workers s' = (workers s)[i := w]"
    and "\<And>e r. w = WPost e r \<Longrightarrow> \<exists>x. r = AObj x \<and> obj_msg x = obj_msg (Ev_Obj e) \<and> key_ok x"
  shows "results_ok s'"
  using assms by (auto simp: results_ok_def dest!: set_updateD)

text \<open>Moves of the producer between loops.\<close>

lemma data_between:
  assumes "data s" and "current_phase pr = None" and "producer_events pr = {#}" "producer_events (producer s) = {#}"
    and "remaining pr = remaining (producer s)" and "\<And>q. todo_keys (producer s) q = {}"
    and "\<And>err. producer s \<noteq> PFail err" and "\<And>ps. pr = PNext ps \<Longrightarrow> outstanding s = {#}"
  shows "data (s\<lparr>eventClosed := c, producer := pr\<rparr>)" (is "data ?s")
proof -
  have "outstanding ?s = outstanding s" using assms(3,4) by (simp add: outstanding_def)
  moreover have "todo_keys pr q = {}" for q using assms(2) by (simp add: todo_keys_def)
  moreover have "failed s \<Longrightarrow> failed ?s" using assms(7) by (auto simp: failed_def)
  ultimately show ?thesis
    using assms by (auto simp: data_def scan_ok_def results_ok_def coverage_def)
qed

text \<open>A worker that fails loses its event.\<close>

lemma data_lose:
  assumes "data s" and i: "i < length (workers s)" and w: "workers s' = (workers s)[i := WComplete (Some err)]"
    and eq: "eventChan s' = eventChan s" "producer s' = producer s" "currentState s' = currentState s"
  shows "data s'"
proof (rule data_fail [OF assms(1) eq(3)])
  have "outstanding s' + worker_events (workers s ! i) = outstanding s"
    using outstanding_worker [OF i w eq(1,2)] by simp
  then show "outstanding s' \<subseteq># outstanding s" by (metis mset_subset_eq_add_left)
  show "failed s'" using set_update_memI [OF i] by (auto simp: failed_def worker_failed_def w)
  show "results_ok s'" by (rule results_update [OF dataD(6) [OF assms(1)] w]) simp
qed (use eq in simp_all)

lemma data_move:
  assumes "data s" and "control s" and "counted n s" and "n + 12 < 2 ^ 32" and np: "\<not> panicked s" and m: "move env s s'"
  shows "data s'"
proof -
  note fail = failed_move [OF assms(2) _ np m]
  show ?thesis
    using m
  proof (cases rule: move.cases)
    case loops_end
    then show ?thesis using data_between [OF assms(1), of PClose "eventClosed s"] by (simp add: todo_keys_def)
  next
    case (fetch p ps xs)
    then show ?thesis using data_fetch [OF assms(1)] by simp
  next
    case (fetch_err p ps err)
    then show ?thesis using fetch_ok [OF assms(1), of p] by simp
  next
    case (fetch_panic p ps m)
    then show ?thesis using fetch_ok [OF assms(1), of p] by simp
  next
    case (scan_end p ps)
    then show ?thesis
      using data_between [OF assms(1), of "PWait ps" "eventClosed s"] by (simp add: todo_keys_def scan_keys_def)
  next
    case (scan_none p x xs ps)
    then show ?thesis using data_scan_none [OF assms(1)] by simp
  next
    case (scan_some p x xs ps e)
    then show ?thesis using data_scan_some [OF assms(1)] by simp
  next
    case (scan_err p x xs ps err)
    then show ?thesis using scan_event [OF assms(1), of p x xs ps "{}"] by auto
  next
    case (scan_panic p x xs ps m)
    then show ?thesis using scan_event [OF assms(1), of p x xs ps "{}"] by auto
  next
    case (queue_send e p xs ps)
    then have "outstanding s' = outstanding s" by (simp add: outstanding_def)
    with queue_send assms(1) show ?thesis
      by (auto simp: data_def scan_ok_def results_ok_def coverage_def failed_def todo_keys_def)
  next
    case (queue_stop e p xs ps)
    then show ?thesis
      using dataD(6) [OF assms(1)]
      by (intro data_fail [OF assms(1)]) (auto simp: outstanding_def failed_def results_ok_def)
  next
    case (wait_over ps)
    have "outstanding s = {#}" by (rule pending_outstanding [OF counted_zero [OF assms(3,4) wait_over(3)]])
    then show ?thesis
      using data_between [OF assms(1), of "PNext ps" "eventClosed s"] wait_over by (simp add: todo_keys_def)
  next
    case close_events
    then show ?thesis using data_between [OF assms(1), of PDone True] by (simp add: todo_keys_def)
  next
    case (producer_err err)
    then have "failed s" by (auto simp: failed_def)
    with producer_err fail show ?thesis
      using dataD(6) [OF assms(1)]
      by (intro data_fail [OF assms(1)]) (auto simp: outstanding_def receive_def results_ok_def)
  next
    case (take i e es)
    have "outstanding s' = outstanding s"
      using worker_events_update [OF take(2), of "WDo e"] take by (simp add: outstanding_def)
    with take fail show ?thesis
      by (intro data_keep [OF assms(1)]) (auto intro: results_update [OF dataD(6) [OF assms(1)]])
  next
    case (worker_end i)
    then show ?thesis
      using outstanding_worker [OF worker_end(2), of s' WDone] fail
      by (intro data_keep [OF assms(1)]) (auto intro: results_update [OF dataD(6) [OF assms(1)]])
  next
    case (do_err i e g r err' err)
    then show ?thesis by (intro data_lose [OF assms(1) do_err(2), of s' err]) simp_all
  next
    case (do_panic i e g m)
    then show ?thesis
      using dataD(6) [OF assms(1)] by (intro data_fail [OF assms(1)]) (auto simp: outstanding_def failed_def results_ok_def)
  next
    case (do_ok i e g r)
    have "outstanding s' = outstanding s"
      using outstanding_worker [OF do_ok(2), of s' "WPost e r"] do_ok by simp
    moreover have "worker_events (workers s ! i) \<subseteq># outstanding s"
      using worker_events_nth [OF do_ok(2)] by (auto simp: outstanding_def intro: subset_mset.order_trans)
    then have "fits U (A s) T e" using do_ok(3) dataD(3) [OF assms(1)] by simp
    then have "\<exists>x. r = AObj x \<and> obj_msg x = obj_msg (Ev_Obj e) \<and> key_ok x"
      using faithful [OF do_ok(4)] do_ok(5) by (auto simp: fits_def Let_def)
    ultimately show ?thesis
      using do_ok fail by (intro data_keep [OF assms(1)]) (auto intro: results_update [OF dataD(6) [OF assms(1)]])
  next
    case (post_err i e r db err' err)
    moreover have "db = currentState s" using post_outcome [OF assms(1) post_err(2,3)] post_err(4) by auto
    ultimately show ?thesis by (intro data_lose [OF assms(1) post_err(2), of s' err]) simp_all
  next
    case (post_panic i e r db m)
    then show ?thesis using post_outcome [OF assms(1) post_panic(2,3)] by auto
  next
    case (post_ok i e r db r')
    then show ?thesis using data_post_ok [OF assms(1)] by simp
  next
    case (complete i err)
    have "outstanding s' = outstanding s"
      using outstanding_worker [OF complete(2), of s' "case err of None \<Rightarrow> WIdle | Some e \<Rightarrow> WFail e"] complete
      by (simp add: eventCompleted_def split: option.splits)
    with complete fail show ?thesis
      by (intro data_keep [OF assms(1)])
        (auto simp: eventCompleted_def split: option.splits intro!: results_update [OF dataD(6) [OF assms(1)]])
  next
    case (worker_err i err)
    have "outstanding s' = outstanding s"
      using outstanding_worker [OF worker_err(2), of s' WDone] worker_err by (simp add: receive_def)
    with worker_err fail show ?thesis
      by (intro data_keep [OF assms(1)]) (auto simp: receive_def intro!: results_update [OF dataD(6) [OF assms(1)]])
  qed (use fail dataD(6) [OF assms(1)] in \<open>intro data_keep [OF assms(1)]; auto simp: outstanding_def results_ok_def\<close>)+
qed

lemma data_start:
  assumes "good db" "filed U (rows db)"
  shows "data (Run_start db g n)"
proof -
  have "outstanding (Run_start db g n) = {#}"
    by (simp add: outstanding_def Run_start_def no_worker_events)
  moreover have "results_ok (Run_start db g n)" by (auto simp: results_ok_def Run_start_def)
  ultimately show ?thesis
    using assms by (auto simp: data_def scan_ok_def coverage_def keys_differ_def Run_start_def)
qed

definition run_inv :: "nat \<Rightarrow> ('db, 'g) Syncer \<Rightarrow> bool" where
  "run_inv n s \<longleftrightarrow> data s \<and> control s \<and> drained s \<and> counted n s"

lemma run_inv_reaches:
  assumes "good db" "filed U (rows db)" "0 < n" "n + 12 < 2 ^ 32" and r: "reaches env (Run_start db g n) s"
  shows "run_inv n s"
proof (rule reaches_invariant [OF r])
  show "run_inv n (Run_start db g n)"
    unfolding run_inv_def
    by (intro conjI data_start [OF assms(1,2)] control_start counted_start) (simp add: drained_def Run_start_def)
next
  fix s s' assume "run_inv n s" "\<not> panicked s" "move env s s'"
  then show "run_inv n s'"
    using data_move [OF _ _ _ assms(4)] control_move [OF _ _ env(4)] drained_move counted_move
    by (auto simp: run_inv_def)
qed

lemma inv_converged:
  assumes "run_inv n s" "0 < n" and "main_pc s = MReturn" "errs s = []"
  shows "same_contents (A s) T \<and> good (currentState s) \<and> filed U (rows (currentState s))"
proof -
  have d: "all_done s" using assms(1,3) by (auto simp: run_inv_def control_def)
  have len: "workers s \<noteq> []" using assms(1,2) by (auto simp: run_inv_def counted_def)
  have nf: "\<not> failed s"
    using assms(1,4) d by (auto simp: run_inv_def control_def failed_def all_done_sets worker_failed_def)
  have ws: "set (workers s) = {WDone}" using d len by (cases "workers s") (auto simp: all_done_def list_all_iff)
  then have "eventChan s = []" "producer s = PDone"
    using assms(1) nf by (auto simp: run_inv_def drained_def)
  moreover have "all_worker_events (workers s) = {#}" using ws by (intro no_worker_events) simp
  ultimately have "outstanding s = {#}" by (simp add: outstanding_def)
  then have "\<forall>q\<in>set (createUpdateList @ deleteList). covered (A s) T {} q"
    using assms(1) nf \<open>producer s = PDone\<close> by (auto simp: run_inv_def data_def coverage_def todo_keys_def)
  from covered_same [OF this] assms(1) show ?thesis by (simp add: run_inv_def data_def)
qed

text \<open>A run moves keys from their old content to that of the target and does nothing else.\<close>

definition only_forward :: "(string \<Rightarrow> string \<rightharpoonup> wire) \<Rightarrow> ('db, 'g) Syncer \<Rightarrow> bool" where
  "only_forward A0 s \<longleftrightarrow> (\<forall>t i. A s t i = A0 t i \<or> A s t i = T t i)"

lemma only_forward_move:
  assumes "only_forward A0 s" and "data s" and m: "move env s s'"
  shows "only_forward A0 s'"
proof (cases "currentState s' = currentState s")
  case True
  then show ?thesis using assms(1) by (simp add: only_forward_def)
next
  case False
  with m obtain i e r db r' where i: "i < length (workers s)" "workers s ! i = WPost e r"
      "Registry_Do (postProcess env) (Ev_Kind e) (Ev_Op e) r (currentState s) = (db, r')" "currentState s' = db"
    by (cases rule: move.cases) (auto simp: receive_def eventCompleted_def)
  note fit = posting(1) [OF assms(2) i(1,2)]
  have "A s' = apply_event e (A s)" using post_outcome [OF assms(2) i(1,2)] i(3,4) False by auto
  then have "A s' t j = A s t j \<or> A s' t j = T t j" for t j
    using fits_key [OF fit] apply_event_key [of t j e "A s"] apply_event_other [of t j e "A s"]
    by (cases "(t, j) = ev_key e") auto
  then show ?thesis using assms(1) unfolding only_forward_def by metis
qed

lemma only_forward_reaches:
  assumes "good db" "filed U (rows db)" "0 < n" "n + 12 < 2 ^ 32" and r: "reaches env (Run_start db g n) s"
  shows "only_forward (contents (rows db)) s"
  using r
proof (induction rule: rtranclp_induct)
  case base
  show ?case by (simp add: only_forward_def Run_start_def)
next
  case (step s s')
  then have "data s" using run_inv_reaches [OF assms(1-4)] by (simp add: run_inv_def)
  with step only_forward_move step_move show ?case by blast
qed

end

section \<open>Runs that return\<close>

lemma nat_parallelism: "p + 12 < (2 :: int) ^ 32 \<Longrightarrow> nat p + 12 < 2 ^ 32"
  by simp

context sync_run
begin

lemma Run_cases:
  assumes "Run env db g parallelism db' g' es"
  obtains (refused) "parallelism < 1" "db' = db" "g' = g" "es \<noteq> []"
  | (returns) s where "0 < nat parallelism" "reaches env (Run_start db g (nat parallelism)) s" "main_pc s = MReturn"
      "db' = currentState s" "g' = gateway s" "es = errs s"
  using assms by (auto elim!: Run.cases)

lemma Run_converged:
  assumes "good db" "filed U (rows db)" "parallelism + 12 < 2 ^ 32" "Run env db g parallelism db' g' []"
  shows "same_contents (contents (rows db')) T"
  using assms(4)
proof (cases rule: Run_cases)
  case (returns s)
  have "nat parallelism + 12 < 2 ^ 32" by (rule nat_parallelism [OF assms(3)])
  with returns run_inv_reaches [OF assms(1,2)] inv_converged [of "nat parallelism" s] show ?thesis by simp
qed simp

lemma Run_only_forward:
  assumes "good db" "filed U (rows db)" "parallelism + 12 < 2 ^ 32" "Run env db g parallelism db' g' es"
  shows "contents (rows db') t i = contents (rows db) t i \<or> contents (rows db') t i = T t i"
  using assms(4)
proof (cases rule: Run_cases)
  case (returns s)
  have "nat parallelism + 12 < 2 ^ 32" by (rule nat_parallelism [OF assms(3)])
  from only_forward_reaches [OF assms(1,2) returns(1) this returns(2)] returns(4) show ?thesis
    by (simp add: only_forward_def)
qed simp

end

end
