(* ===== verification/Sync_Progress.thy ===== *)
theory Sync_Progress
  imports Sync_Converge
begin

text \<open>
  Termination and progress of a run. Every execution of the goroutines is finite, whatever fails: a
  lexicographic measure of the loops, entities, events and program counters decreases with every move.
  And as long as nothing fails no reachable state is stuck before \<open>Run\<close> returns. With the invariants of
  the run this is total correctness for a gateway that accepts every request.
\<close>

section \<open>Every execution is finite\<close>

fun loops_left :: "producer \<Rightarrow> nat" where
  "loops_left (PNext ps) = 3 * length ps + 3"
| "loops_left (PScan p xs ps) = 3 * length ps + 5"
| "loops_left (PQueue e p xs ps) = 3 * length ps + 5"
| "loops_left (PWait ps) = 3 * length ps + 4"
| "loops_left (PFail err) = 2"
| "loops_left PClose = 1"
| "loops_left PDone = 0"

fun entities_left :: "producer \<Rightarrow> nat" where
  "entities_left (PScan p xs ps) = 2 * length xs"
| "entities_left (PQueue e p xs ps) = 2 * length xs + 1"
| "entities_left _ = 0"

fun worker_left :: "worker \<Rightarrow> nat" where
  "worker_left WIdle = 1"
| "worker_left (WDo e) = 4"
| "worker_left (WPost e r) = 3"
| "worker_left (WComplete err) = 2"
| "worker_left (WFail err) = 1"
| "worker_left WDone = 0"

definition events_left :: "('db, 'g) Syncer \<Rightarrow> nat" where
  "events_left s = 4 * length (eventChan s) + sum_list (map worker_left (workers s))"

fun main_left :: "main_pc \<Rightarrow> nat" where
  "main_left MSelect = 3"
| "main_left MStop = 2"
| "main_left MCollect = 1"
| "main_left MReturn = 0"

definition flags_left :: "('db, 'g) Syncer \<Rightarrow> nat" where
  "flags_left s = main_left (main_pc s) + (if errClosed s then 0 else 1) + (if panicked s then 0 else 1)"

definition left :: "(('db, 'g) Syncer \<times> ('db, 'g) Syncer) set" where
  "left = measures [\<lambda>s. loops_left (producer s), \<lambda>s. entities_left (producer s), events_left, flags_left]"

lemma worker_left_update:
  "i < length ws \<Longrightarrow> worker_left w < worker_left (ws ! i) \<Longrightarrow>
    sum_list (map worker_left (ws[i := w])) < sum_list (map worker_left ws)"
proof (induction ws arbitrary: i)
  case (Cons a ws)
  then show ?case by (cases i) auto
qed simp

lemma worker_left_take:
  "i < length ws \<Longrightarrow> ws ! i = WIdle \<Longrightarrow>
    sum_list (map worker_left (ws[i := WDo e])) = sum_list (map worker_left ws) + 3"
proof (induction ws arbitrary: i)
  case (Cons a ws)
  then show ?case by (cases i) auto
qed simp

lemma move_left:
  assumes "\<not> panicked s" and "move env s s'"
  shows "(s', s) \<in> left"
  using assms(2)
proof (cases rule: move.cases)
  case (complete i err)
  then show ?thesis
    using worker_left_update [OF complete(2), of "case err of None \<Rightarrow> WIdle | Some e \<Rightarrow> WFail e"]
    by (simp add: left_def events_left_def eventCompleted_def split: option.splits)
qed (use assms(1) worker_left_update [of _ "workers s"] in
  \<open>auto simp: left_def events_left_def flags_left_def receive_def worker_left_take\<close>)

lemma execution_wf: "wfp (\<lambda>s' s. step env s s')"
proof -
  have "{(s', s). step env s s'} \<subseteq> left" using step_move move_left by fastforce
  then have "wf {(s', s). step env s s'}" by (rule wf_subset [rotated]) (simp add: left_def)
  then show ?thesis by (simp add: wfp_def)
qed

section \<open>Progress\<close>

lemma producer_runs:
  assumes "\<not> panicked s" and "producer s \<noteq> PDone" and "\<And>err. producer s \<noteq> PFail err"
    and "queueing (producer s) \<Longrightarrow> length (eventChan s) < eventChan_cap" and "\<And>ps. producer s = PWait ps \<Longrightarrow> InFlightOps s = 0"
  shows "\<exists>s'. step env s s'"
proof -
  have "diff env s \<noteq> None"
    using assms(2-5) by (cases "producer s")
      (auto simp: diff_def Let_def queueEvent_send_def wait_def split: list.splits result.splits option.splits)
  then obtain s' where "exec env Produce s = Some s'" using assms(1) by (auto simp: exec_def)
  then show ?thesis by (blast intro: step.intros)
qed

lemma worker_runs:
  assumes "\<not> panicked s" and "i < length (workers s)"
    and "busy (workers s ! i) \<or> workers s ! i = WIdle \<and> (eventChan s \<noteq> [] \<or> eventClosed s)"
  shows "\<exists>s'. step env s s'"
proof -
  have "eventLoop env i s \<noteq> None"
    using assms(2,3) by (cases "workers s ! i") (auto simp: eventLoop_def split: list.splits option.splits)
  then obtain s' where "exec env (Work i) s = Some s'" using assms(1) by (auto simp: exec_def)
  then show ?thesis by (blast intro: step.intros)
qed

lemma main_runs:
  assumes "\<not> panicked s" and "all_done s" and "main_pc s \<noteq> MReturn"
  shows "\<exists>s'. step env s s'"
proof (cases "errClosed s")
  case True
  then have "\<exists>s'. exec env Main s = Some s'" using assms by (cases "main_pc s") (auto simp: exec_def)
  then show ?thesis by (blast intro: step.intros)
next
  case False
  then have "\<exists>s'. exec env CloseErr s = Some s'" using assms by (auto simp: exec_def)
  then show ?thesis by (blast intro: step.intros)
qed

text \<open>A state in which nothing has failed is not stuck before the return.\<close>

lemma progress:
  assumes "control s" "drained s" "counted n s" and nf: "\<not> failed s" and "main_pc s \<noteq> MReturn" and "0 < n"
  shows "\<exists>s'. step env s s'"
proof (rule ccontr)
  assume stuck: "\<nexists>s'. step env s s'"
  have np: "\<not> panicked s" and nfail: "\<And>err. producer s \<noteq> PFail err" using nf by (auto simp: failed_def)
  have w: "workers s ! i = WIdle \<and> eventChan s = [] \<and> \<not> eventClosed s \<or> workers s ! i = WDone"
    if i: "i < length (workers s)" for i
  proof -
    have "\<not> worker_failed (workers s ! i)" using nf nth_mem [OF i] by (auto simp: failed_def)
    with worker_runs [OF np i] stuck show ?thesis
      by (cases "workers s ! i") (auto simp: worker_failed_def)
  qed
  have len: "0 < length (workers s)" using assms(3,6) by (simp add: counted_def)
  have chan: "eventChan s = []"
    using w [OF len] assms(2) nf nth_mem [OF len] by (auto simp: drained_def)
  show False
  proof (cases "producer s = PDone")
    case True
    then have "eventClosed s" using assms(1) by (simp add: control_def)
    then have "all_done s" using w True by (auto simp: all_done_def list_all_length)
    with main_runs [OF np _ assms(5)] stuck show False by blast
  next
    case False
    have "InFlightOps s = 0" if "producer s = PWait ps" for ps
    proof -
      have "filter busy (workers s) = []" using w by (force simp: filter_empty_conv in_set_conv_nth)
      then have "pending s = 0" using that chan by (simp add: pending_def)
      then show ?thesis using assms(3) that by (auto simp: counted_def leaked_def)
    qed
    with producer_runs [OF np False nfail] chan stuck show False by (auto simp: eventChan_cap_def)
  qed
qed

section \<open>A gateway that accepts every request\<close>

text \<open>
  Nothing fails when the gateway accepts every request and the binds of the two states agree; a bind
  that had to be updated would fail, because its raw action returns nil.
\<close>

locale sync_run_ok = sync_run D rows inv C env U
  for D :: "('db, obj) memdb" and rows :: "'db \<Rightarrow> string \<Rightarrow> string \<rightharpoonup> obj"
    and inv :: "'db \<Rightarrow> bool" and C :: "'w codecs" and env :: "('w, 'db, 'g) syncer_env" and U :: "tag set" +
  fixes db0 :: 'db
  assumes start: "good db0" "filed U (rows db0)"
    and accepts: "Ev_Kind e = obj_table (Ev_Obj e) \<Longrightarrow> entity_ok U (Ev_Obj e) \<Longrightarrow> Ev_Op e \<in> {Create, Update, Delete} \<Longrightarrow>
      Ev_Op e \<noteq> Update \<or> Ev_Kind e \<noteq> ''bind'' \<Longrightarrow> \<exists>g' x. se_do env (AEvent e) g = (g', Ok (AObj x))"
    and binds_agree: "contents (rows db0) ''bind'' i = Some m \<Longrightarrow> T ''bind'' i = Some m' \<Longrightarrow> m = m'"
begin

definition no_bind_update :: "('db, 'g) Syncer \<Rightarrow> bool" where
  "no_bind_update s \<longleftrightarrow> (\<forall>e\<in>#outstanding s. Ev_Op e = Update \<longrightarrow> Ev_Kind e \<noteq> ''bind'')"

lemma scan_update_differs:
  assumes "data s" and p: "producer s = PScan p (x # xs) ps"
    and "lp_event (phase_loop (se_codecs env) (se_memdb env) p) (currentState s) (targetState env) x = Ok (Some e)"
    and "Ev_Op e = Update"
  shows "\<exists>i m m'. A s (Ev_Kind e) i = Some m \<and> T (Ev_Kind e) i = Some m' \<and> m \<noteq> m'"
proof -
  have x: "entity_ok U x" "obj_table x = phase_table p"
      "phase_db p (A s) T (phase_table p) (msg_key (obj_msg x)) = Some (obj_msg x)"
    using dataD(5) [OF assms(1)] p by (auto simp: scan_ok_def todo_ok_def)
  have ne: "Create \<noteq> Update" "Delete \<noteq> Update" by (simp_all add: op_defs)
  show ?thesis
  proof (cases p)
    case (CreateUpdate k)
    have "createUpdate_ok k (A s (kind_name k) (msg_key (obj_msg x))) (obj_msg x) (Some e)"
      using createUpdate_phase [OF dataD(1) [OF assms(1)] coherent dataD(2) [OF assms(1)] x(1), of k "targetState env"]
        x(2) CreateUpdate assms(3) env by auto
    with assms(4) ne x(3) CreateUpdate show ?thesis
      by (cases "A s (kind_name k) (msg_key (obj_msg x))")
        (auto simp: event_for_def split: if_splits intro!: exI [of _ "msg_key (obj_msg x)"])
  next
    case (Remove k)
    have "remove_ok k (T (kind_name k) (msg_key (obj_msg x))) (obj_msg x) (Some e)"
      using remove_phase [OF target(1) coherent target(2) x(1), of k "currentState s"] x(2) Remove assms(3) env by auto
    with assms(4) ne show ?thesis by (cases "T (kind_name k) (msg_key (obj_msg x))") auto
  qed
qed

lemma no_bind_update_move:
  assumes "data s" "only_forward (contents (rows db0)) s" "no_bind_update s" "move env s s'"
  shows "no_bind_update s'"
proof -
  have sub: "no_bind_update s'" if "set_mset (outstanding s') \<subseteq> set_mset (outstanding s)"
    using assms(3) that by (auto simp: no_bind_update_def)
  show ?thesis
    using assms(4)
  proof (cases rule: move.cases)
    case (scan_some p x xs ps e)
    have "Ev_Op e = Update \<Longrightarrow> Ev_Kind e \<noteq> ''bind''"
    proof
      assume "Ev_Op e = Update" "Ev_Kind e = ''bind''"
      from scan_update_differs [OF assms(1) scan_some(2,3) this(1)] this(2)
      obtain i m m' where "A s ''bind'' i = Some m" "T ''bind'' i = Some m'" "m \<noteq> m'" by auto
      with assms(2) binds_agree [of i m m'] show False unfolding only_forward_def by (metis option.inject)
    qed
    moreover have "outstanding s' = add_mset e (outstanding s)" using scan_some by (simp add: outstanding_def)
    ultimately show ?thesis using assms(3) by (auto simp: no_bind_update_def)
  next
    case (take i e es)
    have "outstanding s' = outstanding s"
      using worker_events_update [OF take(2), of "WDo e"] take by (simp add: outstanding_def)
    then show ?thesis using sub by simp
  next
    case (worker_end i)
    with outstanding_worker [OF worker_end(2), of s' WDone] show ?thesis by (intro sub) simp
  next
    case (do_err i e g r err' err)
    with outstanding_worker [OF do_err(2), of s' "WComplete (Some err)"] show ?thesis
      by (intro sub) (simp, metis set_mset_add_mset_insert subset_insertI)
  next
    case (do_ok i e g r)
    with outstanding_worker [OF do_ok(2), of s' "WPost e r"] show ?thesis by (intro sub) simp
  next
    case (post_err i e r db err' err)
    with outstanding_worker [OF post_err(2), of s' "WComplete (Some err)"] show ?thesis
      by (intro sub) (simp, metis set_mset_add_mset_insert subset_insertI)
  next
    case (post_ok i e r db r')
    with outstanding_worker [OF post_ok(2), of s' "WComplete None"] show ?thesis
      by (intro sub) (simp, metis set_mset_add_mset_insert subset_insertI)
  next
    case (complete i err)
    with outstanding_worker [OF complete(2), of s' "case err of None \<Rightarrow> WIdle | Some e \<Rightarrow> WFail e"] show ?thesis
      by (intro sub) (simp add: eventCompleted_def split: option.splits)
  next
    case (worker_err i err)
    with outstanding_worker [OF worker_err(2), of s' WDone] show ?thesis by (intro sub) (simp add: receive_def)
  qed (intro sub; auto simp: outstanding_def receive_def)+
qed

lemma not_failed_move:
  assumes "data s" "no_bind_update s" "control s" "\<not> failed s" "move env s s'"
  shows "\<not> failed s'"
proof -
  have upd: "\<not> failed s'" if "workers s' = (workers s)[i := w]" "producer s' = producer s" "errs s' = errs s"
    "panicked s' = panicked s" "\<not> worker_failed w" for i w
    using assms(4) that by (auto simp: failed_def dest!: set_updateD)
  have ev: "fits U (A s) T e \<and> (Ev_Op e = Update \<longrightarrow> Ev_Kind e \<noteq> ''bind'')"
    if "i < length (workers s)" "e \<in># worker_events (workers s ! i)" for i e
  proof -
    have "e \<in># outstanding s"
      using worker_events_nth [OF that(1)] that(2) by (auto simp: outstanding_def dest: mset_subset_eqD)
    then show ?thesis using dataD(3) [OF assms(1)] assms(2) by (auto simp: no_bind_update_def)
  qed
  have do: "\<exists>g' x. se_do env (AEvent e) g = (g', Ok (AObj x))" if "fits U (A s) T e \<and> (Ev_Op e = Update \<longrightarrow> Ev_Kind e \<noteq> ''bind'')" for e g
    using that by (intro accepts) (auto simp: fits_def Let_def)
  show ?thesis
    using assms(5)
  proof (cases rule: move.cases)
    case (fetch_err p ps err)
    then show ?thesis using fetch_ok [OF assms(1), of p] by simp
  next
    case (fetch_panic p ps m)
    then show ?thesis using fetch_ok [OF assms(1), of p] by simp
  next
    case (scan_err p x xs ps err)
    then show ?thesis using scan_event [OF assms(1), of p x xs ps "{}"] by auto
  next
    case (scan_panic p x xs ps m)
    then show ?thesis using scan_event [OF assms(1), of p x xs ps "{}"] by auto
  next
    case (queue_stop e p xs ps)
    then have "errs s \<noteq> []" using assms(3) by (auto simp: control_def all_done_def)
    then show ?thesis using assms(4) by (simp add: failed_def)
  next
    case (do_err i e g r err' err)
    then show ?thesis using do [OF ev [OF do_err(2)], of e "gateway s"] by auto
  next
    case (do_panic i e g m)
    then show ?thesis using do [OF ev [OF do_panic(2)], of e "gateway s"] by auto
  next
    case (post_err i e r db err' err)
    from posting(2) [OF assms(1) post_err(2,3)]
    obtain x where x: "r = AObj x" "obj_msg x = obj_msg (Ev_Obj e)" "key_ok x" by blast
    have "Ev_Op e = Update \<longrightarrow> Ev_Kind e \<noteq> ''bind''" using ev [OF post_err(2)] post_err(3) by auto
    with post_fits_ok [OF dataD(1,2) [OF assms(1)] posting(1) [OF assms(1) post_err(2,3)] x(2,3)] post_err(4) x(1)
    show ?thesis by auto
  next
    case (post_panic i e r db m)
    then show ?thesis using post_outcome [OF assms(1) post_panic(2,3)] by auto
  next
    case (take i e es)
    then show ?thesis by (intro upd [of i "WDo e"]) (simp_all add: worker_failed_def)
  next
    case (worker_end i)
    then show ?thesis by (intro upd [of i WDone]) (simp_all add: worker_failed_def)
  next
    case (do_ok i e g r)
    then show ?thesis by (intro upd [of i "WPost e r"]) (simp_all add: worker_failed_def)
  next
    case (post_ok i e r db r')
    then show ?thesis by (intro upd [of i "WComplete None"]) (simp_all add: worker_failed_def)
  next
    case (complete i err)
    then have "err = None" using assms(4) nth_mem [OF complete(2)] by (cases err) (auto simp: failed_def worker_failed_def)
    with complete show ?thesis by (intro upd [of i WIdle]) (simp_all add: worker_failed_def eventCompleted_def)
  next
    case (worker_err i err)
    then have "WFail err \<in> set (workers s)" by (metis nth_mem)
    then show ?thesis using assms(4) by (auto simp: failed_def worker_failed_def)
  qed (use assms(4) in \<open>auto simp: failed_def receive_def\<close>)
qed

lemma reaches_ok:
  assumes "0 < n" "n + 12 < 2 ^ 32" and r: "reaches env (Run_start db0 g n) s"
  shows "run_inv n s \<and> no_bind_update s \<and> \<not> failed s"
  using r
proof (induction rule: rtranclp_induct)
  case base
  have "run_inv n (Run_start db0 g n)" by (rule run_inv_reaches [OF start assms(1,2) rtranclp.rtrancl_refl])
  moreover have "outstanding (Run_start db0 g n) = {#}"
    by (simp add: outstanding_def Run_start_def no_worker_events)
  ultimately show ?case by (auto simp: no_bind_update_def failed_def Run_start_def worker_failed_def)
next
  case (step s s')
  have "run_inv n s'" using run_inv_reaches [OF start assms(1,2)] step(1,2) by (meson rtranclp.rtrancl_into_rtrancl)
  moreover have m: "move env s s'" using step(2) step_move by blast
  moreover have "only_forward (contents (rows db0)) s" by (rule only_forward_reaches [OF start assms(1,2) step(1)])
  ultimately show ?case
    using step(3) no_bind_update_move [OF _ _ _ m] not_failed_move [OF _ _ _ _ m] by (auto simp: run_inv_def)
qed

text \<open>A maximal execution has returned without errors, with the contents of the target.\<close>

lemma maximal_run:
  assumes "0 < n" "n + 12 < 2 ^ 32" and r: "reaches env (Run_start db0 g n) s" and "\<nexists>s'. step env s s'"
  shows "main_pc s = MReturn \<and> errs s = [] \<and> same_contents (A s) T"
proof -
  note ok = reaches_ok [OF assms(1-3)]
  then have "main_pc s = MReturn" using progress [of s n env] assms(1,4) by (auto simp: run_inv_def)
  moreover have "errs s = []" using ok by (simp add: failed_def)
  ultimately show ?thesis using inv_converged [of n s] ok assms(1) by simp
qed

end

end
