(* ===== verification/Sync_Gateway.thy ===== *)
theory Sync_Gateway
  imports Sync_Progress
begin

text \<open>
  The gateway during a run. A worker first sends its event to the gateway and then mirrors it in memory,
  so in between the gateway is ahead of the current state by exactly the events whose post action is
  still to come. Hence a run that reports no error leaves the gateway with the contents of the target
  state too.
\<close>

section \<open>Events sent and not yet mirrored\<close>

fun posted_event :: "worker \<Rightarrow> Event multiset" where
  "posted_event (WPost e r) = {#e#}"
| "posted_event _ = {#}"

fun doing_event :: "worker \<Rightarrow> Event multiset" where
  "doing_event (WDo e) = {#e#}"
| "doing_event _ = {#}"

definition posted :: "('db, 'g) Syncer \<Rightarrow> Event multiset" where
  "posted s = sum_list (map posted_event (workers s))"

lemma sum_list_map_update:
  fixes f :: "'a \<Rightarrow> 'b multiset"
  assumes "i < length ws"
  shows "sum_list (map f (ws[i := w])) + f (ws ! i) = sum_list (map f ws) + f w"
proof -
  have "sum_list (map f ws) = sum_list (map f (take i ws @ ws ! i # drop (Suc i) ws))"
    using id_take_nth_drop [OF assms] by simp
  then show ?thesis using assms by (simp add: upd_conv_take_nth_drop ac_simps)
qed

lemma all_worker_events_split:
  "all_worker_events ws = sum_list (map posted_event ws) + sum_list (map doing_event ws)"
proof -
  have eq: "worker_events = (\<lambda>w. posted_event w + doing_event w)"
  proof
    fix w show "worker_events w = posted_event w + doing_event w" by (cases w) auto
  qed
  show ?thesis unfolding all_worker_events_def eq by (rule sum_list_addf)
qed

lemma posted_outstanding: "posted s \<subseteq># outstanding s"
  by (auto simp: outstanding_def posted_def all_worker_events_split intro: subset_mset.order_trans)

lemma doing_posted:
  assumes "i < length (workers s)" and "workers s ! i = WDo e"
  shows "add_mset e (posted s) \<subseteq># outstanding s"
proof -
  have "sum_list (map doing_event ((workers s)[i := WIdle])) + {#e#} = sum_list (map doing_event (workers s))"
    using sum_list_map_update [OF assms(1), of doing_event WIdle] assms(2) by simp
  then have "outstanding s = add_mset e (posted s) + (mset (eventChan s) + producer_events (producer s) +
      sum_list (map doing_event ((workers s)[i := WIdle])))"
    by (simp add: outstanding_def posted_def all_worker_events_split)
  then show ?thesis by (metis mset_subset_eq_add_left)
qed

lemma keys_differ_subset:
  assumes "keys_differ N" and "M \<subseteq># N"
  shows "keys_differ M"
proof -
  have "count (image_mset ev_key M) x \<le> count (image_mset ev_key N) x" for x
    using image_mset_subseteq_mono [OF assms(2), of ev_key] by (rule mset_subset_eq_count)
  then show ?thesis using assms(1) unfolding keys_differ_def by (meson order_trans)
qed

section \<open>The gateway mirrors the current state\<close>

locale sync_gateway = sync_run D rows inv C env U
  for D :: "('db, obj) memdb" and rows :: "'db \<Rightarrow> string \<Rightarrow> string \<rightharpoonup> obj"
    and inv :: "'db \<Rightarrow> bool" and C :: "'w codecs" and env :: "('w, 'db, 'g) syncer_env" and U :: "tag set" +
  fixes view :: "'g \<Rightarrow> string \<Rightarrow> string \<rightharpoonup> wire"
  assumes do_effect: "fits U X T e \<Longrightarrow> se_do env (AEvent e) g = (g', Ok r) \<Longrightarrow> r \<noteq> ANil \<Longrightarrow>
      view g' = apply_event e (view g)"
begin

definition ahead :: "('db, 'g) Syncer \<Rightarrow> bool" where
  "ahead s \<longleftrightarrow> failed s \<or> (\<forall>t i.
     ((t, i) \<notin> ev_key ` set_mset (posted s) \<longrightarrow> view (gateway s) t i = A s t i) \<and>
     (\<forall>e\<in>#posted s. ev_key e = (t, i) \<longrightarrow> view (gateway s) t i = apply_event e (A s) t i))"

lemma ahead_keep:
  assumes "ahead s" and "failed s \<Longrightarrow> failed s'" and "currentState s' = currentState s" "gateway s' = gateway s"
    and "posted s' = posted s"
  shows "ahead s'"
  using assms by (auto simp: ahead_def)

lemma ahead_do:
  assumes "ahead s" "data s" "failed s \<Longrightarrow> failed s'" and i: "i < length (workers s)" "workers s ! i = WDo e"
    and "se_do env (AEvent e) (gateway s) = (g, Ok r)" "r \<noteq> ANil"
    and s': "s' = s\<lparr>gateway := g, workers := (workers s)[i := WPost e r]\<rparr>"
  shows "ahead s'"
proof (cases "failed s")
  case True
  then show ?thesis using assms(3) by (simp add: ahead_def)
next
  case False
  have out: "add_mset e (posted s) \<subseteq># outstanding s" by (rule doing_posted [OF i])
  then have "e \<in># outstanding s" by (metis mset_subset_eqD union_single_eq_member add_mset_add_single union_commute)
  then have fit: "fits U (A s) T e" by (rule dataD(3) [OF assms(2)])
  have v: "view g = apply_event e (view (gateway s))" by (rule do_effect [OF fit assms(6,7)])
  have ne: "ev_key e \<notin> ev_key ` set_mset (posted s)"
    using keys_differ_subset [OF dataD(4) [OF assms(2)] out] by (simp add: keys_differ_add)
  have p: "posted s' = add_mset e (posted s)"
    using sum_list_map_update [OF i(1), of posted_event "WPost e r"] i(2) s' by (simp add: posted_def)
  have A: "A s' = A s" "gateway s' = g" using s' by simp_all
  show ?thesis
    unfolding ahead_def A p v
  proof (intro disjI2 allI conjI impI ballI)
    fix t j assume "(t, j) \<notin> ev_key ` set_mset (add_mset e (posted s))"
    then show "apply_event e (view (gateway s)) t j = A s t j"
      using assms(1) False apply_event_other [of t j e "view (gateway s)"] by (auto simp: ahead_def)
  next
    fix t j e' assume e': "e' \<in># add_mset e (posted s)" "ev_key e' = (t, j)"
    show "apply_event e (view (gateway s)) t j = apply_event e' (A s) t j"
    proof (cases "e' = e")
      case True
      with e'(2) show ?thesis by (simp add: apply_event_key)
    next
      case other: False
      with e' have "e' \<in># posted s" by simp
      moreover from this have "ev_key e' \<noteq> ev_key e" using ne by (metis imageI)
      ultimately show ?thesis
        using assms(1) False e'(2) apply_event_other [of t j e "view (gateway s)"] by (auto simp: ahead_def)
    qed
  qed
qed

lemma ahead_post:
  assumes "ahead s" "data s" "failed s \<Longrightarrow> failed s'" and i: "i < length (workers s)" "workers s ! i = WPost e r"
    and A: "A s' = apply_event e (A s)" and g: "gateway s' = gateway s" and w: "workers s' = (workers s)[i := WComplete None]"
  shows "ahead s'"
proof (cases "failed s")
  case True
  then show ?thesis using assms(3) by (simp add: ahead_def)
next
  case False
  have p: "posted s = add_mset e (posted s')"
    using sum_list_map_update [OF i(1), of posted_event "WComplete None"] i(2) w by (simp add: posted_def)
  have ne: "ev_key e \<notin> ev_key ` set_mset (posted s')"
    using keys_differ_subset [OF dataD(4) [OF assms(2)] posted_outstanding] unfolding p keys_differ_add by simp
  show ?thesis
    unfolding ahead_def A g
  proof (intro disjI2 allI conjI impI ballI)
    fix t j assume "(t, j) \<notin> ev_key ` set_mset (posted s')"
    then show "view (gateway s) t j = apply_event e (A s) t j"
      using assms(1) False apply_event_other [of t j e "A s"] unfolding ahead_def p by (cases "ev_key e = (t, j)") auto
  next
    fix t j e' assume e': "e' \<in># posted s'" "ev_key e' = (t, j)"
    then have "ev_key e' \<noteq> ev_key e" using ne by (metis imageI)
    moreover have "view (gateway s) t j = apply_event e' (A s) t j" using assms(1) False e' unfolding ahead_def p by auto
    ultimately show "view (gateway s) t j = apply_event e' (apply_event e (A s)) t j"
      using e'(2) by (simp add: apply_event_key)
  qed
qed

lemma ahead_move:
  assumes "ahead s" "data s" "control s" "\<not> panicked s" and m: "move env s s'"
  shows "ahead s'"
proof -
  note fail = failed_move [OF assms(3) _ assms(4) m]
  have upd: "ahead s'" if "i < length (workers s)" "workers s' = (workers s)[i := w]" "posted_event w = posted_event (workers s ! i)"
    "currentState s' = currentState s" "gateway s' = gateway s" for i w
    using sum_list_map_update [OF that(1), of posted_event w] that
    by (intro ahead_keep [OF assms(1) fail]) (simp_all add: posted_def)
  show ?thesis
    using m
  proof (cases rule: move.cases)
    case (take i e es)
    then show ?thesis by (intro upd [of i "WDo e"]) simp_all
  next
    case (worker_end i)
    then show ?thesis by (intro upd [of i WDone]) simp_all
  next
    case (do_err i e g r err' err)
    then have "failed s'" using set_update_memI [OF do_err(2)] by (auto simp: failed_def worker_failed_def)
    then show ?thesis by (simp add: ahead_def)
  next
    case (do_panic i e g m)
    then show ?thesis by (simp add: ahead_def failed_def)
  next
    case (do_ok i e g r)
    then show ?thesis using ahead_do [OF assms(1,2) fail do_ok(2-5,1)] by simp
  next
    case (post_err i e r db err' err)
    then have "failed s'" using set_update_memI [OF post_err(2)] by (auto simp: failed_def worker_failed_def)
    then show ?thesis by (simp add: ahead_def)
  next
    case (post_panic i e r db m)
    then show ?thesis by (simp add: ahead_def failed_def)
  next
    case (post_ok i e r db r')
    have "A s' = apply_event e (A s)" using post_outcome [OF assms(2) post_ok(2,3)] post_ok(1,4) by auto
    then show ?thesis using ahead_post [OF assms(1,2) fail post_ok(2,3)] post_ok(1) by simp
  next
    case (complete i err)
    then show ?thesis
      by (intro upd [of i "case err of None \<Rightarrow> WIdle | Some e \<Rightarrow> WFail e"]) (simp_all add: eventCompleted_def split: option.splits)
  next
    case (worker_err i err)
    then show ?thesis by (intro upd [of i WDone]) (simp_all add: receive_def)
  qed (intro ahead_keep [OF assms(1) fail]; simp add: posted_def receive_def; fail)+
qed

lemma ahead_reaches:
  assumes "good db" "filed U (rows db)" "0 < n" "n + 12 < 2 ^ 32" "view g = contents (rows db)"
    and r: "reaches env (Run_start db g n) s"
  shows "ahead s"
  using r
proof (induction rule: rtranclp_induct)
  case base
  have "all_worker_events (replicate n WIdle) = {#}" by (rule no_worker_events) simp
  then have "posted (Run_start db g n) = {#}" by (simp add: posted_def Run_start_def all_worker_events_split)
  then show ?case using assms(5) by (simp add: ahead_def) (simp add: Run_start_def)
next
  case (step s s')
  then have "data s" "control s" using run_inv_reaches [OF assms(1-4)] by (auto simp: run_inv_def)
  moreover have "\<not> panicked s" "move env s s'" using step(2) step_move by auto
  ultimately show ?case using ahead_move [OF step(3)] by blast
qed

text \<open>A run without errors leaves the gateway with the contents of the current state.\<close>

lemma Run_gateway:
  assumes "good db" "filed U (rows db)" "parallelism + 12 < 2 ^ 32" "view g = contents (rows db)"
    and "Run env db g parallelism db' g' []"
  shows "view g' = contents (rows db')"
  using assms(5)
proof (cases rule: Run_cases)
  case (returns s)
  have n: "nat parallelism + 12 < 2 ^ 32" by (rule nat_parallelism [OF assms(3)])
  have inv: "run_inv (nat parallelism) s" by (rule run_inv_reaches [OF assms(1,2) returns(1) n returns(2)])
  then have d: "all_done s" using returns(3) by (auto simp: run_inv_def control_def)
  then have "\<not> failed s" using inv returns(6)
    by (auto simp: run_inv_def control_def failed_def all_done_sets worker_failed_def)
  moreover have "posted s \<subseteq># all_worker_events (workers s)" by (simp add: posted_def all_worker_events_split)
  moreover have "all_worker_events (workers s) = {#}" using d by (intro no_worker_events) (auto simp: all_done_def list_all_iff)
  ultimately have "view (gateway s) t i = A s t i" for t i
    using ahead_reaches [OF assms(1,2) returns(1) n assms(4) returns(2)] by (auto simp: ahead_def)
  then show ?thesis using returns(4,5) by (auto simp: fun_eq_iff)
qed simp

end

end
