(* ===== verification/Solver.thy ===== *)
theory Solver
  imports Sync_Gateway
begin

text \<open>
  The solver (\<open>pkg/manba/solver\<close>): the worker function that sends one event to the gateway and counts it,
  and \<open>Solve\<close>, which runs the syncer with it and joins the errors. The JSON libraries that \<open>Diff\<close> calls
  for its log output are a parameter. The function works on the gateway and on the captured variable
  \<open>stats\<close>.

  With the client contract (a put answers with the ID it was given) the worker function returns the
  message of the event, so the laws of a run apply to \<open>Solve\<close>.
\<close>

section \<open>Diff\<close>

text \<open>\<open>encoding/json\<close> and \<open>gojsondiff\<close>, over open types of JSON text, JSON objects and differences.\<close>

record ('j, 'l, 'd) json_lib =
  json_Marshal :: "obj option \<Rightarrow> 'j result"
  json_Unmarshal :: "'j \<Rightarrow> 'l result"
  differ_Compare :: "'j \<Rightarrow> 'j \<Rightarrow> 'd result"
  formatter_Format :: "'l \<Rightarrow> 'd \<Rightarrow> string result"

definition Solver_Diff :: "('j, 'l, 'd) json_lib \<Rightarrow> obj option \<Rightarrow> obj option \<Rightarrow> string result" where
  "Solver_Diff J a b =
     rbind (json_Marshal J a) (\<lambda>aJSON.
     rbind (json_Marshal J b) (\<lambda>bJSON.
     rbind (differ_Compare J aJSON bJSON) (\<lambda>d.
     rbind (json_Unmarshal J aJSON) (\<lambda>leftObject.
     formatter_Format J leftObject d))))"

section \<open>Solve\<close>

record Stats =
  CreateOps :: int
  UpdateOps :: int
  DeleteOps :: int

definition zero_Stats :: Stats where
  "zero_Stats = \<lparr>CreateOps = 0, UpdateOps = 0, DeleteOps = 0\<rparr>"

definition recordOp :: "Op \<Rightarrow> Stats \<Rightarrow> Stats" where
  "recordOp op stats =
     (if op = Create then stats\<lparr>CreateOps := CreateOps stats + 1\<rparr>
      else if op = Update then stats\<lparr>UpdateOps := UpdateOps stats + 1\<rparr>
      else if op = Delete then stats\<lparr>DeleteOps := DeleteOps stats + 1\<rparr>
      else stats)"

text \<open>\<open>r.Do(e.Kind, e.Op, e)\<close>, then the count.\<close>

definition fire :: "'g Registry \<Rightarrow> Event \<Rightarrow> 'g \<times> Stats \<Rightarrow> ('g \<times> Stats) \<times> Arg result" where
  "fire r e = (\<lambda>(g, stats).
     let (g', res) = Registry_Do r (Ev_Kind e) (Ev_Op e) (AEvent e) g in
     case res of
       Ok result \<Rightarrow> ((g', recordOp (Ev_Op e) stats), Ok result)
     | Err err \<Rightarrow> ((g', stats), Err err)
     | Panic m \<Rightarrow> ((g', stats), Panic m))"

definition Solve_do :: "('j, 'l, 'd) json_lib \<Rightarrow> 'g Registry \<Rightarrow> Arg \<Rightarrow> 'g \<times> Stats \<Rightarrow> ('g \<times> Stats) \<times> Arg result" where
  "Solve_do J r a gs =
     (case a of
        AEvent e \<Rightarrow>
          if Ev_Op e = Create then fire r e gs
          else if Ev_Op e = Update then
            (case Solver_Diff J (Ev_OldObj e) (Some (Ev_Obj e)) of
               Ok _ \<Rightarrow> fire r e gs
             | Err err \<Rightarrow> (gs, Err err)
             | Panic m \<Rightarrow> (gs, Panic m))
          else if Ev_Op e = Delete then fire r e gs
          else (gs, Panic (''unknown operation '' @ Op_String (Ev_Op e)))
      | _ \<Rightarrow> (gs, Err (NewError ''unknown operation'')))"

text \<open>\<open>Error()\<close> of the errors of the code; the sentinels have fixed texts.\<close>

fun Error :: "go_error \<Rightarrow> string" where
  "Error errIDRequired = ''ID is required''"
| "Error ErrNotFound = ''entity not found''"
| "Error ErrAlreadyExists = ''entity already exists''"
| "Error errEnqueueFailed = ''failed to queue event''"
| "Error ErrClusterSubSetNotFound = ''cannot found cluster subset''"
| "Error (NewError m) = m"
| "Error (Wrap m e) = m @ '': '' @ Error e"

fun Join :: "string list \<Rightarrow> string \<Rightarrow> string" where
  "Join [] sep = []"
| "Join [s] sep = s"
| "Join (s # t # ss) sep = s @ sep @ Join (t # ss) sep"

definition Solve_result :: "go_error list \<Rightarrow> unit result" where
  "Solve_result es =
     (let list = map Error es in
      if length list = 0 then Ok () else Err (NewError (Join list [CHR 0x0A])))"

text \<open>A call that returns: the final in-memory state, gateway, statistics and error.\<close>

inductive Solve ::
    "'w codecs \<Rightarrow> ('db, obj) memdb \<Rightarrow> ('j, 'l, 'd) json_lib \<Rightarrow> 'g client \<Rightarrow> bool \<Rightarrow> 'db \<Rightarrow> 'db \<Rightarrow> 'g \<Rightarrow> int \<Rightarrow>
     'db \<Rightarrow> 'g \<Rightarrow> Stats \<Rightarrow> unit result \<Rightarrow> bool" for C D J client doneCh current target g where
  Solve: "NewRawRegistry client = Ok r \<Longrightarrow> NewSyncer C D target (Solve_do J r) doneCh = Ok syncer \<Longrightarrow>
    Run syncer current (g, zero_Stats) parallelism current' (g', stats) es \<Longrightarrow>
    Solve C D J client doneCh current target g parallelism current' g' stats (Solve_result es)"

section \<open>The contract of the client\<close>

text \<open>
  What the solver relies on: a put with a non-zero ID answers with that ID. Requests may fail at any
  time; the gateway is otherwise arbitrary.
\<close>

locale client_spec =
  fixes cl :: "'g client"
  assumes put_API: "API_ID m \<noteq> 0 \<Longrightarrow> cl_PutAPI cl m g = (g', Ok i) \<Longrightarrow> i = API_ID m"
    and put_Cluster: "Cluster_ID n \<noteq> 0 \<Longrightarrow> cl_PutCluster cl n g = (g', Ok i) \<Longrightarrow> i = Cluster_ID n"
    and put_Routing: "Routing_ID r \<noteq> 0 \<Longrightarrow> cl_PutRouting cl r g = (g', Ok i) \<Longrightarrow> i = Routing_ID r"
    and put_Server: "Server_ID s \<noteq> 0 \<Longrightarrow> cl_PutServer cl s g = (g', Ok i) \<Longrightarrow> i = Server_ID s"

lemmas raw_action_defs = apiRawAction_def clusterRawAction_def routingRawAction_def serverRawAction_def
  bindRawAction_def rawAction_def rawAction_Create_def rawAction_Update_def rawAction_Delete_def
  bindRawAction_Create_def bindRawAction_Update_def bindRawAction_Delete_def event_entity_def eventFromArg_def
  api_rawkind_def cluster_rawkind_def routing_rawkind_def server_rawkind_def

lemmas fromObj_defs = apiFromObj_def clusterFromObj_def routingFromObj_def serverFromObj_def bindFromObj_def

fun raw_action :: "'g client \<Rightarrow> obj \<Rightarrow> 'g Actions" where
  "raw_action cl (PAPI _) = apiRawAction cl"
| "raw_action cl (PBind _) = bindRawAction cl"
| "raw_action cl (PCluster _) = clusterRawAction cl"
| "raw_action cl (PRouting _) = routingRawAction cl"
| "raw_action cl (PServer _) = serverRawAction cl"

lemma Registry_Get_raw: "NewRawRegistry cl = Ok r \<Longrightarrow> Registry_Get r (obj_table x) = Ok (raw_action cl x)"
  by (cases x) (auto simp: NewRawRegistry_ok Registry_Get_def kinds5_cases)

context client_spec
begin

lemma raw_Create:
  assumes "act_Create (raw_action cl (Ev_Obj e)) (AEvent e) g = (g', Ok a)" and "msg_valid (obj_msg (Ev_Obj e))"
  shows "\<exists>x. a = AObj x \<and> obj_msg x = obj_msg (Ev_Obj e) \<and> key_ok x"
  using assms put_API put_Cluster put_Routing put_Server
  by (cases "Ev_Obj e") (force simp: raw_action_defs fromObj_defs new_defs usable_ID_def go_simps split: prod.splits)+

end

lemma raw_Update:
  assumes "act_Update (raw_action cl (Ev_Obj e)) (AEvent e) g = (g', Ok a)"
  shows "a = ANil \<or> a = AObj (Ev_Obj e)"
  using assms by (cases "Ev_Obj e") (auto simp: raw_action_defs fromObj_defs go_simps split: prod.splits)

lemma raw_Delete:
  assumes "act_Delete (raw_action cl (Ev_Obj e)) (AEvent e) g = (g', Ok a)"
  shows "a = AObj (Ev_Obj e)"
  using assms by (cases "Ev_Obj e") (auto simp: raw_action_defs fromObj_defs go_simps split: prod.splits)

context client_spec
begin

text \<open>Where the worker function returns an object, it has the message of the event.\<close>

lemma Solve_do_faithful:
  assumes r: "NewRawRegistry cl = Ok r" and "Solve_do J r (AEvent e) gs = (gs', Ok a)"
    and k: "Ev_Kind e = obj_table (Ev_Obj e)" and v: "entity_ok U (Ev_Obj e)"
  shows "a = ANil \<or> (\<exists>x. a = AObj x \<and> obj_msg x = obj_msg (Ev_Obj e) \<and> key_ok x)"
proof -
  obtain g st where gs: "gs = (g, st)" by fastforce
  have op: "Ev_Op e \<in> {Create, Update, Delete}" and f: "fire r e (g, st) = (gs', Ok a)"
    using assms(2) gs by (auto simp: Solve_do_def split: if_splits result.splits)
  note do = Registry_Do_known [OF Registry_Get_raw [OF r] op, of "Ev_Obj e" "AEvent e" g]
  obtain g' where g': "op_action (raw_action cl (Ev_Obj e)) (Ev_Op e) (AEvent e) g = (g', Ok a)"
    using f do k by (cases "op_action (raw_action cl (Ev_Obj e)) (Ev_Op e) (AEvent e) g")
      (auto simp: fire_def split: result.splits)
  show ?thesis
  proof (cases "Ev_Op e = Create")
    case True
    with g' raw_Create v show ?thesis by (auto simp: op_action_def entity_ok_def)
  next
    case False
    with g' raw_Update [of cl e g g' a] raw_Delete [of cl e g g' a] v show ?thesis
      by (auto simp: op_action_def entity_ok_def split: if_splits)
  qed
qed

end

interpretation refcl: client_spec ref_client
  by unfold_locales (simp_all add: ref_client_def)

end
