(* ===== verification/Solve_Laws.thy ===== *)
theory Solve_Laws
  imports Solver
begin

text \<open>
  Correctness of \<open>Solve\<close> between two loaded configurations: what holds when it reports success, what
  holds whenever it returns, that it always returns successfully when the gateway accepts every
  request, and a schedule in which it does not return because a request fails.
\<close>

section \<open>Correctness of Solve\<close>

lemma NewSyncer_Ok:
  assumes "NewSyncer C D target d dn = Ok env"
  shows "se_codecs env = C" "se_memdb env = D" "NewPostProcess C D = Ok (postProcess env)" "targetState env = target"
    "se_do env = d" "se_done env = dn"
  using assms by (auto simp: NewSyncer_def go_simps)

text \<open>The environment of \<open>Solve\<close> between two aligned configurations meets what a run relies on.\<close>

lemma state_Get_filed:
  assumes "manba_db D rows ok C" and "aligned raw1 raw2" and "state_Get C D raw1 = Ok current"
    and "state_Get C D raw2 = Ok target"
  shows "good_db rows ok current" "rows current = raw_rows raw1" "filed (raw_tags raw1 \<union> raw_tags raw2) (rows current)"
    "good_db rows ok target" "rows target = raw_rows raw2" "filed (raw_tags raw1 \<union> raw_tags raw2) (rows target)"
  using manba_db.state_Get_rows [OF assms(1) alignedD(1) [OF assms(2)]] manba_db.state_Get_rows [OF assms(1) alignedD(2) [OF assms(2)]]
    alignedD(4,5) [OF assms(2)] assms(3,4) by simp_all

lemma Solve_sync_run:
  assumes db: "manba_db D rows ok C" and cl: "client_spec client" and al: "aligned raw1 raw2"
    and c: "state_Get C D raw1 = Ok current" and t: "state_Get C D raw2 = Ok target"
    and r: "NewRawRegistry client = Ok r" and env: "NewSyncer C D target (Solve_do J r) False = Ok env"
  shows "sync_run D rows ok C env (raw_tags raw1 \<union> raw_tags raw2)"
proof (intro sync_run.intro [OF db] sync_run_axioms.intro)
  note env = NewSyncer_Ok [OF env]
  show "se_codecs env = C" "se_memdb env = D" "NewPostProcess C D = Ok (postProcess env)" "\<not> se_done env"
    using env by simp_all
  show "good_db rows ok (targetState env)" "filed (raw_tags raw1 \<union> raw_tags raw2) (rows (targetState env))"
    using state_Get_filed [OF db al c t] env(4) by simp_all
  show "coherent (raw_tags raw1 \<union> raw_tags raw2)" by (rule alignedD(3) [OF al])
  show "a = ANil \<or> (\<exists>x. a = AObj x \<and> obj_msg x = obj_msg (Ev_Obj e) \<and> key_ok x)"
    if "se_do env (AEvent e) g = (g', Ok a)" "Ev_Kind e = obj_table (Ev_Obj e)"
      "entity_ok (raw_tags raw1 \<union> raw_tags raw2) (Ev_Obj e)" for e g g' a
    using client_spec.Solve_do_faithful [OF cl r, of J e g g' a] that env(5) by simp
qed

lemma Solve_Run:
  assumes "Solve C D J client dn current target g parallelism current' g' stats res"
  obtains r env es where "NewRawRegistry client = Ok r" "NewSyncer C D target (Solve_do J r) dn = Ok env"
    "Run env current (g, zero_Stats) parallelism current' (g', stats) es" "res = Solve_result es"
  using assms by (auto elim!: Solve.cases)

lemma Solve_result_Ok [simp]: "Solve_result es = Ok u \<longleftrightarrow> es = []"
  by (simp add: Solve_result_def Let_def)

section \<open>Total correctness\<close>

text \<open>A client that accepts every request, and log output that does not fail.\<close>

locale accepting_client = client_spec cl
  for cl :: "'g client" +
  assumes accept_puts: "\<exists>g' i. cl_PutAPI cl a g = (g', Ok i)" "\<exists>g' i. cl_PutCluster cl n g = (g', Ok i)"
      "\<exists>g' i. cl_PutRouting cl r g = (g', Ok i)" "\<exists>g' i. cl_PutServer cl s g = (g', Ok i)"
    and accept_removes: "\<exists>g'. cl_RemoveAPI cl i g = (g', Ok ())" "\<exists>g'. cl_RemoveCluster cl i g = (g', Ok ())"
      "\<exists>g'. cl_RemoveRouting cl i g = (g', Ok ())" "\<exists>g'. cl_RemoveServer cl i g = (g', Ok ())"
    and accept_binds: "\<exists>g'. cl_AddBind cl i j g = (g', Ok ())" "\<exists>g'. cl_RemoveBind cl i j g = (g', Ok ())"
begin

lemma raw_accepts_put:
  "\<exists>g' x. act_Create (raw_action cl (Ev_Obj e)) (AEvent e) g = (g', Ok (AObj x))"
  "obj_table (Ev_Obj e) \<noteq> ''bind'' \<Longrightarrow> \<exists>g' x. act_Update (raw_action cl (Ev_Obj e)) (AEvent e) g = (g', Ok (AObj x))"
proof (atomize (full), cases "Ev_Obj e", goal_cases)
  case (1 a) then show ?case using accept_puts(1) [of "sAPI a" g] by (auto simp: raw_action_defs fromObj_defs)
next
  case (2 b) then show ?case
    using accept_binds(1) [of "Bind_ClusterID (sBind b)" "Bind_ServerID (sBind b)" g] by (auto simp: raw_action_defs fromObj_defs)
next
  case (3 a) then show ?case using accept_puts(2) [of "sCluster a" g] by (auto simp: raw_action_defs fromObj_defs)
next
  case (4 a) then show ?case using accept_puts(3) [of "sRouting a" g] by (auto simp: raw_action_defs fromObj_defs)
next
  case (5 a) then show ?case using accept_puts(4) [of "sServer a" g] by (auto simp: raw_action_defs fromObj_defs)
qed

lemma raw_accepts_delete: "\<exists>g' x. act_Delete (raw_action cl (Ev_Obj e)) (AEvent e) g = (g', Ok (AObj x))"
proof (cases "Ev_Obj e", goal_cases)
  case (1 a) then show ?case using accept_removes(1) [of "API_ID (sAPI a)" g] by (auto simp: raw_action_defs fromObj_defs)
next
  case (2 b) then show ?case
    using accept_binds(2) [of "Bind_ClusterID (sBind b)" "Bind_ServerID (sBind b)" g] by (auto simp: raw_action_defs fromObj_defs)
next
  case (3 a) then show ?case using accept_removes(2) [of "Cluster_ID (sCluster a)" g] by (auto simp: raw_action_defs fromObj_defs)
next
  case (4 a) then show ?case using accept_removes(3) [of "Routing_ID (sRouting a)" g] by (auto simp: raw_action_defs fromObj_defs)
next
  case (5 a) then show ?case using accept_removes(4) [of "Server_ID (sServer a)" g] by (auto simp: raw_action_defs fromObj_defs)
qed

lemma Solve_do_accepts:
  assumes r: "NewRawRegistry cl = Ok r" and J: "\<And>a b. is_Ok (Solver_Diff J a b)"
    and k: "Ev_Kind e = obj_table (Ev_Obj e)" and op: "Ev_Op e \<in> {Create, Update, Delete}"
    and b: "Ev_Op e \<noteq> Update \<or> Ev_Kind e \<noteq> ''bind''"
  shows "\<exists>g' x. Solve_do J r (AEvent e) g = (g', Ok (AObj x))"
proof -
  obtain g0 st where g: "g = (g0, st)" by fastforce
  have "\<exists>g' x. op_action (raw_action cl (Ev_Obj e)) (Ev_Op e) (AEvent e) g0 = (g', Ok (AObj x))"
    using raw_accepts_put [of e g0] raw_accepts_delete [of e g0] b k by (auto simp: op_action_def)
  then have "\<exists>g' x. fire r e g = (g', Ok (AObj x))"
    using Registry_Do_known [OF Registry_Get_raw [OF r] op, of "Ev_Obj e" "AEvent e" g0] k g by (auto simp: fire_def)
  moreover obtain d where "Solver_Diff J (Ev_OldObj e) (Some (Ev_Obj e)) = Ok d"
    using J [of "Ev_OldObj e" "Some (Ev_Obj e)"] by (cases "Solver_Diff J (Ev_OldObj e) (Some (Ev_Obj e))") auto
  ultimately show ?thesis using op by (auto simp: Solve_do_def)
qed

end

interpretation refacc: accepting_client ref_client
  by unfold_locales (simp_all add: ref_client_def)

text \<open>Binds as the code makes them, from two IDs.\<close>

definition plain_binds :: "ManbaRawState \<Rightarrow> bool" where
  "plain_binds raw = list_all (\<lambda>b. case dBind b of None \<Rightarrow> True | Some m \<Rightarrow> Bind_XXX_unrecognized m = []) (raw_Binds raw)"

lemma plain_binds_contents:
  assumes "plain_binds raw" and "raw_contents raw ''bind'' i = Some m"
  shows "\<exists>b. m = WBind b \<and> bind_key b = i \<and> Bind_XXX_unrecognized b = []"
proof -
  obtain x where x: "raw_rows raw ''bind'' i = Some x" "obj_msg x = m" using assms(2) by (auto simp: raw_contents_def contents_def)
  from raw_rows_msg [OF x(1)] x(2) have "m \<in> set (raw_msgs raw)" "msg_table m = ''bind''" "msg_key m = i" by auto
  then show ?thesis
    using assms(1) by (cases m rule: wire.exhaust) (auto simp: raw_msgs_def plain_binds_def list_all_iff map_filter_def split: option.splits)
qed

lemma plain_binds_agree:
  assumes "plain_binds raw1" "plain_binds raw2" "raw_contents raw1 ''bind'' i = Some m" "raw_contents raw2 ''bind'' i = Some m'"
  shows "m = m'"
  using plain_binds_contents [OF assms(1,3)] plain_binds_contents [OF assms(2,4)]
  by (auto simp: bind_key_inj intro: metapb_Bind.equality)

lemma Solve_sync_run_ok:
  assumes "manba_db D rows ok C" and "accepting_client client" and "aligned raw1 raw2" "plain_binds raw1" "plain_binds raw2"
    and "state_Get C D raw1 = Ok current" and "state_Get C D raw2 = Ok target"
    and "\<And>a b. is_Ok (Solver_Diff J a b)" and "NewRawRegistry client = Ok r"
    and "NewSyncer C D target (Solve_do J r) False = Ok env"
  shows "sync_run_ok D rows ok C env (raw_tags raw1 \<union> raw_tags raw2) current"
proof -
  note st = state_Get_filed [OF assms(1,3,6,7)] and env = NewSyncer_Ok [OF assms(10)]
  have cl: "client_spec client" using assms(2) by (simp add: accepting_client_def)
  show ?thesis
  proof (intro sync_run_ok.intro [OF Solve_sync_run [OF assms(1) cl assms(3,6,7,9,10)]] sync_run_ok_axioms.intro)
    show "good_db rows ok current" "filed (raw_tags raw1 \<union> raw_tags raw2) (rows current)" by (fact st)+
    show "\<exists>g' x. se_do env (AEvent e) g = (g', Ok (AObj x))"
      if "Ev_Kind e = obj_table (Ev_Obj e)" "Ev_Op e \<in> {Create, Update, Delete}" "Ev_Op e \<noteq> Update \<or> Ev_Kind e \<noteq> ''bind''" for e g
      unfolding env(5) using accepting_client.Solve_do_accepts [OF assms(2,9) assms(8) that] .
    show "m = m'" if "contents (rows current) ''bind'' i = Some m" "contents (rows (targetState env)) ''bind'' i = Some m'" for i m m'
      using plain_binds_agree [OF assms(4,5)] that by (simp add: raw_contents_def st env(4))
  qed
qed

lemma maximal_converged:
  assumes "manba_db D rows ok C" and "accepting_client client" and "aligned raw1 raw2" "plain_binds raw1" "plain_binds raw2"
    and "state_Get C D raw1 = Ok current" and "state_Get C D raw2 = Ok target" and "0 < n" "n + 12 < 2 ^ 32"
    and "\<And>a b. is_Ok (Solver_Diff J a b)" and "NewRawRegistry client = Ok r"
    and "NewSyncer C D target (Solve_do J r) False = Ok env"
    and "reaches env (Run_start current (g, zero_Stats) n) s" and "\<nexists>s'. step env s s'"
  shows "main_pc s = MReturn \<and> errs s = [] \<and> same_contents (contents (rows (currentState s))) (raw_contents raw2)"
  using sync_run_ok.maximal_run [OF Solve_sync_run_ok [OF assms(1-7) assms(10-12)] assms(8,9,13,14)]
  by (simp add: raw_contents_def state_Get_filed [OF assms(1,3,6,7)] NewSyncer_Ok(4) [OF assms(12)])

lemma maximal_exists: "\<exists>s'. reaches env s s' \<and> (\<nexists>s''. step env s' s'')"
proof (induction s rule: wfp_induct_rule [OF execution_wf [of env]])
  case (1 s)
  show ?case
  proof (cases "\<exists>s'. step env s s'")
    case True
    then obtain s' where s': "step env s s'" by blast
    with 1 obtain t where "reaches env s' t" "\<nexists>t'. step env t t'" by blast
    with s' show ?thesis by (meson converse_rtranclp_into_rtranclp)
  qed blast
qed

lemma Solve_returns:
  assumes "manba_db D rows ok C" and "accepting_client client" and "aligned raw1 raw2" "plain_binds raw1" "plain_binds raw2"
    and "state_Get C D raw1 = Ok current" and "state_Get C D raw2 = Ok target" and "0 < n" "n + 12 < 2 ^ 32"
    and "\<And>a b. is_Ok (Solver_Diff J a b)"
  shows "\<exists>current' g' stats. Solve C D J client False current target g (int n) current' g' stats (Ok ())"
proof -
  obtain r where r: "NewRawRegistry client = Ok r" using NewRawRegistry_ok by blast
  obtain env where env: "NewSyncer C D target (Solve_do J r) False = Ok env"
    by (simp add: NewSyncer_def NewPostProcess_ok)
  obtain s where s: "reaches env (Run_start current (g, zero_Stats) n) s" "\<nexists>s'. step env s s'"
    using maximal_exists by blast
  have m: "main_pc s = MReturn" "errs s = []"
    using maximal_converged [OF assms r env s] by simp_all
  have "Run env current (g, zero_Stats) (int n) (currentState s) (fst (gateway s), snd (gateway s)) (errs s)"
    using Run.returns [of "int n" env current "(g, zero_Stats)" s] s(1) m(1) assms(8) by simp
  from Solve.Solve [OF r env this] m(2) show ?thesis by (auto simp: Solve_result_def)
qed

text \<open>A JSON library for the witnesses, whose text is the object itself.\<close>

definition ref_json :: "(obj option, obj option, unit) json_lib" where
  "ref_json = \<lparr>json_Marshal = Ok, json_Unmarshal = Ok, differ_Compare = (\<lambda>a b. Ok ()), formatter_Format = (\<lambda>l d. Ok [])\<rparr>"

lemma ref_json_ok: "is_Ok (Solver_Diff ref_json a b)"
  by (simp add: ref_json_def Solver_Diff_def)

lemma sample_plain: "plain_binds sample_raw" "plain_binds sample_target"
  by code_simp+

lemma sample_solve:
  obtains current target current' g' stats where "state_Get tagged_codecs refdb sample_raw = Ok current"
    "state_Get tagged_codecs refdb sample_target = Ok target"
    "Solve tagged_codecs refdb ref_json ref_client False current target g 3 current' g' stats (Ok ())"
proof -
  obtain current target where st: "state_Get tagged_codecs refdb sample_raw = Ok current"
      "state_Get tagged_codecs refdb sample_target = Ok target"
    using ref.state_Get_rows alignedD(1,2) [OF sample_aligned(1)] by metis
  have "\<exists>current' g' stats. Solve tagged_codecs refdb ref_json ref_client False current target g (int 3) current' g' stats (Ok ())"
    by (rule Solve_returns [OF ref.manba_db_axioms refacc.accepting_client_axioms sample_aligned(1) sample_plain st])
      (simp_all add: ref_json_ok)
  with st that show ?thesis by auto
qed

section \<open>The properties\<close>

text \<open>
  Convergence: when \<open>Solve\<close> reports success, under any interleaving of its goroutines, the current
  state holds the same keys as the target configuration, each with a message the comparison of its
  kind takes for equal. It is assumed that the two configurations have aligned names and IDs, that
  the gateway answers a put with the ID it was given, and that the caller passes no done channel.
\<close>

theorem Solve_converges:
  assumes "manba_db D rows ok C" and "client_spec client" and "aligned raw1 raw2"
    and "state_Get C D raw1 = Ok current" and "state_Get C D raw2 = Ok target" and "parallelism + 12 < 2 ^ 32"
    and "Solve C D J client False current target g parallelism current' g' stats (Ok ())"
  shows "same_contents (contents (rows current')) (raw_contents raw2)"
proof -
  obtain r env es where run: "NewRawRegistry client = Ok r" "NewSyncer C D target (Solve_do J r) False = Ok env"
      "Run env current (g, zero_Stats) parallelism current' (g', stats) es" and "Ok () = Solve_result es"
    by (rule Solve_Run [OF assms(7)])
  then have es: "es = []" by (metis Solve_result_Ok)
  note sr = Solve_sync_run [OF assms(1-5) run(1,2)] and st = state_Get_filed [OF assms(1,3-5)]
  from sync_run.Run_converged [OF sr st(1,3) assms(6)] run(3) es
  show ?thesis by (simp add: NewSyncer_Ok [OF run(2)] raw_contents_def st)
qed

theorem Solve_converges_witness:
  "\<exists>current target current' g' stats. state_Get tagged_codecs refdb sample_raw = Ok current \<and>
    state_Get tagged_codecs refdb sample_target = Ok target \<and>
    Solve tagged_codecs refdb ref_json ref_client False current target [] 3 current' g' stats (Ok ()) \<and>
    same_contents (contents (ref_rows current')) (raw_contents sample_target)"
proof -
  obtain current target current' g' stats where s: "state_Get tagged_codecs refdb sample_raw = Ok current"
      "state_Get tagged_codecs refdb sample_target = Ok target"
      "Solve tagged_codecs refdb ref_json ref_client False current target [] 3 current' g' stats (Ok ())"
    by (rule sample_solve)
  from Solve_converges [OF ref.manba_db_axioms refcl.client_spec_axioms sample_aligned(1) s(1,2) _ s(3)]
  show ?thesis using s by auto
qed

text \<open>
  C7. Whenever \<open>Solve\<close> returns, with or without errors, every key holds either its old content or that
  of the target: nothing is ever overwritten with anything else or removed by mistake.
\<close>

theorem Solve_only_forward:
  assumes "manba_db D rows ok C" and "client_spec client" and "aligned raw1 raw2"
    and "state_Get C D raw1 = Ok current" and "state_Get C D raw2 = Ok target" and "parallelism + 12 < 2 ^ 32"
    and "Solve C D J client False current target g parallelism current' g' stats res"
  shows "contents (rows current') t i \<in> {raw_contents raw1 t i, raw_contents raw2 t i}"
proof -
  obtain r env es where run: "NewRawRegistry client = Ok r" "NewSyncer C D target (Solve_do J r) False = Ok env"
      "Run env current (g, zero_Stats) parallelism current' (g', stats) es"
    by (rule Solve_Run [OF assms(7)])
  note sr = Solve_sync_run [OF assms(1-5) run(1,2)] and st = state_Get_filed [OF assms(1,3-5)]
  from sync_run.Run_only_forward [OF sr st(1,3) assms(6) run(3), of t i]
  show ?thesis by (auto simp: NewSyncer_Ok [OF run(2)] raw_contents_def st)
qed

theorem Solve_only_forward_witness:
  "\<exists>current target current' g' stats. state_Get tagged_codecs refdb sample_raw = Ok current \<and>
    state_Get tagged_codecs refdb sample_target = Ok target \<and>
    Solve tagged_codecs refdb ref_json ref_client False current target [] 3 current' g' stats (Ok ()) \<and>
    contents (ref_rows current') ''api'' ''9'' \<in> {raw_contents sample_raw ''api'' ''9'', raw_contents sample_target ''api'' ''9''}"
proof -
  obtain current target current' g' stats where s: "state_Get tagged_codecs refdb sample_raw = Ok current"
      "state_Get tagged_codecs refdb sample_target = Ok target"
      "Solve tagged_codecs refdb ref_json ref_client False current target [] 3 current' g' stats (Ok ())"
    by (rule sample_solve)
  from Solve_only_forward [OF ref.manba_db_axioms refcl.client_spec_axioms sample_aligned(1) s(1,2) _ s(3), of "''api''" "''9''"]
  show ?thesis using s by auto
qed

text \<open>
  C6. Total correctness: when the gateway accepts every request and the log output does not fail, every
  execution of the goroutines is finite, and every execution that cannot go on has returned, without
  errors and with the contents of the target. The binds are those the code makes, from two IDs; a spin
  of \<open>wait\<close> counts as waiting, not as a step.
\<close>

theorem Solve_total:
  assumes "manba_db D rows ok C" and "accepting_client client" and "aligned raw1 raw2" "plain_binds raw1" "plain_binds raw2"
    and "state_Get C D raw1 = Ok current" and "state_Get C D raw2 = Ok target" and "0 < n" "n + 12 < 2 ^ 32"
    and "\<And>a b. is_Ok (Solver_Diff J a b)" and "NewRawRegistry client = Ok r"
    and "NewSyncer C D target (Solve_do J r) False = Ok env"
  shows "wfp (\<lambda>s' s. step env s s') \<and>
    (\<forall>s. reaches env (Run_start current (g, zero_Stats) n) s \<and> (\<nexists>s'. step env s s') \<longrightarrow>
      main_pc s = MReturn \<and> errs s = [] \<and> same_contents (contents (rows (currentState s))) (raw_contents raw2))"
  using execution_wf maximal_converged [OF assms] by blast

theorem Solve_total_witness:
  "\<exists>current target r env. state_Get tagged_codecs refdb sample_raw = Ok current \<and>
    state_Get tagged_codecs refdb sample_target = Ok target \<and> NewRawRegistry ref_client = Ok r \<and>
    NewSyncer tagged_codecs refdb target (Solve_do ref_json r) False = Ok env \<and> wfp (\<lambda>s' s. step env s s') \<and>
    (\<forall>s. reaches env (Run_start current ([], zero_Stats) 3) s \<and> (\<nexists>s'. step env s s') \<longrightarrow>
      main_pc s = MReturn \<and> errs s = [] \<and> same_contents (contents (ref_rows (currentState s))) (raw_contents sample_target))"
proof -
  obtain current target where st: "state_Get tagged_codecs refdb sample_raw = Ok current"
      "state_Get tagged_codecs refdb sample_target = Ok target"
    using ref.state_Get_rows alignedD(1,2) [OF sample_aligned(1)] by metis
  obtain r where r: "NewRawRegistry ref_client = Ok r" using NewRawRegistry_ok by blast
  obtain env where env: "NewSyncer tagged_codecs refdb target (Solve_do ref_json r) False = Ok env"
    by (simp add: NewSyncer_def NewPostProcess_ok)
  have "wfp (\<lambda>s' s. step env s s') \<and> (\<forall>s. reaches env (Run_start current ([], zero_Stats) 3) s \<and> (\<nexists>s'. step env s s') \<longrightarrow>
      main_pc s = MReturn \<and> errs s = [] \<and> same_contents (contents (ref_rows (currentState s))) (raw_contents sample_target))"
    by (rule Solve_total [OF ref.manba_db_axioms refacc.accepting_client_axioms sample_aligned(1) sample_plain st _ _ _ r env])
      (simp_all add: ref_json_ok)
  with st r env show ?thesis by blast
qed

end
