(* ===== verification/Sync_Schedules.thy ===== *)
theory Sync_Schedules
  imports Solve_Laws
begin

text \<open>
  Concrete schedules of a run, executed by the kernel on the reference database and gateway: witnesses
  for the laws of the syncer, and a schedule in which \<open>Run\<close> never returns. With one worker and a request
  that fails, the worker ends and leaves an event in the channel; the counter stays above zero, so the
  producer spins in \<open>wait\<close> for ever, the error channel is never closed, and \<open>Run\<close> waits for it.
\<close>


fun schedule :: "('w, 'db, 'g) syncer_env \<Rightarrow> action list \<Rightarrow> ('db, 'g) Syncer \<Rightarrow> ('db, 'g) Syncer option" where
  "schedule env [] s = Some s"
| "schedule env (a # as) s = (case exec env a s of None \<Rightarrow> None | Some s' \<Rightarrow> schedule env as s')"

lemma schedule_reaches: "schedule env as s = Some s' \<Longrightarrow> reaches env s s'"
  by (induction as arbitrary: s)
    (auto split: option.splits intro: converse_rtranclp_into_rtranclp step.intros)

definition down_client :: "wire list client" where
  "down_client = ref_client\<lparr>cl_PutServer := (\<lambda>m g. (g, Err (NewError ''connection refused'')))\<rparr>"

definition two_servers :: ManbaRawState where
  "two_servers = empty_raw\<lparr>raw_Servers := [
     \<lparr>dServer = zero_Server\<lparr>Server_ID := 1, Server_Addr := ''10.0.0.1:80''\<rparr>\<rparr>,
     \<lparr>dServer = zero_Server\<lparr>Server_ID := 2, Server_Addr := ''10.0.0.2:80''\<rparr>\<rparr>]\<rparr>"

fun the_Ok :: "'a \<Rightarrow> 'a result \<Rightarrow> 'a" where
  "the_Ok d (Ok x) = x"
| "the_Ok d _ = d"

definition loaded :: "ManbaRawState \<Rightarrow> obj listdb" where
  "loaded raw = the_Ok (\<lambda>t. []) (state_Get tagged_codecs refdb raw)"

definition ref_env :: "wire list client \<Rightarrow> ManbaRawState \<Rightarrow> (wire, obj listdb, wire list \<times> Stats) syncer_env" where
  "ref_env cl raw = \<lparr>se_codecs = tagged_codecs, se_memdb = refdb, targetState = loaded raw,
     postProcess = the_Ok empty_Registry (NewPostProcess tagged_codecs refdb),
     se_do = Solve_do ref_json (the_Ok empty_Registry (NewRawRegistry cl)), se_done = False\<rparr>"

definition hang_schedule :: "action list" where
  "hang_schedule = replicate 6 Produce @ replicate 3 (Work 0) @ [WorkErr 0, Main]"

lemma ref_env_NewSyncer:
  "\<exists>r. NewRawRegistry cl = Ok r \<and> NewSyncer tagged_codecs refdb (loaded raw) (Solve_do ref_json r) False = Ok (ref_env cl raw)"
  by (simp add: NewSyncer_def NewRawRegistry_ok NewPostProcess_ok ref_env_def)

section \<open>A run that hangs\<close>

definition hung :: "('db, 'g) Syncer \<Rightarrow> bool" where
  "hung s \<longleftrightarrow> (case producer s of PWait _ \<Rightarrow> InFlightOps s \<noteq> 0 | _ \<Rightarrow> False) \<and>
     list_all (\<lambda>w. case w of WDone \<Rightarrow> True | _ \<Rightarrow> False) (workers s) \<and> main_pc s = MCollect \<and> \<not> errClosed s"

lemma hung_stuck:
  assumes "hung s"
  shows "\<not> step env s s'"
proof
  assume "step env s s'"
  then have "move env s s'" using step_move by blast
  moreover have "workers s ! i = WDone" if "i < length (workers s)" for i
    using assms that by (cases "workers s ! i") (auto simp: hung_def list_all_length)
  ultimately show False
    using assms by (cases rule: move.cases) (auto simp: hung_def all_done_def split: producer.splits)
qed

lemma hang_reached:
  "case schedule (ref_env down_client two_servers) hang_schedule (Run_start (loaded empty_raw) ([], zero_Stats) 1) of
     None \<Rightarrow> False | Some s \<Rightarrow> hung s \<and> errs s \<noteq> []"
  by code_simp

text \<open>
  C32. \<open>Run\<close> can hang: with one worker, two servers to create and a gateway that refuses the first
  request, a schedule reaches a state in which the error has been received but no goroutine can ever
  take another step and \<open>Run\<close> has not returned.
\<close>

theorem Run_can_hang:
  "\<exists>s. reaches (ref_env down_client two_servers) (Run_start (loaded empty_raw) ([], zero_Stats) 1) s \<and>
    (\<nexists>s'. step (ref_env down_client two_servers) s s') \<and> main_pc s = MCollect \<and> errs s \<noteq> []"
proof -
  obtain s where s: "schedule (ref_env down_client two_servers) hang_schedule (Run_start (loaded empty_raw) ([], zero_Stats) 1) = Some s"
      "hung s" "errs s \<noteq> []"
    using hang_reached by (auto split: option.splits)
  with schedule_reaches [OF s(1)] hung_stuck [OF s(2)] show ?thesis by (auto simp: hung_def)
qed

section \<open>Witnesses for the counter and the barrier\<close>

theorem InFlightOps_bounded_witness:
  "\<exists>s. reaches (ref_env down_client two_servers) (Run_start (loaded empty_raw) ([], zero_Stats) 1) s \<and> hung s \<and>
    0 \<le> sint (InFlightOps s) \<and> sint (InFlightOps s) \<le> int 1 + 12"
proof -
  obtain s where s: "schedule (ref_env down_client two_servers) hang_schedule (Run_start (loaded empty_raw) ([], zero_Stats) 1) = Some s"
      "hung s" using hang_reached by (auto split: option.splits)
  from InFlightOps_bounded [OF schedule_reaches [OF s(1)]] s schedule_reaches [OF s(1)] show ?thesis by auto
qed

lemma wait_reached:
  "case schedule (ref_env ref_client empty_raw) [Produce, Produce] (Run_start (loaded empty_raw) ([], zero_Stats) 2) of
     None \<Rightarrow> False
   | Some s \<Rightarrow> (case producer s of PWait _ \<Rightarrow> (case diff (ref_env ref_client empty_raw) s of None \<Rightarrow> False | Some _ \<Rightarrow> True) | _ \<Rightarrow> False)"
  by code_simp

theorem wait_is_a_barrier_witness:
  "\<exists>s s' ps. reaches (ref_env ref_client empty_raw) (Run_start (loaded empty_raw) ([], zero_Stats) 2) s \<and>
    producer s = PWait ps \<and> diff (ref_env ref_client empty_raw) s = Some s' \<and>
    eventChan s' = [] \<and> list_all (\<lambda>w. \<not> busy w) (workers s') \<and> producer s' = PNext ps"
proof -
  obtain s s' ps where s: "schedule (ref_env ref_client empty_raw) [Produce, Produce] (Run_start (loaded empty_raw) ([], zero_Stats) 2) = Some s"
      "producer s = PWait ps" "diff (ref_env ref_client empty_raw) s = Some s'"
    using wait_reached by (auto split: option.splits producer.splits)
  from wait_is_a_barrier [OF schedule_reaches [OF s(1)] _ s(2,3)] s schedule_reaches [OF s(1)] show ?thesis by auto
qed

end
