(* ===== verification/Dump.thy ===== *)
theory Dump
  imports Solve_Laws
begin

text \<open>
  Reading the configuration of the gateway (\<open>pkg/manba/dump/dump.go\<close>). The client calls its callback for
  every entity; the callbacks of \<open>Get\<close> always go on, so a listing is the list of all entities or an error.
\<close>

definition list_binds :: "'g client \<Rightarrow> 'g \<Rightarrow> dump_Cluster list \<Rightarrow> dump_Bind list \<Rightarrow> dump_Bind list result" where
  "list_binds cl g = rfold (\<lambda>c binds.
     rbind (wrap_err ''list binds'' (cl_GetBindServers cl (Cluster_ID (dCluster c)) g)) (\<lambda>ids.
       Ok (binds @ map (\<lambda>id. \<lparr>dBind_ClusterName = [], dBind_ServerAddr = [],
         dBind = Some (zero_Bind\<lparr>Bind_ClusterID := Cluster_ID (dCluster c), Bind_ServerID := id\<rparr>)\<rparr>) ids)))"

definition dump_Get :: "'g client \<Rightarrow> 'g \<Rightarrow> ManbaRawState result" where
  "dump_Get cl g =
     rbind (wrap_err ''list clusters'' (cl_GetClusterList cl g)) (\<lambda>cs.
     let clusters = map (\<lambda>c. \<lparr>dCluster = c\<rparr>) cs in
     rbind (wrap_err ''list servers'' (cl_GetServerList cl g)) (\<lambda>ss.
     rbind (list_binds cl g clusters []) (\<lambda>binds.
     rbind (wrap_err ''list apis'' (cl_GetAPIList cl g)) (\<lambda>as.
     rbind (wrap_err ''list routings'' (cl_GetRoutingList cl g)) (\<lambda>rs.
     Ok \<lparr>raw_APIs = map (\<lambda>a. \<lparr>dAPI = a, dAPI_Proxies = []\<rparr>) as,
         raw_Servers = map (\<lambda>s. \<lparr>dServer = s\<rparr>) ss,
         raw_Clusters = clusters,
         raw_Binds = binds,
         raw_Routings = map (\<lambda>r. \<lparr>dRouting_APIName = [], dRouting_ClusterName = [], dRouting = r\<rparr>) rs\<rparr>)))))"

text \<open>The binds of a dump are made from two IDs and belong to a cluster of the dump.\<close>

lemma list_binds_ok:
  assumes "list_binds cl g cs bs = Ok bs'"
    and "\<And>b. b \<in> set bs \<Longrightarrow> P b"
    and "\<And>c b. c \<in> set cs \<Longrightarrow> P \<lparr>dBind_ClusterName = [], dBind_ServerAddr = [],
      dBind = Some (zero_Bind\<lparr>Bind_ClusterID := Cluster_ID (dCluster c), Bind_ServerID := b\<rparr>)\<rparr>"
    and "b \<in> set bs'"
  shows "P b"
proof -
  have "\<forall>b\<in>set bs'. P b"
    using assms(1) unfolding list_binds_def
    by (rule rfold_invariant) (use assms(2,3) in \<open>auto simp: go_simps\<close>)
  with assms(4) show ?thesis by blast
qed

lemma dump_Get_binds:
  assumes "dump_Get cl g = Ok raw" and "b \<in> set (raw_Binds raw)"
  shows "\<exists>c\<in>set (raw_Clusters raw). \<exists>m. dBind b = Some m \<and> Bind_ClusterID m = Cluster_ID (dCluster c) \<and> Bind_XXX_unrecognized m = []"
proof -
  obtain bs where bs: "list_binds cl g (raw_Clusters raw) [] = Ok bs" "raw_Binds raw = bs"
    using assms(1) by (auto simp: dump_Get_def go_simps Let_def)
  show ?thesis
    by (rule list_binds_ok [OF bs(1), where P = "\<lambda>b. \<exists>c\<in>set (raw_Clusters raw). \<exists>m. dBind b = Some m \<and>
        Bind_ClusterID m = Cluster_ID (dCluster c) \<and> Bind_XXX_unrecognized m = []"])
      (use assms(2) bs(2) in \<open>auto simp: zero_Bind_def\<close>)
qed

lemma dump_Get_plain: "dump_Get cl g = Ok raw \<Longrightarrow> plain_binds raw"
  using dump_Get_binds [of cl g raw] by (fastforce simp: plain_binds_def list_all_iff)

end
