(* ===== verification/Gateway_Laws.thy ===== *)
theory Gateway_Laws
  imports Dump
begin

text \<open>
  What a gateway that keeps its promises holds after a synchronisation. The locale \<open>gateway_spec\<close> extends
  the contract of the client with a view of the stored entities and the effect of each successful
  request on it; the reference client implements it. With it the convergence of the state carries
  over to the gateway itself.
\<close>

section \<open>A gateway that stores what it is told\<close>

text \<open>
  The contents of the gateway as a view, and what a successful request does to it. Nothing is said
  about requests that fail.
\<close>

definition stored :: "wire \<Rightarrow> (string \<Rightarrow> string \<rightharpoonup> wire) \<Rightarrow> string \<Rightarrow> string \<rightharpoonup> wire" where
  "stored w G = G(msg_table w := (G (msg_table w))(msg_key w \<mapsto> w))"

definition dropped :: "string \<Rightarrow> string \<Rightarrow> (string \<Rightarrow> string \<rightharpoonup> wire) \<Rightarrow> string \<Rightarrow> string \<rightharpoonup> wire" where
  "dropped t i G = G(t := (G t)(i := None))"

abbreviation bind_of :: "uint64 \<Rightarrow> uint64 \<Rightarrow> metapb_Bind" where
  "bind_of c s \<equiv> zero_Bind\<lparr>Bind_ClusterID := c, Bind_ServerID := s\<rparr>"

locale gateway_spec = client_spec cl
  for cl :: "'g client" +
  fixes view :: "'g \<Rightarrow> string \<Rightarrow> string \<rightharpoonup> wire"
  assumes view_puts: "API_ID a \<noteq> 0 \<Longrightarrow> cl_PutAPI cl a g = (g', Ok i) \<Longrightarrow> view g' = stored (WAPI a) (view g)"
      "Cluster_ID c \<noteq> 0 \<Longrightarrow> cl_PutCluster cl c g = (g', Ok i) \<Longrightarrow> view g' = stored (WCluster c) (view g)"
      "Routing_ID r \<noteq> 0 \<Longrightarrow> cl_PutRouting cl r g = (g', Ok i) \<Longrightarrow> view g' = stored (WRouting r) (view g)"
      "Server_ID s \<noteq> 0 \<Longrightarrow> cl_PutServer cl s g = (g', Ok i) \<Longrightarrow> view g' = stored (WServer s) (view g)"
    and view_removes: "cl_RemoveAPI cl i g = (g', Ok ()) \<Longrightarrow> view g' = dropped ''api'' (id2Str i) (view g)"
      "cl_RemoveCluster cl i g = (g', Ok ()) \<Longrightarrow> view g' = dropped ''cluster'' (id2Str i) (view g)"
      "cl_RemoveRouting cl i g = (g', Ok ()) \<Longrightarrow> view g' = dropped ''routing'' (id2Str i) (view g)"
      "cl_RemoveServer cl i g = (g', Ok ()) \<Longrightarrow> view g' = dropped ''server'' (id2Str i) (view g)"
    and view_binds: "cl_AddBind cl i j g = (g', Ok ()) \<Longrightarrow> view g' = stored (WBind (bind_of i j)) (view g)"
      "cl_RemoveBind cl i j g = (g', Ok ()) \<Longrightarrow> view g' = dropped ''bind'' (bind_key (bind_of i j)) (view g)"
begin

lemma view_put:
  assumes "act_Create (raw_action cl (Ev_Obj e)) (AEvent e) g = (g', Ok r) \<or>
      act_Update (raw_action cl (Ev_Obj e)) (AEvent e) g = (g', Ok r) \<and> r \<noteq> ANil"
    and "msg_valid (obj_msg (Ev_Obj e))" and "\<And>b. obj_msg (Ev_Obj e) = WBind b \<Longrightarrow> Bind_XXX_unrecognized b = []"
  shows "view g' = stored (obj_msg (Ev_Obj e)) (view g)"
proof (cases "Ev_Obj e")
  case (PAPI a)
  with assms(1,2) view_puts(1) [of "sAPI a" g g'] show ?thesis
    by (auto simp: raw_action_defs fromObj_defs usable_ID_def go_simps split: prod.splits)
next
  case (PCluster a)
  with assms(1,2) view_puts(2) [of "sCluster a" g g'] show ?thesis
    by (auto simp: raw_action_defs fromObj_defs usable_ID_def go_simps split: prod.splits)
next
  case (PRouting a)
  with assms(1,2) view_puts(3) [of "sRouting a" g g'] show ?thesis
    by (auto simp: raw_action_defs fromObj_defs usable_ID_def go_simps split: prod.splits)
next
  case (PServer a)
  with assms(1,2) view_puts(4) [of "sServer a" g g'] show ?thesis
    by (auto simp: raw_action_defs fromObj_defs usable_ID_def go_simps split: prod.splits)
next
  case (PBind b)
  then have "bind_of (Bind_ClusterID (sBind b)) (Bind_ServerID (sBind b)) = sBind b"
    using assms(3) [of "sBind b"] by (cases "sBind b") (simp add: zero_Bind_def)
  with PBind assms(1) view_binds(1) [of "Bind_ClusterID (sBind b)" "Bind_ServerID (sBind b)" g g'] show ?thesis
    by (auto simp: raw_action_defs fromObj_defs go_simps split: prod.splits)
qed

lemma view_delete:
  assumes "act_Delete (raw_action cl (Ev_Obj e)) (AEvent e) g = (g', Ok r)"
  shows "view g' = dropped (obj_table (Ev_Obj e)) (msg_key (obj_msg (Ev_Obj e))) (view g)"
proof -
  have "bind_key (bind_of (Bind_ClusterID b) (Bind_ServerID b)) = bind_key b" for b
    by (simp add: bind_key_def zero_Bind_def)
  then show ?thesis
    using assms view_removes [of _ g g'] view_binds(2) [of _ _ g g']
    by (cases "Ev_Obj e") (auto simp: raw_action_defs fromObj_defs go_simps split: prod.splits)
qed

lemma Solve_do_effect:
  assumes r: "NewRawRegistry cl = Ok r" and "Solve_do J r (AEvent e) gs = (gs', Ok a)" "a \<noteq> ANil"
    and k: "Ev_Kind e = obj_table (Ev_Obj e)" and v: "msg_valid (obj_msg (Ev_Obj e))"
    and b: "\<And>b. obj_msg (Ev_Obj e) = WBind b \<Longrightarrow> Ev_Op e \<noteq> Delete \<Longrightarrow> Bind_XXX_unrecognized b = []"
  shows "view (fst gs') = apply_event e (view (fst gs))"
proof -
  obtain g st where gs: "gs = (g, st)" by fastforce
  have op: "Ev_Op e \<in> {Create, Update, Delete}" and f: "fire r e (g, st) = (gs', Ok a)"
    using assms(2) gs by (auto simp: Solve_do_def split: if_splits result.splits)
  note do = Registry_Do_known [OF Registry_Get_raw [OF r] op, of "Ev_Obj e" "AEvent e" g]
  have g': "op_action (raw_action cl (Ev_Obj e)) (Ev_Op e) (AEvent e) g = (fst gs', Ok a)"
    using f do k by (cases "op_action (raw_action cl (Ev_Obj e)) (Ev_Op e) (AEvent e) g")
      (auto simp: fire_def split: result.splits)
  show ?thesis
  proof (cases "Ev_Op e = Delete")
    case True
    with g' view_delete [of e g "fst gs'" a] k gs show ?thesis
      by (simp add: op_action_def op_defs apply_event_def dropped_def)
  next
    case False
    with g' view_put [of e g "fst gs'" a] op assms(3) v b have "view (fst gs') = stored (obj_msg (Ev_Obj e)) (view g)"
      by (auto simp: op_action_def split: if_splits)
    with False k gs show ?thesis by (simp add: apply_event_def stored_def)
  qed
qed

end

definition ref_view :: "wire list \<Rightarrow> string \<Rightarrow> string \<rightharpoonup> wire" where
  "ref_view g t i = map_of (map (\<lambda>w. ((msg_table w, msg_key w), w)) g) (t, i)"

lemma ref_view_drop:
  assumes "\<And>w. P w \<longleftrightarrow> (msg_table w, msg_key w) \<noteq> (t, i)"
  shows "ref_view (filter P g) = dropped t i (ref_view g)"
proof -
  have "filter P g = filter (\<lambda>w. (msg_table w, msg_key w) \<noteq> (t, i)) g"
    using assms by (intro filter_cong) auto
  then show ?thesis
    unfolding ref_view_def [abs_def] dropped_def
    by (simp only: map_of_keyed_filter [of "\<lambda>w. (msg_table w, msg_key w)"]) (auto simp: fun_eq_iff)
qed

lemma ref_view_put:
  assumes "\<And>x. P x \<longleftrightarrow> (msg_table x, msg_key x) \<noteq> (msg_table w, msg_key w)"
  shows "ref_view (filter P g @ [w]) = stored w (ref_view g)"
proof -
  have "ref_view (filter P g @ [w]) t i = (case ref_view (filter P g) t i of None \<Rightarrow> if (t, i) = (msg_table w, msg_key w) then Some w else None | Some x \<Rightarrow> Some x)" for t i
    by (simp add: ref_view_def map_add_def split: option.splits)
  then show ?thesis
    unfolding ref_view_drop [OF assms] by (auto simp: stored_def dropped_def fun_eq_iff split: option.splits)
qed

interpretation refgw: gateway_spec ref_client ref_view
proof (unfold_locales, goal_cases)
  case (1 a g g' i) then show ?case by (auto simp: ref_client_def drop_API_def intro!: ref_view_put split: wire.splits)
next
  case (2 a g g' i) then show ?case by (auto simp: ref_client_def drop_Cluster_def intro!: ref_view_put split: wire.splits)
next
  case (3 a g g' i) then show ?case by (auto simp: ref_client_def drop_Routing_def intro!: ref_view_put split: wire.splits)
next
  case (4 a g g' i) then show ?case by (auto simp: ref_client_def drop_Server_def intro!: ref_view_put split: wire.splits)
next
  case (5 i g g') then show ?case by (auto simp: ref_client_def drop_API_def intro!: ref_view_drop split: wire.splits)
next
  case (6 i g g') then show ?case by (auto simp: ref_client_def drop_Cluster_def intro!: ref_view_drop split: wire.splits)
next
  case (7 i g g') then show ?case by (auto simp: ref_client_def drop_Routing_def intro!: ref_view_drop split: wire.splits)
next
  case (8 i g g') then show ?case by (auto simp: ref_client_def drop_Server_def intro!: ref_view_drop split: wire.splits)
next
  case (9 i j g g') then show ?case
    by (auto simp: ref_client_def drop_Bind_def bind_key_inj zero_Bind_def intro!: ref_view_put split: wire.splits)
next
  case (10 i j g g') then show ?case
    by (auto simp: ref_client_def drop_Bind_def bind_key_inj zero_Bind_def intro!: ref_view_drop split: wire.splits)
qed

lemma Solve_sync_gateway:
  assumes "manba_db D rows ok C" and "gateway_spec client view" and "aligned raw1 raw2" and "plain_binds raw2"
    and "state_Get C D raw1 = Ok current" and "state_Get C D raw2 = Ok target"
    and "NewRawRegistry client = Ok r" and "NewSyncer C D target (Solve_do J r) False = Ok env"
  shows "sync_gateway D rows ok C env (raw_tags raw1 \<union> raw_tags raw2) (\<lambda>gs. view (fst gs))"
proof -
  have cl: "client_spec client" using assms(2) by (simp add: gateway_spec_def)
  note st = state_Get_filed [OF assms(1,3,5,6)] and env = NewSyncer_Ok [OF assms(8)]
  show ?thesis
  proof (intro sync_gateway.intro [OF Solve_sync_run [OF assms(1) cl assms(3,5-8)]] sync_gateway_axioms.intro)
    fix X e gs gs' a
    assume fit: "fits (raw_tags raw1 \<union> raw_tags raw2) X (contents (rows (targetState env))) e"
      and do: "se_do env (AEvent e) gs = (gs', Ok a)" "a \<noteq> ANil"
    have e: "Ev_Kind e = obj_table (Ev_Obj e)" "msg_valid (obj_msg (Ev_Obj e))"
      using fit by (auto simp: fits_def entity_ok_def Let_def)
    have "Bind_XXX_unrecognized b = []" if b: "obj_msg (Ev_Obj e) = WBind b" "Ev_Op e \<noteq> Delete" for b
    proof -
      have "obj_table (Ev_Obj e) = ''bind''" using b(1) msg_table_obj [of "Ev_Obj e"] by simp
      then have "raw_contents raw2 ''bind'' (bind_key b) = Some (WBind b)"
        using fit b by (auto simp: fits_def Let_def raw_contents_def st env(4))
      from plain_binds_contents [OF assms(4) this] show ?thesis by auto
    qed
    from gateway_spec.Solve_do_effect [OF assms(2,7) _ do(2) e this, of J gs gs'] do(1) env(5)
    show "view (fst gs') = apply_event e (view (fst gs))" by simp
  qed
qed

lemma Solve_gateway:
  assumes "manba_db D rows ok C" and "gateway_spec client view" and "aligned raw1 raw2" and "plain_binds raw2"
    and "state_Get C D raw1 = Ok current" and "state_Get C D raw2 = Ok target" and "parallelism + 12 < 2 ^ 32"
    and "view g = raw_contents raw1"
    and "Solve C D J client False current target g parallelism current' g' stats (Ok ())"
  shows "same_contents (view g') (raw_contents raw2)"
proof -
  obtain r env es where run: "NewRawRegistry client = Ok r" "NewSyncer C D target (Solve_do J r) False = Ok env"
      "Run env current (g, zero_Stats) parallelism current' (g', stats) es" and "Ok () = Solve_result es"
    by (rule Solve_Run [OF assms(9)])
  then have es: "es = []" by (metis Solve_result_Ok)
  note sg = Solve_sync_gateway [OF assms(1-6) run(1,2)] and st = state_Get_filed [OF assms(1,3,5,6)]
  from sync_gateway.Run_gateway [OF sg st(1,3) assms(7), of "(g, zero_Stats)" current' "(g', stats)"] run(3) es assms(8)
  have "view g' = contents (rows current')" by (simp add: raw_contents_def st)
  moreover have "same_contents (contents (rows current')) (raw_contents raw2)"
    using sync_run.Run_converged [OF sync_gateway.axioms(1) [OF sg] st(1,3) assms(7)] run(3) es
    by (simp add: NewSyncer_Ok(4) [OF run(2)] raw_contents_def st)
  ultimately show ?thesis by simp
qed

lemma map_of_table:
  assumes "\<And>x. msg_table (f x) = T"
  shows "map_of (map (\<lambda>w. ((msg_table w, msg_key w), w)) (map f xs)) (t, i) =
    (if t = T then map_of (map (\<lambda>x. (msg_key (f x), f x)) xs) i else None)"
  by (induction xs) (auto simp: assms)

lemmas map_of_tables =
  map_of_table [of "\<lambda>a. WAPI (dAPI a)", OF msg_table.simps(1), unfolded msg_key.simps]
  map_of_table [of "\<lambda>a. WCluster (dCluster a)", OF msg_table.simps(3), unfolded msg_key.simps]
  map_of_table [of "\<lambda>a. WRouting (dRouting a)", OF msg_table.simps(4), unfolded msg_key.simps]
  map_of_table [of "\<lambda>a. WServer (dServer a)", OF msg_table.simps(5), unfolded msg_key.simps]
  map_of_table [of WBind, OF msg_table.simps(2), unfolded msg_key.simps]

lemma map_of_rows:
  "map_option obj_msg (map_of (map api_row as) i) = map_of (map (\<lambda>a. (id2Str (API_ID (dAPI a)), WAPI (dAPI a))) as) i"
  "map_option obj_msg (map_of (map cluster_row cs) i) = map_of (map (\<lambda>a. (id2Str (Cluster_ID (dCluster a)), WCluster (dCluster a))) cs) i"
  "map_option obj_msg (map_of (map routing_row rs) i) = map_of (map (\<lambda>a. (id2Str (Routing_ID (dRouting a)), WRouting (dRouting a))) rs) i"
  "map_option obj_msg (map_of (map server_row ss) i) = map_of (map (\<lambda>a. (id2Str (Server_ID (dServer a)), WServer (dServer a))) ss) i"
  "map_option obj_msg (map_of (map bind_row bs) i) = map_of (map (\<lambda>a. (bind_key a, WBind a)) bs) i"
  by (induction as, simp_all add: api_row_def new_API_def Let_def)
    (induction cs, simp_all add: cluster_row_def new_Cluster_def Let_def,
     induction rs, simp_all add: routing_row_def new_Routing_def Let_def,
     induction ss, simp_all add: server_row_def new_Server_def Let_def,
     induction bs, simp_all add: bind_row_def new_Bind_def)

text \<open>A reference gateway that holds the messages of a configuration has its contents.\<close>

lemma ref_view_raw: "ref_view (raw_msgs raw) = raw_contents raw"
proof (intro ext)
  fix t i
  have "ref_view (raw_msgs raw) t i =
    (if t = ''api'' then map_option obj_msg (map_of (map api_row (raw_APIs raw)) i)
     else if t = ''cluster'' then map_option obj_msg (map_of (map cluster_row (raw_Clusters raw)) i)
     else if t = ''routing'' then map_option obj_msg (map_of (map routing_row (raw_Routings raw)) i)
     else if t = ''server'' then map_option obj_msg (map_of (map server_row (raw_Servers raw)) i)
     else if t = ''bind'' then map_option obj_msg (map_of (map bind_row (List.map_filter dBind (raw_Binds raw))) i)
     else None)"
    unfolding ref_view_def raw_msgs_def map_append map_of_append map_add_def map_of_rows map_of_tables
    by (cases "t = ''api''"; cases "t = ''cluster''"; cases "t = ''routing''"; cases "t = ''server''"; cases "t = ''bind''")
      (simp_all split: option.splits)
  also have "\<dots> = raw_contents raw t i"
    unfolding raw_contents_def contents_def raw_rows_def
    by (cases "t = ''api''"; cases "t = ''cluster''"; cases "t = ''routing''"; cases "t = ''server''"; cases "t = ''bind''") simp_all
  finally show "ref_view (raw_msgs raw) t i = raw_contents raw t i" .
qed

text \<open>
  C4. The gateway converges: when it held the current configuration before and \<open>Solve\<close> reports success,
  its contents are those of the target configuration, under any interleaving of the goroutines.
\<close>

theorem Solve_gateway_converges:
  assumes "manba_db D rows ok C" and "gateway_spec client view" and "aligned raw1 raw2" and "plain_binds raw2"
    and "state_Get C D raw1 = Ok current" and "state_Get C D raw2 = Ok target" and "parallelism + 12 < 2 ^ 32"
    and "view g = raw_contents raw1"
    and "Solve C D J client False current target g parallelism current' g' stats (Ok ())"
  shows "same_contents (view g') (raw_contents raw2)"
  using Solve_gateway [OF assms] .

theorem Solve_gateway_converges_witness:
  "\<exists>current target current' g' stats. state_Get tagged_codecs refdb sample_raw = Ok current \<and>
    state_Get tagged_codecs refdb sample_target = Ok target \<and>
    Solve tagged_codecs refdb ref_json ref_client False current target (raw_msgs sample_raw) 3 current' g' stats (Ok ()) \<and>
    same_contents (ref_view g') (raw_contents sample_target)"
proof -
  obtain current target current' g' stats where s: "state_Get tagged_codecs refdb sample_raw = Ok current"
      "state_Get tagged_codecs refdb sample_target = Ok target"
      "Solve tagged_codecs refdb ref_json ref_client False current target (raw_msgs sample_raw) 3 current' g' stats (Ok ())"
    by (rule sample_solve)
  from Solve_gateway_converges [OF ref.manba_db_axioms refgw.gateway_spec_axioms sample_aligned(1) sample_plain(2) s(1,2) _
    ref_view_raw s(3)]
  show ?thesis using s by auto
qed

end
