(* ===== verification/Sync_Instances.thy ===== *)
theory Sync_Instances
  imports Sync_Schedules Gateway_Laws
begin

text \<open>
  The contracts of a run on the reference database and gateway: the environments that \<open>NewSyncer\<close> makes for
  the sample configurations satisfy the locales of the syncer, so their laws hold of the runs that
  \<open>Sync_Schedules\<close> executes.
\<close>

lemma loaded_state_Get:
  assumes "aligned raw1 raw2"
  shows "state_Get tagged_codecs refdb raw1 = Ok (loaded raw1)" "state_Get tagged_codecs refdb raw2 = Ok (loaded raw2)"
  using ref.state_Get_rows alignedD(1,2) [OF assms] unfolding loaded_def by (metis the_Ok.simps(1))+

interpretation sample_run: sync_run_ok refdb ref_rows ref_inv tagged_codecs "ref_env ref_client sample_target"
    "raw_tags sample_raw \<union> raw_tags sample_target" "loaded sample_raw"
proof -
  obtain r where r: "NewRawRegistry ref_client = Ok r"
      "NewSyncer tagged_codecs refdb (loaded sample_target) (Solve_do ref_json r) False = Ok (ref_env ref_client sample_target)"
    using ref_env_NewSyncer by blast
  show "sync_run_ok refdb ref_rows ref_inv tagged_codecs (ref_env ref_client sample_target)
      (raw_tags sample_raw \<union> raw_tags sample_target) (loaded sample_raw)"
    by (rule Solve_sync_run_ok [OF ref.manba_db_axioms refacc.accepting_client_axioms sample_aligned(1) sample_plain
      loaded_state_Get [OF sample_aligned(1)] ref_json_ok r])
qed

interpretation sample_gateway: sync_gateway refdb ref_rows ref_inv tagged_codecs "ref_env ref_client sample_target"
    "raw_tags sample_raw \<union> raw_tags sample_target" "\<lambda>gs. ref_view (fst gs)"
proof -
  obtain r where r: "NewRawRegistry ref_client = Ok r"
      "NewSyncer tagged_codecs refdb (loaded sample_target) (Solve_do ref_json r) False = Ok (ref_env ref_client sample_target)"
    using ref_env_NewSyncer by blast
  show "sync_gateway refdb ref_rows ref_inv tagged_codecs (ref_env ref_client sample_target)
      (raw_tags sample_raw \<union> raw_tags sample_target) (\<lambda>gs. ref_view (fst gs))"
    by (rule Solve_sync_gateway [OF ref.manba_db_axioms refgw.gateway_spec_axioms sample_aligned(1) sample_plain(2)
      loaded_state_Get [OF sample_aligned(1)] r])
qed

end
