(* ===== verification/Crd.thy ===== *)
theory Crd
  imports Raw_State "HOL-Library.AList"
begin

text \<open>
  The Kubernetes objects the controller reads: the custom resources of the repository
  (\<open>pkg/apis/configuration/v1beta1/types.go\<close>) and, as far as the code names their fields, the services,
  endpoints, pods and nodes of \<open>k8s.io/api\<close>. A Go map that the code only iterates or looks up is a list
  of entries in the order of the iteration. Timestamps are nanoseconds. A pointer to a sub-message of
  the gateway that the code passes on is its serialised bytes, as in \<open>Metapb\<close>.
\<close>

section \<open>strconv.Atoi and intstr.IntOrString\<close>

definition is_digit :: "char \<Rightarrow> bool" where
  "is_digit c \<longleftrightarrow> 48 \<le> (of_char c :: nat) \<and> (of_char c :: nat) \<le> 57"

text \<open>
  \<open>Atoi\<close> of a 64 bit platform: an optional sign and at least one digit. What is not a number gives zero
  and a syntax error, what is out of range gives the nearest integer and a range error.
\<close>

definition Atoi_syntax :: go_error where "Atoi_syntax = NewError ''invalid syntax''"
definition Atoi_range :: go_error where "Atoi_range = NewError ''value out of range''"

definition Atoi :: "string \<Rightarrow> int \<times> go_error option" where
  "Atoi s =
     (let (neg, ds) = (case s of [] \<Rightarrow> (False, [])
        | c # cs \<Rightarrow> if c = CHR ''-'' then (True, cs) else if c = CHR ''+'' then (False, cs) else (False, s))
      in if ds = [] \<or> \<not> list_all is_digit ds then (0, Some Atoi_syntax)
         else let i = (if neg then - int (undigits ds) else int (undigits ds))
              in if i < - (2 ^ 63) then (- (2 ^ 63), Some Atoi_range)
                 else if 2 ^ 63 \<le> i then (2 ^ 63 - 1, Some Atoi_range)
                 else (i, None))"

text \<open>Reading a printed number gives it back.\<close>

lemma is_digit_digit_char: "d < 10 \<Longrightarrow> is_digit (digit_char d)"
  by (simp add: is_digit_def of_char_digit)

lemma utoa_digits: "list_all is_digit (utoa n)"
proof (induction n rule: utoa.induct)
  case (1 n)
  then show ?case by (cases "n < 10") (simp_all add: utoa.simps [of n] is_digit_digit_char)
qed

lemma Atoi_itoa:
  assumes "- (2 ^ 63) \<le> i" and "i < 2 ^ 63"
  shows "Atoi (itoa i) = (i, None)"
proof -
  have pm: "\<not> is_digit (CHR ''-'')" "\<not> is_digit (CHR ''+'')" by (simp_all add: is_digit_def)
  obtain c cs where u: "utoa (nat i) = c # cs" by (cases "utoa (nat i)") auto
  with utoa_digits [of "nat i"] have "is_digit c" by simp
  with pm have "c \<noteq> CHR ''-''" "c \<noteq> CHR ''+''" by auto
  with u show ?thesis
    using assms utoa_digits [of "nat i"] utoa_digits [of "nat (- i)"] undigits_utoa [of "nat i"] undigits_utoa [of "nat (- i)"]
    by (auto simp: Atoi_def itoa_def Let_def)
qed

datatype IntOrString = IntVal int32 | StrVal string

fun IntValue :: "IntOrString \<Rightarrow> int" where
  "IntValue (IntVal i) = sint i"
| "IntValue (StrVal s) = fst (Atoi s)"

fun IntOrString_String :: "IntOrString \<Rightarrow> string" where
  "IntOrString_String (IntVal i) = itoa (sint i)"
| "IntOrString_String (StrVal s) = s"

section \<open>Object metadata\<close>

record ObjectMeta =
  meta_Name :: string
  meta_Namespace :: string
  meta_Annotations :: "(string \<times> string) list"
  meta_Labels :: "(string \<times> string) list"
  meta_CreationTimestamp :: int

section \<open>ManbaIngress\<close>

record ManbaHTTPMatchRule =
  mr_URI_Pattern :: string
  mr_Method :: "string option"
  mr_MatchType :: string

record ManbaHTTPMatch =
  match_Host :: string
  match_Rules :: "ManbaHTTPMatchRule list"

record ManbaHTTPRouteCluster =
  rc_Name :: string
  rc_Subset :: string
  rc_Port :: IntOrString

record ManbaHTTPRouteMatch =
  rm_Cookie :: "(string \<times> string) list"
  rm_Query :: "(string \<times> string) list"
  rm_JSONBody :: "(string \<times> string) list"
  rm_Header :: "(string \<times> string) list"
  rm_PathValue :: "(string \<times> string) list"
  rm_FormData :: "(string \<times> string) list"

text \<open>\<open>ManbaHTTPURIRewrite\<close> has one field, so a pointer to it is an optional string.\<close>

record ManbaHTTPRoute =
  route_Cluster :: ManbaHTTPRouteCluster
  route_Rewrite :: "string option"
  route_AttrName :: string
  route_Match :: "ManbaHTTPRouteMatch option"
  route_Cache :: "pbmsg option"
  route_BatchIndex :: int32
  route_DefaultValue :: "pbmsg option"
  route_WriteTimeout :: int64
  route_ReadTimeout :: int64

record ManbaHTTPRouting =
  routing_Cluster :: ManbaHTTPRouteCluster
  routing_Rate :: "int32 option"
  routing_Conditions :: "pbmsg list"

record TrafficPolicy =
  tp_LoadBalancer :: "string option"
  tp_MaxQPS :: uint64
  tp_CircuitBreaker :: "pbmsg option"
  tp_RateLimitOption :: "string option"

record ManbaHTTPRule =
  rule_Match :: "ManbaHTTPMatch list"
  rule_Rewrite :: "string option"
  rule_IPAccessControl :: "pbmsg option"
  rule_Retry :: "pbmsg option"
  rule_DefaultValue :: "pbmsg option"
  rule_RenderTemplate :: "pbmsg option"
  rule_AuthFilter :: "string option"
  rule_TrafficPolicy :: "TrafficPolicy option"
  rule_Route :: "ManbaHTTPRoute list"
  rule_Mirror :: "ManbaHTTPRouting list"
  rule_Split :: "ManbaHTTPRouting list"

record IngressTLS =
  tls_Hosts :: "string list"
  tls_SecretName :: string

record LoadBalancerIngress =
  lb_IP :: string
  lb_Hostname :: string

record ManbaIngressSpec =
  spec_HTTP :: "ManbaHTTPRule list"
  spec_TLS :: IngressTLS

record ManbaIngress =
  ing_Meta :: ObjectMeta
  ing_Spec :: ManbaIngressSpec
  ing_Status :: "LoadBalancerIngress list"

text \<open>\<open>(*ManbaHTTPURIRewrite).GetURI\<close>.\<close>

definition GetURI :: "string option \<Rightarrow> string" where
  "GetURI m = (case m of None \<Rightarrow> [] | Some u \<Rightarrow> u)"

section \<open>ManbaCluster\<close>

record ManbaClusterSubSet =
  ss_Name :: string
  ss_Labels :: "(string \<times> string) list"
  ss_TrafficPolicy :: "TrafficPolicy option"

record ManbaCluster =
  mc_Meta :: ObjectMeta
  mc_TrafficPolicy :: "TrafficPolicy option"
  mc_Subsets :: "ManbaClusterSubSet list"

section \<open>Services and endpoints\<close>

datatype ServiceType = ServiceTypeClusterIP | ServiceTypeNodePort | ServiceTypeLoadBalancer | ServiceTypeExternalName

text \<open>A port that the code does not fill in has the empty string as its protocol.\<close>

datatype Protocol = ProtocolUnset | ProtocolTCP | ProtocolUDP | ProtocolSCTP

record ServicePort =
  sp_Name :: string
  sp_Protocol :: Protocol
  sp_Port :: int32
  sp_TargetPort :: IntOrString

record Service =
  svc_Meta :: ObjectMeta
  svc_Ports :: "ServicePort list"
  svc_Type :: ServiceType
  svc_ExternalName :: string
  svc_ExternalIPs :: "string list"
  svc_LoadBalancer :: "LoadBalancerIngress list"

record EndpointPort =
  ep_Name :: string
  ep_Port :: int32
  ep_Protocol :: Protocol

record EndpointSubset =
  es_Addresses :: "string list"
  es_Ports :: "EndpointPort list"

record Endpoints =
  eps_Meta :: ObjectMeta
  eps_Subsets :: "EndpointSubset list"

record Secret =
  secret_Meta :: ObjectMeta
  secret_Data :: "(string \<times> string) list"

section \<open>ToManbaValidations\<close>

text \<open>
  \<open>sort.Slice\<close> is documented to sort by a strict weak order and to permute its slice in any case; the
  comparison here is no such order, so of the function only the permutation is used. It is a
  parameter of the model.
\<close>

definition parse_validations :: "Source \<Rightarrow> (string \<times> string) list \<Rightarrow> metapb_Validation list" where
  "parse_validations source data = map (\<lambda>(k, v). \<lparr>Val_Parameter = \<lparr>Param_Name = k, Param_Source = source\<rparr>,
     Val_Required = True, Val_Rules = [\<lparr>Rule_RuleType = RuleRegexp, Rule_Expression = v\<rparr>]\<rparr>) data"

text \<open>
  The enumerations of the gateway are numbers in its generated code, which is not part of the
  repository: the number of a source, and the tables from names to numbers. Indexing such a table
  with an unknown name gives zero.
\<close>

record pb_enums =
  Source_num :: "Source \<Rightarrow> int"
  MatchRule_value :: "string \<rightharpoonup> int32"
  LoadBalance_value :: "string \<rightharpoonup> int32"

definition enum_value :: "(string \<rightharpoonup> int32) \<Rightarrow> string \<Rightarrow> int32" where
  "enum_value tab name = (case tab name of None \<Rightarrow> 0 | Some i \<Rightarrow> i)"

definition validation_less :: "pb_enums \<Rightarrow> metapb_Validation \<Rightarrow> metapb_Validation \<Rightarrow> bool" where
  "validation_less E i j \<longleftrightarrow> Source_num E (Param_Source (Val_Parameter i)) \<le> Source_num E (Param_Source (Val_Parameter j)) \<and>
     Param_Name (Val_Parameter i) < Param_Name (Val_Parameter j)"

type_synonym sort_Slice = "(metapb_Validation \<Rightarrow> metapb_Validation \<Rightarrow> bool) \<Rightarrow> metapb_Validation list \<Rightarrow> metapb_Validation list"

definition ToManbaValidations :: "pb_enums \<Rightarrow> sort_Slice \<Rightarrow> ManbaHTTPRouteMatch option \<Rightarrow> metapb_Validation list" where
  "ToManbaValidations E sort_Slice v =
     (case v of
        None \<Rightarrow> []
      | Some v \<Rightarrow> sort_Slice (validation_less E)
          (parse_validations Cookie (rm_Cookie v) @ parse_validations FormData (rm_FormData v) @
           parse_validations Header (rm_Header v) @ parse_validations JSONBody (rm_JSONBody v) @
           parse_validations QueryString (rm_Query v) @ parse_validations PathValue (rm_PathValue v)))"

section \<open>Endpoint addresses\<close>

record Endpoint =
  Endpoint_Address :: string
  Endpoint_Port :: string

definition Endpoint_String :: "Endpoint \<Rightarrow> string" where
  "Endpoint_String e = Endpoint_Address e @ '':'' @ Endpoint_Port e"

text \<open>\<open>ParseNameNS\<close> splits \<open>namespace/name\<close>.\<close>

definition ParseNameNS :: "string \<Rightarrow> (string \<times> string) result" where
  "ParseNameNS input =
     (case split_on (CHR ''/'') input of
        [ns, name] \<Rightarrow> Ok (ns, name)
      | _ \<Rightarrow> Err (NewError (''invalid format (namespace/name) found in '' @ [CHR 0x27] @ input @ [CHR 0x27])))"

lemma ParseNameNS_Ok_iff:
  "ParseNameNS s = Ok (ns, name) \<longleftrightarrow> CHR ''/'' \<notin> set ns \<and> CHR ''/'' \<notin> set name \<and> s = ns @ ''/'' @ name"
  using split_on_two_iff [of "CHR ''/''" s ns name] by (auto simp: ParseNameNS_def split: list.splits)

end
