(* ===== verification/Parser_Types.thy ===== *)
theory Parser_Types
  imports Crd
begin

text \<open>
  The types of the parser (\<open>pkg/ingress/controller/parser/parser.go\<close>), which the controller reads too. The
  embedded messages are fields of their own. \<open>Proxies\<close> is a Go map: its entries are kept in the order
  of their insertion. The APIs of a service are pointers that several services share, so they are
  addresses of a heap of APIs.
\<close>

record parser_Server =
  pServer :: metapb_Server

record parser_Routing =
  pRouting_APIName :: string
  pRouting_ClusterName :: string
  pRouting :: metapb_Routing

record parser_API =
  pAPI :: metapb_API
  pAPI_Namespace :: string
  pAPI_Proxies :: "(string \<times> Proxy) list"
  pAPI_HTTPRule :: ManbaHTTPRule
  pAPI_Routings :: "parser_Routing list"

record parser_Cluster =
  pCluster :: metapb_Cluster
  pCluster_Servers :: "parser_Server list"
  pCluster_Port :: string
  pCluster_Namespace :: string
  pCluster_K8SSbuSet :: ManbaClusterSubSet

record parser_Service =
  ps_Cluster :: parser_Cluster
  ps_ServiceServers :: "parser_Server list"
  ps_ServiceAPIs :: "nat list"
  ps_Namespace :: string
  ps_Backend :: ManbaCluster

record parser_ManbaState =
  ps_APIs :: "parser_API list"
  ps_Servers :: "parser_Server list"
  ps_Clusters :: "parser_Cluster list"
  ps_Routings :: "parser_Routing list"
  ps_Plugins :: "string list"

end
