(* ===== verification/Parser.thy ===== *)
theory Parser
  imports Parser_Types
begin

text \<open>
  The parser (\<open>pkg/ingress/controller/parser/parser.go\<close>): it turns the ingresses, clusters, services and
  endpoints of Kubernetes into the configuration the controller applies. APIs are allocated in a heap,
  because the services share them by pointer and \<open>fillOverride\<close> changes them in place. The order in
  which Go iterates over the map of services is a parameter of \<open>Build\<close>.
\<close>

section \<open>The store\<close>

text \<open>What the parser reads; the implementation is modelled in its own theory.\<close>

record store =
  GetEndpointsForService :: "string \<Rightarrow> string \<Rightarrow> Endpoints result"
  ListServices :: "string \<Rightarrow> (string \<times> string) list \<Rightarrow> Service list result"
  GetManbaCluster :: "string \<Rightarrow> string \<Rightarrow> ManbaCluster result"
  ListManbaIngresses :: "ManbaIngress list"
  GetSecret :: "string \<Rightarrow> string \<Rightarrow> Secret result"

section \<open>APIs and proxies from rules and routes\<close>

definition API_fromManbaHTTPRule :: "ManbaHTTPRule \<Rightarrow> parser_API \<Rightarrow> parser_API" where
  "API_fromManbaHTTPRule rule a =
     (let meta = pAPI a;
          meta = meta\<lparr>API_DefaultValue := rule_DefaultValue rule\<rparr>;
          meta = (if API_DefaultValue meta \<noteq> None then meta\<lparr>API_UseDefault := True\<rparr> else meta);
          meta = meta\<lparr>API_IPAccessControl := rule_IPAccessControl rule\<rparr>;
          meta = meta\<lparr>API_RenderTemplate := rule_RenderTemplate rule\<rparr>;
          meta = (case rule_AuthFilter rule of None \<Rightarrow> meta | Some f \<Rightarrow> meta\<lparr>API_AuthFilter := f\<rparr>)
      in a\<lparr>pAPI := meta\<rparr>)"

definition Proxy_fromManbaHTTPRule :: "ManbaHTTPRule \<Rightarrow> Proxy \<Rightarrow> Proxy" where
  "Proxy_fromManbaHTTPRule rule p =
     (let node = Proxy_DispatchNode p;
          node = (case rule_Rewrite rule of None \<Rightarrow> node | Some u \<Rightarrow> node\<lparr>DN_URLRewrite := u\<rparr>);
          node = node\<lparr>DN_RetryStrategy := rule_Retry rule\<rparr>
      in p\<lparr>Proxy_DispatchNode := node\<rparr>)"

definition Proxy_fromManbaHTTPRoute :: "pb_enums \<Rightarrow> sort_Slice \<Rightarrow> ManbaHTTPRoute \<Rightarrow> Proxy \<Rightarrow> Proxy" where
  "Proxy_fromManbaHTTPRoute E sort_Slice route p =
     (let node = Proxy_DispatchNode p;
          node = node\<lparr>DN_WriteTimeout := route_WriteTimeout route\<rparr>;
          node = node\<lparr>DN_ReadTimeout := route_ReadTimeout route\<rparr>;
          node = node\<lparr>DN_DefaultValue := route_DefaultValue route\<rparr>;
          node = (if DN_DefaultValue node \<noteq> None then node\<lparr>DN_UseDefault := True\<rparr> else node);
          node = node\<lparr>DN_Cache := route_Cache route\<rparr>;
          node = node\<lparr>DN_AttrName := route_AttrName route\<rparr>;
          node = node\<lparr>DN_Validations := ToManbaValidations E sort_Slice (route_Match route)\<rparr>;
          node = node\<lparr>DN_BatchIndex := route_BatchIndex route\<rparr>;
          node = (case route_Rewrite route of None \<Rightarrow> node | Some u \<Rightarrow> if u \<noteq> [] then node\<lparr>DN_URLRewrite := u\<rparr> else node)
      in p\<lparr>Proxy_DispatchNode := node\<rparr>)"

section \<open>parseIngressRules\<close>

definition getTLS :: "store \<Rightarrow> string \<Rightarrow> string \<Rightarrow> IngressTLS \<Rightarrow> (string option \<times> string option) result" where
  "getTLS st host ns tls =
     (if host \<in> set (tls_Hosts tls) then
        rbind (GetSecret st ns (tls_SecretName tls)) (\<lambda>secret.
          Ok (map_of (secret_Data secret) ''tls.crt'', map_of (secret_Data secret) ''tls.key''))
      else Ok (None, None))"

fun getClusterSubset :: "ManbaClusterSubSet list \<Rightarrow> string \<Rightarrow> ManbaClusterSubSet result" where
  "getClusterSubset [] name = Err ErrClusterSubSetNotFound"
| "getClusterSubset (data # list) name = (if ss_Name data = name then Ok data else getClusterSubset list name)"

definition cluster_name :: "string \<Rightarrow> ManbaHTTPRouteCluster \<Rightarrow> string" where
  "cluster_name ns cls = ns @ ''.'' @ rc_Name cls @ ''.'' @ rc_Subset cls @ ''.'' @ IntOrString_String (rc_Port cls) @ ''.svc''"

definition api_name :: "ManbaIngress \<Rightarrow> nat \<Rightarrow> nat \<Rightarrow> nat \<Rightarrow> nat \<Rightarrow> string" where
  "api_name ing i j k g = meta_Namespace (ing_Meta ing) @ ''.'' @ meta_Name (ing_Meta ing) @ ''.'' @ utoa i @ utoa j @ utoa k @ utoa g"

definition base_API :: "ManbaIngress \<Rightarrow> ManbaHTTPRule \<Rightarrow> parser_API" where
  "base_API ing rule = API_fromManbaHTTPRule rule \<lparr>pAPI = zero_API, pAPI_Namespace = meta_Namespace (ing_Meta ing),
     pAPI_Proxies = [], pAPI_HTTPRule = rule, pAPI_Routings = []\<rparr>"

text \<open>The result of \<open>getTLS\<close> is only logged.\<close>

definition match_API ::
    "pb_enums \<Rightarrow> ManbaIngress \<Rightarrow> ManbaHTTPRule \<Rightarrow> nat \<Rightarrow> nat \<Rightarrow> nat \<Rightarrow> ManbaHTTPMatch \<Rightarrow> nat \<Rightarrow> ManbaHTTPMatchRule \<Rightarrow> parser_API" where
  "match_API E ing rule i j k match g mrule =
     (let api = base_API ing rule;
          urlPattern = (if mr_URI_Pattern mrule = [] then ''/'' else mr_URI_Pattern mrule);
          method = (case mr_Method mrule of Some m \<Rightarrow> m | None \<Rightarrow> ''*'')
      in api\<lparr>pAPI := (pAPI api)\<lparr>API_Name := api_name ing i j k g, API_Domain := match_Host match,
           API_MatchRule := enum_value (MatchRule_value E) (mr_MatchType mrule), API_Position := of_nat (g + 1), API_Status := Up,
           API_URLPattern := urlPattern, API_Method := method\<rparr>\<rparr>)"

definition rule_APIs :: "pb_enums \<Rightarrow> ManbaIngress \<Rightarrow> nat \<Rightarrow> nat \<Rightarrow> ManbaHTTPRule \<Rightarrow> parser_API list" where
  "rule_APIs E ing i j rule =
     concat (map (\<lambda>(k, match). map (\<lambda>(g, mrule). match_API E ing rule i j k match g mrule) (enumerate 0 (match_Rules match)))
       (enumerate 0 (rule_Match rule)))"

text \<open>The service of a route is created on first use; a missing cluster or subset skips the route.\<close>

definition new_service :: "string \<Rightarrow> ManbaIngress \<Rightarrow> ManbaHTTPRouteCluster \<Rightarrow> ManbaCluster \<Rightarrow> ManbaClusterSubSet \<Rightarrow> parser_Service" where
  "new_service serviceName ing cls cluster subSet =
     (let subSet = (if ss_TrafficPolicy subSet = None then subSet\<lparr>ss_TrafficPolicy := mc_TrafficPolicy cluster\<rparr> else subSet)
      in \<lparr>ps_Cluster = \<lparr>pCluster = zero_Cluster\<lparr>Cluster_Name := serviceName\<rparr>, pCluster_Servers = [],
            pCluster_Port = IntOrString_String (rc_Port cls), pCluster_Namespace = meta_Namespace (ing_Meta ing), pCluster_K8SSbuSet = subSet\<rparr>,
          ps_ServiceServers = [], ps_ServiceAPIs = [], ps_Namespace = meta_Namespace (ing_Meta ing), ps_Backend = cluster\<rparr>)"

type_synonym services = "(string \<times> parser_Service) list"

definition route_service :: "store \<Rightarrow> ManbaIngress \<Rightarrow> nat list \<Rightarrow> ManbaHTTPRoute \<Rightarrow> services \<Rightarrow> services result" where
  "route_service st ing apis route services =
     (let ns = meta_Namespace (ing_Meta ing); cls = route_Cluster route; serviceName = cluster_name ns cls;
          found = (case map_of services serviceName of
             Some service \<Rightarrow> Ok (Some service)
           | None \<Rightarrow>
               (case GetManbaCluster st ns (rc_Name cls) of
                  Err err \<Rightarrow> Ok None
                | Panic m \<Rightarrow> Panic m
                | Ok cluster \<Rightarrow>
                    (case getClusterSubset (mc_Subsets cluster) (rc_Subset cls) of
                       Ok subSet \<Rightarrow> Ok (Some (new_service serviceName ing cls cluster subSet))
                     | _ \<Rightarrow> Ok None)))
      in rbind found (\<lambda>service. case service of
           None \<Rightarrow> Ok services
         | Some service \<Rightarrow> Ok (AList.update serviceName (service\<lparr>ps_ServiceAPIs := ps_ServiceAPIs service @ apis\<rparr>) services)))"

text \<open>
  The state of the loop over the rules of one ingress: the heap, the addresses of the APIs of the
  ingress so far, and the services. The list of addresses grows over the rules of the ingress.
\<close>

type_synonym parse_state = "parser_API list \<times> nat list \<times> services"

definition parse_rule :: "pb_enums \<Rightarrow> store \<Rightarrow> ManbaIngress \<Rightarrow> nat \<Rightarrow> nat \<times> ManbaHTTPRule \<Rightarrow> parse_state \<Rightarrow> parse_state result" where
  "parse_rule E st ing i = (\<lambda>(j, rule) (heap, apis, services).
     let new = rule_APIs E ing i j rule;
         apis = apis @ [length heap..<length heap + length new];
         heap = heap @ new
     in rbind (rfold (route_service st ing apis) (rule_Route rule) services) (\<lambda>services. Ok (heap, apis, services)))"

definition parse_ingress :: "pb_enums \<Rightarrow> store \<Rightarrow> nat \<times> ManbaIngress \<Rightarrow> parser_API list \<times> services \<Rightarrow> (parser_API list \<times> services) result" where
  "parse_ingress E st = (\<lambda>(i, ing) (heap, services).
     rbind (rfold (parse_rule E st ing i) (enumerate 0 (spec_HTTP (ing_Spec ing))) (heap, [], services))
       (\<lambda>(heap, _, services). Ok (heap, services)))"

definition parseIngressRules :: "pb_enums \<Rightarrow> store \<Rightarrow> ManbaIngress list \<Rightarrow> (parser_API list \<times> services) result" where
  "parseIngressRules E st ings =
     rfold (parse_ingress E st)
       (enumerate 0 (SliceStable (\<lambda>i j. meta_CreationTimestamp (ing_Meta i) < meta_CreationTimestamp (ing_Meta j)) ings)) ([], [])"

section \<open>Endpoints\<close>

text \<open>
  \<open>getEndpoints\<close> of a service and one of its ports. The map \<open>adus\<close> of the addresses seen so far is the
  list of their strings.
\<close>

definition endpoint_port :: "ServicePort \<Rightarrow> EndpointPort \<Rightarrow> int32" where
  "endpoint_port port epPort =
     (if sp_Name port = [] then ep_Port epPort else if sp_Name port = ep_Name epPort then ep_Port epPort else 0)"

definition add_address :: "string \<Rightarrow> string \<Rightarrow> Endpoint list \<Rightarrow> Endpoint list" where
  "add_address targetPort ip ups =
     (let e = \<lparr>Endpoint_Address = ip, Endpoint_Port = targetPort\<rparr> in
      if Endpoint_String e \<in> set (map Endpoint_String ups) then ups else ups @ [e])"

definition add_port :: "ServicePort \<Rightarrow> Protocol \<Rightarrow> string list \<Rightarrow> EndpointPort \<Rightarrow> Endpoint list \<Rightarrow> Endpoint list" where
  "add_port port proto addresses epPort ups =
     (if ep_Protocol epPort \<noteq> proto then ups
      else let targetPort = sint (endpoint_port port epPort) in
        if targetPort \<le> 0 then ups else fold (add_address (itoa targetPort)) addresses ups)"

definition getEndpoints ::
    "Service \<Rightarrow> ServicePort \<Rightarrow> Protocol \<Rightarrow> (string \<Rightarrow> string \<Rightarrow> Endpoints result) \<Rightarrow> Endpoint list result" where
  "getEndpoints s port proto get =
     (if svc_Type s = ServiceTypeExternalName then
        let targetPort = IntValue (sp_TargetPort port) in
        if targetPort \<le> 0 then Ok []
        else Ok [\<lparr>Endpoint_Address = svc_ExternalName s, Endpoint_Port = itoa targetPort\<rparr>]
      else
        (case get (meta_Namespace (svc_Meta s)) (meta_Name (svc_Meta s)) of
           Err err \<Rightarrow> Ok []
         | Panic m \<Rightarrow> Panic m
         | Ok ep \<Rightarrow> Ok (fold (\<lambda>ss. fold (add_port port proto (es_Addresses ss)) (es_Ports ss)) (eps_Subsets ep) [])))"

text \<open>The port of the service the backend names, by number, target or name; none gives the zero port.\<close>

definition zero_port :: ServicePort where
  "zero_port = \<lparr>sp_Name = [], sp_Protocol = ProtocolUnset, sp_Port = 0, sp_TargetPort = IntVal 0\<rparr>"

definition port_matches :: "string \<Rightarrow> ServicePort \<Rightarrow> bool" where
  "port_matches backendPort port \<longleftrightarrow> itoa (sint (sp_Port port)) = backendPort \<or>
     IntOrString_String (sp_TargetPort port) = backendPort \<or> sp_Name port = backendPort"

text \<open>
  \<open>None\<close> is the early return for an external service whose port is not a number.
\<close>

definition service_port :: "string \<Rightarrow> Service \<Rightarrow> ServicePort option" where
  "service_port backendPort svc =
     (let servicePort = (case find (port_matches backendPort) (svc_Ports svc) of None \<Rightarrow> zero_port | Some port \<Rightarrow> port)
      in if svc_Ports svc = [] \<and> svc_Type svc = ServiceTypeExternalName then
           (case Atoi backendPort of
              (_, Some err) \<Rightarrow> None
            | (externalPort, None) \<Rightarrow> Some \<lparr>sp_Name = [], sp_Protocol = ProtocolTCP, sp_Port = word_of_int externalPort,
                sp_TargetPort = StrVal backendPort\<rparr>)
         else Some servicePort)"

fun service_endpoints :: "store \<Rightarrow> string \<Rightarrow> Service list \<Rightarrow> parser_Server list \<Rightarrow> parser_Server list result" where
  "service_endpoints st backendPort [] servers = Ok servers"
| "service_endpoints st backendPort (svc # svcs) servers =
     (case service_port backendPort svc of
        None \<Rightarrow> Ok servers
      | Some servicePort \<Rightarrow>
          rbind (getEndpoints svc servicePort ProtocolTCP (GetEndpointsForService st)) (\<lambda>endpoints.
          service_endpoints st backendPort svcs (servers @
            map (\<lambda>endpoint. \<lparr>pServer = zero_Server\<lparr>Server_Addr := Endpoint_String endpoint\<rparr>\<rparr>)
              (filter (\<lambda>endpoint. Endpoint_Port endpoint = backendPort) endpoints))))"

definition getServiceEndpoints :: "store \<Rightarrow> ManbaClusterSubSet \<Rightarrow> string \<Rightarrow> string \<Rightarrow> parser_Server list result" where
  "getServiceEndpoints st ss ns backendPort =
     rbind (ListServices st ns (ss_Labels ss)) (\<lambda>svcs. service_endpoints st backendPort svcs [])"

section \<open>fillOverride\<close>

text \<open>Go's division truncates towards zero; the limit is converted to a signed integer first.\<close>

definition go_div :: "int \<Rightarrow> int \<Rightarrow> int" where
  "go_div a b = (if a < 0 then - ((- a) div b) else a div b)"

definition server_qps :: "uint64 \<Rightarrow> nat \<Rightarrow> int64" where
  "server_qps maxQPS n = word_of_int (go_div (sint maxQPS) (int n))"

definition apply_traffic :: "TrafficPolicy \<Rightarrow> nat \<Rightarrow> parser_Server \<Rightarrow> parser_Server" where
  "apply_traffic traffic n svr = svr\<lparr>pServer := (pServer svr)\<lparr>Server_CircuitBreaker := tp_CircuitBreaker traffic,
     Server_MaxQPS := server_qps (tp_MaxQPS traffic) n\<rparr>\<rparr>"

definition set_balance :: "pb_enums \<Rightarrow> TrafficPolicy \<Rightarrow> parser_Cluster \<Rightarrow> parser_Cluster" where
  "set_balance E traffic c = (case tp_LoadBalancer traffic of None \<Rightarrow> c
     | Some lb \<Rightarrow> c\<lparr>pCluster := (pCluster c)\<lparr>Cluster_LoadBalance := enum_value (LoadBalance_value E) lb\<rparr>\<rparr>)"

text \<open>The proxies: one per cluster name; the first route of the rule decides.\<close>

definition route_proxy :: "pb_enums \<Rightarrow> sort_Slice \<Rightarrow> string \<Rightarrow> ManbaHTTPRule \<Rightarrow> ManbaHTTPRoute \<Rightarrow> Proxy" where
  "route_proxy E sort_Slice clusterName rule r =
     Proxy_fromManbaHTTPRoute E sort_Slice r (Proxy_fromManbaHTTPRule rule \<lparr>Proxy_ClusterName = clusterName, Proxy_DispatchNode = zero_Node\<rparr>)"

definition add_proxy :: "Proxy \<Rightarrow> (string \<times> Proxy) list \<Rightarrow> (string \<times> Proxy) list" where
  "add_proxy proxy proxies =
     (if Proxy_ClusterName proxy \<in> fst ` set proxies then proxies else proxies @ [(Proxy_ClusterName proxy, proxy)])"

definition parseRouting :: "parser_API \<Rightarrow> RoutingStrategy \<Rightarrow> string \<Rightarrow> nat \<times> ManbaHTTPRouting \<Rightarrow> parser_Routing" where
  "parseRouting api strategy sep = (\<lambda>(i, m).
     \<lparr>pRouting_APIName = API_Name (pAPI api), pRouting_ClusterName = cluster_name (pAPI_Namespace api) (routing_Cluster m),
      pRouting = zero_Routing\<lparr>Routing_TrafficRate := (case routing_Rate m of None \<Rightarrow> 100 | Some r \<Rightarrow> r), Routing_Status := Up,
        Routing_Conditions := routing_Conditions m, Routing_Name := API_Name (pAPI api) @ sep @ utoa i, Routing_Strategy := strategy\<rparr>\<rparr>)"

definition fill_API :: "pb_enums \<Rightarrow> sort_Slice \<Rightarrow> string \<Rightarrow> parser_API \<Rightarrow> parser_API" where
  "fill_API E sort_Slice clusterName api =
     (let rule = pAPI_HTTPRule api
      in api\<lparr>pAPI_Proxies := fold (\<lambda>r. add_proxy (route_proxy E sort_Slice clusterName rule r)) (rule_Route rule) (pAPI_Proxies api),
             pAPI_Routings := pAPI_Routings api @ map (parseRouting api Copy ''.mirror.'') (enumerate 0 (rule_Mirror rule)) @
               map (parseRouting api Split ''.split.'') (enumerate 0 (rule_Split rule))\<rparr>)"

definition fillOverride ::
    "pb_enums \<Rightarrow> sort_Slice \<Rightarrow> store \<Rightarrow> parser_Service \<Rightarrow> parser_API list \<Rightarrow> (parser_Service \<times> parser_API list) result" where
  "fillOverride E sort_Slice st service heap =
     (let cls = ps_Cluster service in
      rbind (getServiceEndpoints st (pCluster_K8SSbuSet cls) (pCluster_Namespace cls) (pCluster_Port cls)) (\<lambda>servers.
      let (servers, cls) = (case ss_TrafficPolicy (pCluster_K8SSbuSet cls) of
             Some traffic \<Rightarrow> if servers \<noteq> [] then (map (apply_traffic traffic (length servers)) servers, set_balance E traffic cls) else (servers, cls)
           | None \<Rightarrow> (servers, cls))
      in Ok (service\<lparr>ps_Cluster := cls, ps_ServiceServers := servers\<rparr>,
             fold (\<lambda>a heap. heap[a := fill_API E sort_Slice (Cluster_Name (pCluster cls)) (heap ! a)]) (ps_ServiceAPIs service) heap)))"

fun fill_services ::
    "pb_enums \<Rightarrow> sort_Slice \<Rightarrow> store \<Rightarrow> services \<Rightarrow> parser_API list \<Rightarrow> (services \<times> parser_API list) result" where
  "fill_services E sort_Slice st [] heap = Ok ([], heap)"
| "fill_services E sort_Slice st ((name, service) # services) heap =
     rbind (wrap_err ''overriding ManbaIngress values'' (fillOverride E sort_Slice st service heap)) (\<lambda>(service, heap).
     rbind (fill_services E sort_Slice st services heap) (\<lambda>(services, heap). Ok ((name, service) # services, heap)))"

section \<open>Build\<close>

text \<open>
  One table of keys serves all kinds: a key that has been used by any entity is refused.
\<close>

definition check :: "string \<Rightarrow> string list \<Rightarrow> bool \<times> string list" where
  "check key keys = (if key \<in> set keys then (False, keys) else (True, key # keys))"

type_synonym build_state = "string list \<times> parser_ManbaState"

definition emit :: "string \<Rightarrow> (parser_ManbaState \<Rightarrow> parser_ManbaState) \<Rightarrow> build_state \<Rightarrow> build_state" where
  "emit key add s = (case check key (fst s) of (ok, keys) \<Rightarrow> (keys, if ok then add (snd s) else snd s))"

definition emit_API :: "parser_API \<Rightarrow> build_state \<Rightarrow> build_state" where
  "emit_API api s = fold (\<lambda>routing. emit (Routing_Name (pRouting routing)) (\<lambda>p. p\<lparr>ps_Routings := ps_Routings p @ [routing]\<rparr>)) (pAPI_Routings api)
     (emit (API_Name (pAPI api)) (\<lambda>p. p\<lparr>ps_APIs := ps_APIs p @ [api]\<rparr>) s)"

definition emit_service :: "parser_API list \<Rightarrow> parser_Service \<Rightarrow> build_state \<Rightarrow> build_state" where
  "emit_service heap service s =
     (let s = fold (\<lambda>a. emit_API (heap ! a)) (ps_ServiceAPIs service) s;
          cluster = (ps_Cluster service)\<lparr>pCluster_Servers := ps_ServiceServers service\<rparr>;
          s = emit (Cluster_Name (pCluster cluster)) (\<lambda>p. p\<lparr>ps_Clusters := ps_Clusters p @ [cluster]\<rparr>) s
      in fold (\<lambda>server. emit (Server_Addr (pServer server)) (\<lambda>p. p\<lparr>ps_Servers := ps_Servers p @ [server]\<rparr>)) (ps_ServiceServers service) s)"

definition empty_state :: parser_ManbaState where
  "empty_state = \<lparr>ps_APIs = [], ps_Servers = [], ps_Clusters = [], ps_Routings = [], ps_Plugins = []\<rparr>"

text \<open>\<open>ord1\<close> and \<open>ord2\<close> are the orders of the two iterations over the map of services.\<close>

definition Build ::
    "pb_enums \<Rightarrow> sort_Slice \<Rightarrow> store \<Rightarrow> (services \<Rightarrow> services) \<Rightarrow> (services \<Rightarrow> services) \<Rightarrow> parser_ManbaState result" where
  "Build E sort_Slice st ord1 ord2 =
     rbind (wrap_err ''error parsing ingress rules'' (parseIngressRules E st (ListManbaIngresses st))) (\<lambda>(heap, services).
     rbind (fill_services E sort_Slice st (ord1 services) heap) (\<lambda>(services, heap).
     Ok (snd (fold (\<lambda>(_, service). emit_service heap service) (ord2 services) ([], empty_state)))))"

end
