(* ===== verification/Store.thy ===== *)
theory Store
  imports Parser
begin

text \<open>
  The store of the controller (\<open>pkg/ingress/store/store.go\<close>), the generated listers of the custom resources
  it and the admission server read (\<open>pkg/client/listers\<close>), and the class of an object
  (\<open>pkg/ingress/annotations/annotations.go\<close>). The caches of the informers belong to client-go and are a
  parameter: a cache answers \<open>GetByKey\<close> and \<open>List\<close>, and the locale \<open>informer_cache\<close> states what is documented of
  them.
\<close>

section \<open>Objects\<close>

text \<open>
  What Go passes as \<open>interface{}\<close>: a pointer to one of the objects the informers watch, or the tombstone an
  informer delivers for an object whose deletion it did not see. \<open>Accessor\<close> gives the metadata every object
  embeds; a tombstone embeds none.
\<close>

datatype k8s_obj =
    ObjManbaIngress ManbaIngress
  | ObjManbaCluster ManbaCluster
  | ObjService Service
  | ObjEndpoints Endpoints
  | ObjSecret Secret
  | DeletedFinalStateUnknown string k8s_obj

fun Accessor :: "k8s_obj \<Rightarrow> ObjectMeta result" where
  "Accessor (ObjManbaIngress x) = Ok (ing_Meta x)"
| "Accessor (ObjManbaCluster x) = Ok (mc_Meta x)"
| "Accessor (ObjService x) = Ok (svc_Meta x)"
| "Accessor (ObjEndpoints x) = Ok (eps_Meta x)"
| "Accessor (ObjSecret x) = Ok (secret_Meta x)"
| "Accessor (DeletedFinalStateUnknown k x) = Err (NewError ''object does not implement the Object interfaces'')"

text \<open>The key of an object in a cache (\<open>MetaNamespaceKeyFunc\<close>).\<close>

definition object_key :: "ObjectMeta \<Rightarrow> string" where
  "object_key meta = (if meta_Namespace meta = [] then meta_Name meta else meta_Namespace meta @ ''/'' @ meta_Name meta)"

section \<open>The ingress class\<close>

definition ingressClassKey :: string where "ingressClassKey = ''kubernetes.io/ingress.class''"
definition DefaultIngressClass :: string where "DefaultIngressClass = ''manba''"

definition validIngress :: "string \<Rightarrow> string \<Rightarrow> bool" where
  "validIngress ingressAnnotationValue ingressClass \<longleftrightarrow>
     (if ingressAnnotationValue = [] \<and> ingressClass = DefaultIngressClass then True
      else ingressAnnotationValue = ingressClass)"

text \<open>Indexing a Go map with a missing key gives the empty string.\<close>

definition go_index :: "(string \<times> string) list \<Rightarrow> string \<Rightarrow> string" where
  "go_index m k = (case map_of m k of None \<Rightarrow> [] | Some v \<Rightarrow> v)"

definition IngressClassValidatorFunc :: "string \<Rightarrow> ObjectMeta \<Rightarrow> bool" where
  "IngressClassValidatorFunc ingressClass obj =
     (let ingress = go_index (meta_Annotations obj) ingressClassKey in validIngress ingress ingressClass)"

definition IngressClassValidatorFuncFromObjectMeta :: "string \<Rightarrow> ObjectMeta \<Rightarrow> bool" where
  "IngressClassValidatorFuncFromObjectMeta ingressClass obj =
     (let ingress = go_index (meta_Annotations obj) ingressClassKey in validIngress ingress ingressClass)"

section \<open>The caches and the store\<close>

record cache_Store =
  GetByKey :: "string \<Rightarrow> k8s_obj option result"
  cache_List :: "k8s_obj list"

text \<open>
  The two factories, reduced to the caches and listers the code asks them for. The listers of client-go
  for secrets and services are functions of their own.
\<close>

record SharedInformerFactory =
  Secrets_Get :: "string \<Rightarrow> string \<Rightarrow> Secret result"
  Services_List :: "string \<Rightarrow> (string \<times> string) list \<Rightarrow> Service list result"
  Services_Store :: cache_Store
  Endpoints_Store :: cache_Store

record ManbaInformerFactory =
  ManbaClusters_Store :: cache_Store
  ManbaIngresses_Store :: cache_Store

record store_struct =
  factory :: SharedInformerFactory
  manbaFactory :: ManbaInformerFactory
  isValidIngresClass :: "ObjectMeta \<Rightarrow> bool"

definition manbaIngress :: nat where "manbaIngress = 0"
definition manbaCluster :: nat where "manbaCluster = 1"
definition service :: nat where "service = 2"
definition endpoint :: nat where "endpoint = 3"

lemmas kind_defs = manbaIngress_def manbaCluster_def service_def endpoint_def

definition getStore :: "store_struct \<Rightarrow> nat \<Rightarrow> cache_Store option" where
  "getStore s t =
     (if t = manbaCluster then Some (ManbaClusters_Store (manbaFactory s))
      else if t = manbaIngress then Some (ManbaIngresses_Store (manbaFactory s))
      else if t = service then Some (Services_Store (factory s))
      else if t = endpoint then Some (Endpoints_Store (factory s))
      else None)"

text \<open>A method of a nil interface panics, and so does a type assertion that fails.\<close>

definition store_GetByKey :: "store_struct \<Rightarrow> nat \<Rightarrow> string \<Rightarrow> k8s_obj option result" where
  "store_GetByKey s t key =
     (case getStore s t of None \<Rightarrow> Panic ''nil pointer dereference'' | Some c \<Rightarrow> GetByKey c key)"

fun as_Endpoints :: "k8s_obj \<Rightarrow> Endpoints result" where
  "as_Endpoints (ObjEndpoints x) = Ok x"
| "as_Endpoints _ = Panic ''interface conversion''"

fun as_Service :: "k8s_obj \<Rightarrow> Service result" where
  "as_Service (ObjService x) = Ok x"
| "as_Service _ = Panic ''interface conversion''"

fun as_ManbaIngress :: "k8s_obj \<Rightarrow> ManbaIngress result" where
  "as_ManbaIngress (ObjManbaIngress x) = Ok x"
| "as_ManbaIngress _ = Panic ''interface conversion''"

fun as_ManbaCluster :: "k8s_obj \<Rightarrow> ManbaCluster result" where
  "as_ManbaCluster (ObjManbaCluster x) = Ok x"
| "as_ManbaCluster _ = Panic ''interface conversion''"

definition found_as :: "(k8s_obj \<Rightarrow> 'a result) \<Rightarrow> go_error \<Rightarrow> k8s_obj option \<Rightarrow> 'a result" where
  "found_as as missing obj = (case obj of None \<Rightarrow> Err missing | Some p \<Rightarrow> as p)"

definition store_GetSecret :: "store_struct \<Rightarrow> string \<Rightarrow> string \<Rightarrow> Secret result" where
  "store_GetSecret s namespace name = Secrets_Get (factory s) namespace name"

definition store_ListServices :: "store_struct \<Rightarrow> string \<Rightarrow> (string \<times> string) list \<Rightarrow> Service list result" where
  "store_ListServices s namespace label = Services_List (factory s) namespace label"

definition store_GetEndpointsForService :: "store_struct \<Rightarrow> string \<Rightarrow> string \<Rightarrow> Endpoints result" where
  "store_GetEndpointsForService s namespace name =
     (let key = namespace @ ''/'' @ name in
      rbind (store_GetByKey s endpoint key)
        (found_as as_Endpoints (NewError (''could not find endpoints for service '' @ key))))"

fun store_ListManbaIngresses_loop :: "(ObjectMeta \<Rightarrow> bool) \<Rightarrow> k8s_obj list \<Rightarrow> ManbaIngress list" where
  "store_ListManbaIngresses_loop valid [] = []"
| "store_ListManbaIngresses_loop valid (item # items) =
     (case item of
        ObjManbaIngress ing \<Rightarrow>
          if \<not> valid (ing_Meta ing) then store_ListManbaIngresses_loop valid items
          else ing # store_ListManbaIngresses_loop valid items
      | _ \<Rightarrow> store_ListManbaIngresses_loop valid items)"

definition store_ListManbaIngresses :: "store_struct \<Rightarrow> ManbaIngress list" where
  "store_ListManbaIngresses s =
     (case getStore s manbaIngress of None \<Rightarrow> []
      | Some c \<Rightarrow> store_ListManbaIngresses_loop (isValidIngresClass s) (cache_List c))"

definition store_GetService :: "store_struct \<Rightarrow> string \<Rightarrow> string \<Rightarrow> Service result" where
  "store_GetService s namespace name =
     (let key = namespace @ ''/'' @ name in
      rbind (store_GetByKey s service key) (found_as as_Service (NewError (''service '' @ key @ '' was not found''))))"

definition store_GetManbaIngress :: "store_struct \<Rightarrow> string \<Rightarrow> string \<Rightarrow> ManbaIngress result" where
  "store_GetManbaIngress s namespace name =
     (let key = namespace @ ''/'' @ name in
      rbind (store_GetByKey s manbaIngress key) (found_as as_ManbaIngress (NewError (''ManbaIngress '' @ key @ '' was not found''))))"

definition store_GetManbaCluster :: "store_struct \<Rightarrow> string \<Rightarrow> string \<Rightarrow> ManbaCluster result" where
  "store_GetManbaCluster s namespace name =
     (let key = namespace @ ''/'' @ name in
      rbind (store_GetByKey s manbaCluster key) (found_as as_ManbaCluster (NewError (''ManbaCluster '' @ key @ '' was not found''))))"

text \<open>\<open>New\<close> returns the struct behind the interface \<open>Store\<close>, of which the parser uses the methods below.\<close>

definition store_New :: "SharedInformerFactory \<Rightarrow> ManbaInformerFactory \<Rightarrow> (ObjectMeta \<Rightarrow> bool) \<Rightarrow> store_struct" where
  "store_New f mf valid = \<lparr>factory = f, manbaFactory = mf, isValidIngresClass = valid\<rparr>"

definition as_store :: "store_struct \<Rightarrow> store" where
  "as_store s = \<lparr>GetEndpointsForService = store_GetEndpointsForService s, ListServices = store_ListServices s,
     GetManbaCluster = store_GetManbaCluster s, ListManbaIngresses = store_ListManbaIngresses s, GetSecret = store_GetSecret s\<rparr>"

section \<open>The generated listers\<close>

definition ManbaClusterLister_Get :: "cache_Store \<Rightarrow> string \<Rightarrow> string \<Rightarrow> ManbaCluster result" where
  "ManbaClusterLister_Get indexer namespace name =
     rbind (GetByKey indexer (namespace @ ''/'' @ name)) (found_as as_ManbaCluster (StatusNotFound ''manbacluster'' name))"

definition ManbaIngressLister_Get :: "cache_Store \<Rightarrow> string \<Rightarrow> string \<Rightarrow> ManbaIngress result" where
  "ManbaIngressLister_Get indexer namespace name =
     rbind (GetByKey indexer (namespace @ ''/'' @ name)) (found_as as_ManbaIngress (StatusNotFound ''manbaingress'' name))"

section \<open>The contract of a cache\<close>

text \<open>
  The contents of a cache are a map from keys to objects: \<open>GetByKey\<close> looks a key up and never fails,
  \<open>List\<close> lists every object once in some order, and every object sits under its key.
\<close>

locale informer_cache =
  fixes c :: cache_Store and objs :: "string \<rightharpoonup> k8s_obj"
  assumes get: "GetByKey c k = Ok (objs k)"
    and listed: "set (cache_List c) = ran objs"
    and listed_once: "distinct (cache_List c)"
    and keyed: "objs k = Some x \<Longrightarrow> \<exists>meta. Accessor x = Ok meta \<and> object_key meta = k"
begin

lemma mset_List: "mset (cache_List c) = mset_set (ran objs)"
  using listed listed_once by (metis mset_set_set)

lemma finite_ran: "finite (ran objs)"
  using listed by (metis List.finite_set)

lemma found:
  assumes "rbind (GetByKey c k) (found_as as missing) = Ok y"
  obtains x meta where "objs k = Some x" "as x = Ok y" "Accessor x = Ok meta" "object_key meta = k"
  using assms keyed by (auto simp: get found_as_def split: option.splits)

lemma missing: "objs k = None \<Longrightarrow> rbind (GetByKey c k) (found_as as e) = Err e"
  by (simp add: get found_as_def)

end

text \<open>A reference cache: an association list of objects under their keys.\<close>

definition meta_key :: "k8s_obj \<Rightarrow> string" where
  "meta_key x = (case Accessor x of Ok meta \<Rightarrow> object_key meta | _ \<Rightarrow> [])"

definition list_cache :: "k8s_obj list \<Rightarrow> cache_Store" where
  "list_cache xs = \<lparr>GetByKey = (\<lambda>k. Ok (find (\<lambda>x. meta_key x = k) xs)), cache_List = xs\<rparr>"

definition cache_objs :: "k8s_obj list \<Rightarrow> string \<rightharpoonup> k8s_obj" where
  "cache_objs xs k = find (\<lambda>x. meta_key x = k) xs"

text \<open>The objects of a cache are objects with metadata and have different keys.\<close>

definition cacheable :: "k8s_obj list \<Rightarrow> bool" where
  "cacheable xs \<longleftrightarrow> distinct (map meta_key xs) \<and> list_all (\<lambda>x. is_Ok (Accessor x)) xs"

lemma find_distinct_key: "distinct (map f xs) \<Longrightarrow> x \<in> set xs \<Longrightarrow> find (\<lambda>y. f y = f x) xs = Some x"
  by (induction xs) (auto simp: image_iff)

lemma ran_cache_objs: "distinct (map meta_key xs) \<Longrightarrow> ran (cache_objs xs) = set xs"
  using find_distinct_key [of meta_key xs] unfolding ran_def cache_objs_def
  by (auto simp: find_Some_iff) 

lemma list_cache_informer: "cacheable xs \<Longrightarrow> informer_cache (list_cache xs) (cache_objs xs)"
proof unfold_locales
  assume c: "cacheable xs"
  then show "set (cache_List (list_cache xs)) = ran (cache_objs xs)"
    by (simp add: cacheable_def ran_cache_objs list_cache_def)
  show "distinct (cache_List (list_cache xs))"
    using c by (simp add: cacheable_def list_cache_def distinct_map)
  show "\<exists>meta. Accessor x = Ok meta \<and> object_key meta = k" if "cache_objs xs k = Some x" for k x
  proof -
    from that have "x \<in> set xs" "meta_key x = k" by (auto simp: cache_objs_def find_Some_iff)
    with c show ?thesis by (cases "Accessor x") (auto simp: cacheable_def list_all_iff meta_key_def)
  qed
qed (simp add: list_cache_def cache_objs_def)

section \<open>What the store returns\<close>

text \<open>The filter of \<open>ListManbaIngresses\<close> as a multiset: the valid ingresses among the objects of the cache.\<close>

definition valid_ingress :: "(ObjectMeta \<Rightarrow> bool) \<Rightarrow> k8s_obj \<Rightarrow> bool" where
  "valid_ingress valid x \<longleftrightarrow> (case x of ObjManbaIngress ing \<Rightarrow> valid (ing_Meta ing) | _ \<Rightarrow> False)"

lemma mset_ListManbaIngresses_loop:
  "mset (store_ListManbaIngresses_loop valid items) = image_mset (case_k8s_obj id undefined undefined undefined undefined undefined)
     (filter_mset (valid_ingress valid) (mset items))"
  by (induction items) (auto simp: valid_ingress_def split: k8s_obj.splits)

lemma store_ListManbaIngresses_eq:
  "store_ListManbaIngresses s = store_ListManbaIngresses_loop (isValidIngresClass s) (cache_List (ManbaIngresses_Store (manbaFactory s)))"
  by (simp add: store_ListManbaIngresses_def getStore_def kind_defs)

lemma as_ManbaCluster_iff [simp]: "as_ManbaCluster x = Ok y \<longleftrightarrow> x = ObjManbaCluster y"
  by (cases x) auto

lemma as_ManbaIngress_iff [simp]: "as_ManbaIngress x = Ok y \<longleftrightarrow> x = ObjManbaIngress y"
  by (cases x) auto

lemma as_Endpoints_iff [simp]: "as_Endpoints x = Ok y \<longleftrightarrow> x = ObjEndpoints y"
  by (cases x) auto

lemma as_Service_iff [simp]: "as_Service x = Ok y \<longleftrightarrow> x = ObjService y"
  by (cases x) auto

lemma found_as_Ok_iff: "rbind (GetByKey c k) (found_as as e) = Ok y \<longleftrightarrow> (\<exists>x. GetByKey c k = Ok (Some x) \<and> as x = Ok y)"
  by (auto simp: go_simps found_as_def split: option.splits)

lemma store_GetManbaCluster_iff:
  "store_GetManbaCluster s ns n = Ok x \<longleftrightarrow> GetByKey (ManbaClusters_Store (manbaFactory s)) (ns @ ''/'' @ n) = Ok (Some (ObjManbaCluster x))"
  by (simp add: store_GetManbaCluster_def store_GetByKey_def getStore_def kind_defs Let_def found_as_Ok_iff)

lemma store_GetEndpoints_iff:
  "store_GetEndpointsForService s ns n = Ok x \<longleftrightarrow> GetByKey (Endpoints_Store (factory s)) (ns @ ''/'' @ n) = Ok (Some (ObjEndpoints x))"
  by (simp add: store_GetEndpointsForService_def store_GetByKey_def getStore_def kind_defs Let_def found_as_Ok_iff)

text \<open>The names of Kubernetes objects have no slash, and every object of the caches has a namespace.\<close>

definition named_objects :: "(string \<rightharpoonup> k8s_obj) \<Rightarrow> bool" where
  "named_objects objs \<longleftrightarrow> (\<forall>x\<in>ran objs. \<forall>meta. Accessor x = Ok meta \<longrightarrow>
     meta_Namespace meta \<noteq> [] \<and> CHR ''/'' \<notin> set (meta_Namespace meta))"

context informer_cache
begin

lemma get_named:
  assumes "named_objects objs" and "CHR ''/'' \<notin> set ns"
  shows "GetByKey c (ns @ ''/'' @ n) = Ok (Some x) \<longleftrightarrow>
    x \<in> ran objs \<and> (\<exists>meta. Accessor x = Ok meta \<and> meta_Namespace meta = ns \<and> meta_Name meta = n)"
proof
  assume "GetByKey c (ns @ ''/'' @ n) = Ok (Some x)"
  then have x: "objs (ns @ ''/'' @ n) = Some x" by (simp add: get)
  then obtain meta where meta: "Accessor x = Ok meta" "object_key meta = ns @ ''/'' @ n" using keyed by blast
  from x have "x \<in> ran objs" by (auto simp: ran_def)
  with assms(1) meta(1) have "meta_Namespace meta \<noteq> []" "CHR ''/'' \<notin> set (meta_Namespace meta)"
    by (auto simp: named_objects_def)
  with meta(2) append_sep_inj [of "CHR ''/''" "meta_Namespace meta" ns "meta_Name meta" n] assms(2)
  show "x \<in> ran objs \<and> (\<exists>meta. Accessor x = Ok meta \<and> meta_Namespace meta = ns \<and> meta_Name meta = n)"
    using \<open>x \<in> ran objs\<close> meta(1) by (auto simp: object_key_def)
next
  assume x: "x \<in> ran objs \<and> (\<exists>meta. Accessor x = Ok meta \<and> meta_Namespace meta = ns \<and> meta_Name meta = n)"
  then obtain k where "objs k = Some x" by (auto simp: ran_def)
  with keyed [OF this] x assms(1) show "GetByKey c (ns @ ''/'' @ n) = Ok (Some x)"
    by (auto simp: get object_key_def named_objects_def)
qed

end

text \<open>
  The getters the parser uses return exactly the object of the cache with that namespace and name:
  \<open>GetManbaCluster\<close> for clusters and \<open>GetEndpointsForService\<close> for endpoints.
\<close>

theorem store_Get_exact:
  assumes "informer_cache (ManbaClusters_Store (manbaFactory s)) clusters" and "informer_cache (Endpoints_Store (factory s)) endpoints"
    and "named_objects clusters" "named_objects endpoints" "CHR ''/'' \<notin> set ns"
  shows "(store_GetManbaCluster s ns n = Ok x \<longleftrightarrow>
      ObjManbaCluster x \<in> ran clusters \<and> meta_Namespace (mc_Meta x) = ns \<and> meta_Name (mc_Meta x) = n) \<and>
    (store_GetEndpointsForService s ns n = Ok y \<longleftrightarrow>
      ObjEndpoints y \<in> ran endpoints \<and> meta_Namespace (eps_Meta y) = ns \<and> meta_Name (eps_Meta y) = n)"
  using informer_cache.get_named [OF assms(1,3,5)] informer_cache.get_named [OF assms(2,4,5)]
  by (simp add: store_GetManbaCluster_iff store_GetEndpoints_iff)

end
