(* ===== verification/Task_Queue.thy ===== *)
theory Task_Queue
  imports Store
begin

text \<open>
  The task queue (\<open>pkg/ingress/task/queue.go\<close>). Goroutines enqueue elements stamped with the time, one
  worker takes them and calls \<open>sync\<close>, skipping elements that are older than the start of the last
  successful call. The work queue of client-go is a parameter, its contract the locale \<open>work_queue\<close>; a
  reference queue satisfies it. Times are nanoseconds since 1970, which fit the 64 bits of the code
  until 2262. The worker and the goroutines that enqueue are an interleaving step relation, and the
  properties say that no element is lost and that no call of \<open>sync\<close> is redundant.
\<close>

section \<open>The queue\<close>

record 'k Element =
  Key :: 'k
  Timestamp :: int

text \<open>
  The operations of the work queue on its state. \<open>wq_Get\<close> is \<open>None\<close> while it blocks and gives no element
  when the queue was shut down and is drained. \<open>wq_ready\<close> is the progress of the queue itself, which
  makes delayed elements available.
\<close>

record ('k, 'q) workqueue =
  wq_Add :: "'k Element \<Rightarrow> 'q \<Rightarrow> 'q"
  wq_AddRateLimited :: "'k Element \<Rightarrow> 'q \<Rightarrow> 'q"
  wq_Get :: "'q \<Rightarrow> ('k Element option \<times> 'q) option"
  wq_Done :: "'k Element \<Rightarrow> 'q \<Rightarrow> 'q"
  wq_Forget :: "'k Element \<Rightarrow> 'q \<Rightarrow> 'q"
  wq_ShutDown :: "'q \<Rightarrow> 'q"
  wq_ShuttingDown :: "'q \<Rightarrow> bool"
  wq_ready :: "'q \<Rightarrow> 'q"

record 'q Queue =
  queue :: 'q
  workerDone :: bool
  lastSync :: int

definition NewTaskQueue :: "'q \<Rightarrow> 'q Queue" where
  "NewTaskQueue q = \<lparr>queue = q, workerDone = False, lastSync = 0\<rparr>"

definition IsShuttingDown :: "('k, 'q) workqueue \<Rightarrow> 'q Queue \<Rightarrow> bool" where
  "IsShuttingDown W t = wq_ShuttingDown W (queue t)"

definition defaultKeyFunc :: "('o \<Rightarrow> 'k result) \<Rightarrow> 'o \<Rightarrow> 'k result" where
  "defaultKeyFunc keyFunc obj = wrap_err ''could not get key for object'' (keyFunc obj)"

definition Enqueue :: "('k, 'q) workqueue \<Rightarrow> ('o \<Rightarrow> 'k result) \<Rightarrow> int \<Rightarrow> 'o \<Rightarrow> 'q Queue \<Rightarrow> 'q Queue" where
  "Enqueue W fn now obj t =
     (if IsShuttingDown W t then t
      else (case fn obj of
              Ok key \<Rightarrow> t\<lparr>queue := wq_Add W \<lparr>Key = key, Timestamp = now\<rparr> (queue t)\<rparr>
            | _ \<Rightarrow> t))"

text \<open>The closing of \<open>workerDone\<close> when \<open>Get\<close> reports the end of the queue.\<close>

definition worker_quit :: "'q Queue \<Rightarrow> 'q Queue" where
  "worker_quit t = (if \<not> workerDone t then t\<lparr>workerDone := True\<rparr> else t)"

definition worker_skips :: "'q Queue \<Rightarrow> 'k Element \<Rightarrow> bool" where
  "worker_skips t item \<longleftrightarrow> lastSync t > Timestamp item"

definition worker_skip :: "('k, 'q) workqueue \<Rightarrow> 'k Element \<Rightarrow> 'q Queue \<Rightarrow> 'q Queue" where
  "worker_skip W item t = t\<lparr>queue := wq_Done W item (wq_Forget W item (queue t))\<rparr>"

definition worker_synced :: "('k, 'q) workqueue \<Rightarrow> 'k Element \<Rightarrow> int \<Rightarrow> int \<Rightarrow> unit result \<Rightarrow> 'q Queue \<Rightarrow> 'q Queue" where
  "worker_synced W item ts now res t =
     (let t = (case res of
         Ok _ \<Rightarrow> t\<lparr>queue := wq_Forget W item (queue t), lastSync := ts\<rparr>
       | _ \<Rightarrow> t\<lparr>queue := wq_AddRateLimited W \<lparr>Key = Key item, Timestamp = now\<rparr> (queue t)\<rparr>)
      in t\<lparr>queue := wq_Done W item (queue t)\<rparr>)"

definition queue_Shutdown :: "('k, 'q) workqueue \<Rightarrow> 'q Queue \<Rightarrow> 'q Queue" where
  "queue_Shutdown W t = t\<lparr>queue := wq_ShutDown W (queue t)\<rparr>"

section \<open>The worker and the goroutines around it\<close>

text \<open>
  The worker is about to call \<open>Get\<close>, has an element, is inside \<open>sync\<close> since a time, or has returned. A panic
  of \<open>sync\<close> would end the process and is no step.
\<close>

datatype 'k worker_pc = Idle | Got "'k Element" | Syncing "'k Element" int | Returned

record ('k, 'q) qsys =
  sys_queue :: "'q Queue"
  sys_pc :: "'k worker_pc"
  sys_now :: int

datatype 'k qlabel = Enqueued "'k Element" | Skipped "'k Element" | Started "'k Element" int | Ended "'k Element" int bool | Internal

definition enqueue_label :: "('k, 'q) workqueue \<Rightarrow> ('o \<Rightarrow> 'k result) \<Rightarrow> int \<Rightarrow> 'o \<Rightarrow> 'q Queue \<Rightarrow> 'k qlabel" where
  "enqueue_label W fn now obj t =
     (if IsShuttingDown W t then Internal
      else (case fn obj of Ok key \<Rightarrow> Enqueued \<lparr>Key = key, Timestamp = now\<rparr> | _ \<Rightarrow> Internal))"

inductive queue_step :: "('k, 'q) workqueue \<Rightarrow> ('o \<Rightarrow> 'k result) \<Rightarrow> ('k, 'q) qsys \<Rightarrow> 'k qlabel \<Rightarrow> ('k, 'q) qsys \<Rightarrow> bool"
  for W fn where
  time_passes: "sys_now s \<le> now \<Longrightarrow> queue_step W fn s Internal (s\<lparr>sys_now := now\<rparr>)"
| becomes_ready: "queue_step W fn s Internal (s\<lparr>sys_queue := (sys_queue s)\<lparr>queue := wq_ready W (queue (sys_queue s))\<rparr>\<rparr>)"
| enqueue: "queue_step W fn s (enqueue_label W fn (sys_now s) obj (sys_queue s))
    (s\<lparr>sys_queue := Enqueue W fn (sys_now s) obj (sys_queue s)\<rparr>)"
| shutdown: "queue_step W fn s Internal (s\<lparr>sys_queue := queue_Shutdown W (sys_queue s)\<rparr>)"
| get: "sys_pc s = Idle \<Longrightarrow> wq_Get W (queue (sys_queue s)) = Some (Some item, q) \<Longrightarrow>
    queue_step W fn s Internal (s\<lparr>sys_queue := (sys_queue s)\<lparr>queue := q\<rparr>, sys_pc := Got item\<rparr>)"
| quit: "sys_pc s = Idle \<Longrightarrow> wq_Get W (queue (sys_queue s)) = Some (None, q) \<Longrightarrow>
    queue_step W fn s Internal (s\<lparr>sys_queue := worker_quit ((sys_queue s)\<lparr>queue := q\<rparr>), sys_pc := Returned\<rparr>)"
| restart: "sys_pc s = Returned \<Longrightarrow> queue_step W fn s Internal (s\<lparr>sys_pc := Idle\<rparr>)"
| skip: "sys_pc s = Got item \<Longrightarrow> worker_skips (sys_queue s) item \<Longrightarrow>
    queue_step W fn s (Skipped item) (s\<lparr>sys_queue := worker_skip W item (sys_queue s), sys_pc := Idle\<rparr>)"
| start: "sys_pc s = Got item \<Longrightarrow> \<not> worker_skips (sys_queue s) item \<Longrightarrow>
    queue_step W fn s (Started item (sys_now s)) (s\<lparr>sys_pc := Syncing item (sys_now s)\<rparr>)"
| finish: "sys_pc s = Syncing item ts \<Longrightarrow> \<not> is_Panic res \<Longrightarrow>
    queue_step W fn s (Ended item ts (is_Ok res))
      (s\<lparr>sys_queue := worker_synced W item ts (sys_now s) res (sys_queue s), sys_pc := Idle\<rparr>)"

inductive queue_run :: "('k, 'q) workqueue \<Rightarrow> ('o \<Rightarrow> 'k result) \<Rightarrow> ('k, 'q) qsys \<Rightarrow> 'k qlabel list \<Rightarrow> ('k, 'q) qsys \<Rightarrow> bool"
  for W fn s where
  run_nil: "queue_run W fn s [] s"
| run_step: "queue_run W fn s ls s' \<Longrightarrow> queue_step W fn s' l s'' \<Longrightarrow> queue_run W fn s (ls @ [l]) s''"

definition queue_init :: "'q \<Rightarrow> int \<Rightarrow> ('k, 'q) qsys" where
  "queue_init q now = \<lparr>sys_queue = NewTaskQueue q, sys_pc = Idle, sys_now = now\<rparr>"

section \<open>The contract of the work queue\<close>

text \<open>
  \<open>waiting\<close> are the elements that were added and not yet taken, also those that wait for their delay.
  While the queue is open nothing that is added gets lost, \<open>Get\<close> takes a waiting element and leaves the
  others, and only a queue that was shut down reports its end.
\<close>

locale work_queue =
  fixes W :: "('k, 'q) workqueue" and waiting :: "'q \<Rightarrow> 'k Element set"
  assumes add: "\<not> wq_ShuttingDown W q \<Longrightarrow> waiting (wq_Add W e q) = insert e (waiting q)"
    and rate: "\<not> wq_ShuttingDown W q \<Longrightarrow> waiting (wq_AddRateLimited W e q) = insert e (waiting q)"
    and taken: "wq_Get W q = Some (Some e, q') \<Longrightarrow> e \<in> waiting q \<and> waiting q - {e} \<subseteq> waiting q' \<and> waiting q' \<subseteq> waiting q"
    and ended: "wq_Get W q = Some (None, q') \<Longrightarrow> wq_ShuttingDown W q \<and> waiting q' \<subseteq> waiting q"
    and waiting_same: "waiting (wq_Done W e q) = waiting q" "waiting (wq_Forget W e q) = waiting q" "waiting (wq_ready W q) = waiting q"
    and open_same: "wq_ShuttingDown W (wq_Add W e q) = wq_ShuttingDown W q" "wq_ShuttingDown W (wq_AddRateLimited W e q) = wq_ShuttingDown W q"
      "wq_ShuttingDown W (wq_Done W e q) = wq_ShuttingDown W q" "wq_ShuttingDown W (wq_Forget W e q) = wq_ShuttingDown W q"
      "wq_ShuttingDown W (wq_ready W q) = wq_ShuttingDown W q" "wq_Get W q = Some (r, q') \<Longrightarrow> wq_ShuttingDown W q' = wq_ShuttingDown W q"
    and add_le: "waiting (wq_Add W e q) \<subseteq> insert e (waiting q)" "waiting (wq_AddRateLimited W e q) \<subseteq> insert e (waiting q)"
    and closed: "wq_ShuttingDown W (wq_ShutDown W q)" "waiting (wq_ShutDown W q) \<subseteq> waiting q"

section \<open>Invariants of the runs\<close>

text \<open>The elements in the hands of the queue or of the worker.\<close>

definition held :: "('q \<Rightarrow> 'k Element set) \<Rightarrow> ('k, 'q) qsys \<Rightarrow> 'k Element set" where
  "held waiting s = waiting (queue (sys_queue s)) \<union> (case sys_pc s of Got e \<Rightarrow> {e} | Syncing e ts \<Rightarrow> {e} | _ \<Rightarrow> {})"

text \<open>A successful call that started at a time, and the times the state of the queue respects.\<close>

definition succeeded :: "'k qlabel list \<Rightarrow> int \<Rightarrow> bool" where
  "succeeded ls ts \<longleftrightarrow> (\<exists>e. Ended e ts True \<in> set ls)"

definition times_ok :: "('q \<Rightarrow> 'k Element set) \<Rightarrow> 'k qlabel list \<Rightarrow> ('k, 'q) qsys \<Rightarrow> bool" where
  "times_ok waiting ls s \<longleftrightarrow>
     (lastSync (sys_queue s) = 0 \<or> succeeded ls (lastSync (sys_queue s))) \<and>
     (\<forall>ts. succeeded ls ts \<longrightarrow> ts \<le> lastSync (sys_queue s)) \<and> lastSync (sys_queue s) \<le> sys_now s \<and> 0 \<le> sys_now s \<and>
     (\<forall>e\<in>held waiting s. 0 \<le> Timestamp e \<and> Timestamp e \<le> sys_now s) \<and>
     (\<forall>e ts. sys_pc s = Syncing e ts \<longrightarrow> lastSync (sys_queue s) \<le> ts \<and> Timestamp e \<le> ts \<and> ts \<le> sys_now s)"

text \<open>An element is covered by one of its key at least as new that is held, or by a successful call that started later.\<close>

definition covered :: "('q \<Rightarrow> 'k Element set) \<Rightarrow> 'k qlabel list \<Rightarrow> ('k, 'q) qsys \<Rightarrow> 'k Element \<Rightarrow> bool" where
  "covered waiting ls s e \<longleftrightarrow> (\<exists>e'\<in>held waiting s. Key e' = Key e \<and> Timestamp e \<le> Timestamp e') \<or>
     (\<exists>ts. succeeded ls ts \<and> Timestamp e \<le> ts)"

lemma succeeded_snoc [simp]: "succeeded (ls @ [l]) ts \<longleftrightarrow> succeeded ls ts \<or> (\<exists>e. l = Ended e ts True)"
  by (auto simp: succeeded_def)

lemma covered_grows: "covered waiting ls s e \<Longrightarrow> held waiting s \<subseteq> held waiting s' \<Longrightarrow> covered waiting (ls @ ls') s' e"
  by (auto simp: covered_def succeeded_def)

lemmas qstep_defs = Enqueue_def enqueue_label_def IsShuttingDown_def queue_Shutdown_def worker_quit_def worker_skip_def worker_skips_def worker_synced_def

context work_queue
begin

lemma step_times_ok:
  assumes "queue_step W fn s l s'" and "times_ok waiting ls s"
  shows "times_ok waiting (ls @ [l]) s'"
  using assms(1)
proof cases
  case (enqueue obj)
  have "lastSync (sys_queue s') = lastSync (sys_queue s)" "\<And>e ts b. l \<noteq> Ended e ts b"
    by (simp_all add: enqueue qstep_defs split: result.splits)
  moreover have "\<And>e. e \<in> held waiting s' \<Longrightarrow> e \<in> held waiting s \<or> Timestamp e = sys_now s"
    by (auto simp: enqueue held_def qstep_defs dest!: subsetD [OF add_le(1)] split: result.splits if_splits)
  ultimately show ?thesis using assms(2) enqueue by (auto simp: times_ok_def) fastforce+
next
  case (get item q)
  then show ?thesis using assms(2) taken [of "queue (sys_queue s)" item q] by (auto simp: times_ok_def held_def)
next
  case (finish item ts res)
  then show ?thesis using assms(2) add_le(2)
    by (cases res) (auto simp: times_ok_def held_def qstep_defs Let_def waiting_same, fastforce+)
next
  case (quit q)
  then have "held waiting s' \<subseteq> held waiting s" using ended [of "queue (sys_queue s)" q] by (auto simp: held_def qstep_defs)
  then show ?thesis using assms(2) quit by (auto simp: times_ok_def qstep_defs)
next
  case shutdown
  then have "held waiting s' \<subseteq> held waiting s" using closed(2) by (auto simp: held_def qstep_defs)
  then show ?thesis using assms(2) shutdown by (auto simp: times_ok_def qstep_defs)
next
  case (time_passes now)
  then have "held waiting s' = held waiting s" by (simp add: held_def)
  then show ?thesis using assms(2) time_passes unfolding times_ok_def by (simp, meson order_trans)
qed (use assms(2) in \<open>auto simp: times_ok_def held_def qstep_defs waiting_same\<close>)

lemma step_open: "queue_step W fn s l s' \<Longrightarrow> \<not> IsShuttingDown W (sys_queue s') \<Longrightarrow> \<not> IsShuttingDown W (sys_queue s)"
  by (erule queue_step.cases) (auto simp: qstep_defs Let_def open_same closed split: result.splits if_splits)

lemma step_covered:
  assumes "queue_step W fn s l s'" and "times_ok waiting ls s" and "\<not> IsShuttingDown W (sys_queue s')" and "covered waiting ls s e"
  shows "covered waiting (ls @ [l]) s' e"
proof -
  have down: "\<not> IsShuttingDown W (sys_queue s)" by (rule step_open [OF assms(1,3)])
  show ?thesis using assms(1)
  proof cases
    case (skip item)
    show ?thesis
    proof (cases "Key item = Key e \<and> Timestamp e \<le> Timestamp item")
      case True
      then have "succeeded ls (lastSync (sys_queue s)) \<and> Timestamp e \<le> lastSync (sys_queue s)"
        using skip assms(2) by (auto simp: times_ok_def held_def worker_skips_def)
      then show ?thesis by (auto simp: covered_def)
    next
      case False
      then show ?thesis using skip assms(4) by (auto simp: covered_def held_def worker_skip_def waiting_same)
    qed
  next
    case (finish item ts res)
    have ts: "Timestamp item \<le> ts" "Timestamp item \<le> sys_now s" using finish assms(2) by (auto simp: times_ok_def held_def)
    show ?thesis
    proof (cases res)
      case (Ok u)
      then show ?thesis using finish assms(4) ts by (fastforce simp: covered_def held_def worker_synced_def waiting_same)
    next
      case (Err err)
      then have "waiting (queue (sys_queue s')) = insert \<lparr>Key = Key item, Timestamp = sys_now s\<rparr> (waiting (queue (sys_queue s)))"
        using finish down by (simp add: worker_synced_def waiting_same rate IsShuttingDown_def)
      then show ?thesis using finish assms(4) ts by (fastforce simp: covered_def held_def)
    qed (use finish in simp)
  next
    case (get item q)
    then show ?thesis using assms(4) taken [of "queue (sys_queue s)" item q] by (intro covered_grows) (auto simp: held_def)
  next
    case (enqueue obj)
    then show ?thesis using assms(4) down
      by (intro covered_grows) (auto simp: held_def Enqueue_def add IsShuttingDown_def split: result.splits)
  qed (use assms(3,4) ended in \<open>auto intro!: covered_grows simp: held_def qstep_defs waiting_same open_same closed\<close>)
qed

lemma step_enqueued:
  assumes "queue_step W fn s (Enqueued e) s'" and "\<not> IsShuttingDown W (sys_queue s')"
  shows "covered waiting ls s' e"
  using assms(1)
proof cases
  case (enqueue obj)
  then show ?thesis by (auto simp: covered_def held_def enqueue_label_def Enqueue_def add IsShuttingDown_def split: if_splits result.splits)
qed

lemma run_ok:
  assumes "queue_run W fn (queue_init q now) ls s" and "waiting q = {}" and "0 \<le> now"
  shows "times_ok waiting ls s" and "\<not> IsShuttingDown W (sys_queue s) \<Longrightarrow> Enqueued e \<in> set ls \<Longrightarrow> covered waiting ls s e"
proof -
  have "times_ok waiting ls s \<and> (\<not> IsShuttingDown W (sys_queue s) \<longrightarrow> Enqueued e \<in> set ls \<longrightarrow> covered waiting ls s e)"
    using assms(1)
  proof induction
    case run_nil
    then show ?case using assms(2,3) by (simp add: times_ok_def held_def queue_init_def NewTaskQueue_def succeeded_def)
  next
    case (run_step ls s' l s'')
    then show ?case using step_times_ok [OF run_step.hyps(2)] step_open [OF run_step.hyps(2)] step_covered [OF run_step.hyps(2)]
      step_enqueued [of fn s' e s''] by auto
  qed
  then show "times_ok waiting ls s" and "\<not> IsShuttingDown W (sys_queue s) \<Longrightarrow> Enqueued e \<in> set ls \<Longrightarrow> covered waiting ls s e" by blast+
qed

end

lemma queue_run_split:
  assumes "queue_run W fn s ls s'" and "ls = xs @ l # ys"
  shows "\<exists>s1 s2. queue_run W fn s xs s1 \<and> queue_step W fn s1 l s2"
  using assms
proof (induction arbitrary: ys)
  case (run_step ls s' l' s'')
  show ?case
  proof (cases ys rule: rev_cases)
    case Nil
    with run_step show ?thesis by auto
  next
    case (snoc zs z)
    with run_step.prems have "ls = xs @ l # zs" by simp
    then show ?thesis by (rule run_step.IH)
  qed
qed simp

section \<open>A reference queue\<close>

text \<open>
  The documented behaviour of client-go: an element is queued once however often it is added; while it
  is processed it is remembered as dirty and queued again when it is done; rate limited elements wait
  aside. After the shutdown nothing is added and the queue is drained.
\<close>

record 'k ref_wq =
  rq_queue :: "'k Element list"
  rq_dirty :: "'k Element list"
  rq_processing :: "'k Element list"
  rq_delayed :: "'k Element list"
  rq_down :: bool

definition rq_add :: "'k Element \<Rightarrow> 'k ref_wq \<Rightarrow> 'k ref_wq" where
  "rq_add e q = (if rq_down q \<or> e \<in> set (rq_dirty q) then q
     else let q = q\<lparr>rq_dirty := e # rq_dirty q\<rparr> in if e \<in> set (rq_processing q) then q else q\<lparr>rq_queue := rq_queue q @ [e]\<rparr>)"

definition rq_get :: "'k ref_wq \<Rightarrow> ('k Element option \<times> 'k ref_wq) option" where
  "rq_get q = (case rq_queue q of
       [] \<Rightarrow> if rq_down q then Some (None, q) else None
     | e # es \<Rightarrow> Some (Some e, q\<lparr>rq_queue := es, rq_processing := e # rq_processing q, rq_dirty := removeAll e (rq_dirty q)\<rparr>))"

definition rq_done :: "'k Element \<Rightarrow> 'k ref_wq \<Rightarrow> 'k ref_wq" where
  "rq_done e q = (let q = q\<lparr>rq_processing := removeAll e (rq_processing q)\<rparr> in
     if e \<in> set (rq_dirty q) then q\<lparr>rq_queue := rq_queue q @ [e]\<rparr> else q)"

definition rq_ready :: "'k ref_wq \<Rightarrow> 'k ref_wq" where
  "rq_ready q = (if rq_down q then q else fold rq_add (rq_delayed q) (q\<lparr>rq_delayed := []\<rparr>))"

definition ref_workqueue :: "('k, 'k ref_wq) workqueue" where
  "ref_workqueue = \<lparr>wq_Add = rq_add, wq_AddRateLimited = (\<lambda>e q. if rq_down q then q else q\<lparr>rq_delayed := rq_delayed q @ [e]\<rparr>),
     wq_Get = rq_get, wq_Done = rq_done, wq_Forget = (\<lambda>e q. q), wq_ShutDown = (\<lambda>q. q\<lparr>rq_down := True\<rparr>),
     wq_ShuttingDown = rq_down, wq_ready = rq_ready\<rparr>"

definition rq_waiting :: "'k ref_wq \<Rightarrow> 'k Element set" where
  "rq_waiting q = set (rq_queue q) \<union> set (rq_dirty q) \<union> set (rq_delayed q)"

definition rq_empty :: "'k ref_wq" where
  "rq_empty = \<lparr>rq_queue = [], rq_dirty = [], rq_processing = [], rq_delayed = [], rq_down = False\<rparr>"

lemma rq_add_down [simp]: "rq_down (rq_add e q) = rq_down q"
  by (simp add: rq_add_def Let_def)

lemma rq_fold_down [simp]: "rq_down (fold rq_add es q) = rq_down q"
  by (induction es arbitrary: q) auto

lemma rq_add_waiting: "\<not> rq_down q \<Longrightarrow> rq_waiting (rq_add e q) = insert e (rq_waiting q)"
  by (auto simp: rq_add_def Let_def rq_waiting_def)

lemma rq_fold_waiting: "\<not> rq_down q \<Longrightarrow> rq_waiting (fold rq_add es q) = set es \<union> rq_waiting q"
  by (induction es arbitrary: q) (auto simp: rq_add_waiting)

interpretation refq: work_queue ref_workqueue rq_waiting
proof unfold_locales
  fix q q' :: "'a ref_wq" and e :: "'a Element" and r
  show "wq_Get ref_workqueue q = Some (Some e, q') \<Longrightarrow> e \<in> rq_waiting q \<and> rq_waiting q - {e} \<subseteq> rq_waiting q' \<and> rq_waiting q' \<subseteq> rq_waiting q"
    by (auto simp: ref_workqueue_def rq_get_def rq_waiting_def split: list.splits if_splits)
  show "wq_Get ref_workqueue q = Some (r, q') \<Longrightarrow> wq_ShuttingDown ref_workqueue q' = wq_ShuttingDown ref_workqueue q"
    by (auto simp: ref_workqueue_def rq_get_def split: list.splits if_splits)
  show "rq_waiting (wq_ready ref_workqueue q) = rq_waiting q"
    by (auto simp: ref_workqueue_def rq_ready_def rq_fold_waiting) (auto simp: rq_waiting_def)
qed (auto simp: ref_workqueue_def rq_add_def rq_get_def rq_done_def rq_ready_def rq_waiting_def Let_def split: list.splits if_splits)

section \<open>An executable scheduler\<close>

text \<open>One goroutine moves at a time as told; a run of the scheduler is a run of the step relation.\<close>

datatype 'o move = Wait int | Ready | Submit 'o | Take | Decide | Finish "unit result"

fun queue_move :: "('k, 'q) workqueue \<Rightarrow> ('o \<Rightarrow> 'k result) \<Rightarrow> 'o move \<Rightarrow> ('k, 'q) qsys \<Rightarrow> ('k qlabel \<times> ('k, 'q) qsys) option" where
  "queue_move W fn (Wait now) s = (if sys_now s \<le> now then Some (Internal, s\<lparr>sys_now := now\<rparr>) else None)"
| "queue_move W fn Ready s = Some (Internal, s\<lparr>sys_queue := (sys_queue s)\<lparr>queue := wq_ready W (queue (sys_queue s))\<rparr>\<rparr>)"
| "queue_move W fn (Submit obj) s = Some (enqueue_label W fn (sys_now s) obj (sys_queue s), s\<lparr>sys_queue := Enqueue W fn (sys_now s) obj (sys_queue s)\<rparr>)"
| "queue_move W fn Take s = (case (sys_pc s, wq_Get W (queue (sys_queue s))) of
     (Idle, Some (Some item, q)) \<Rightarrow> Some (Internal, s\<lparr>sys_queue := (sys_queue s)\<lparr>queue := q\<rparr>, sys_pc := Got item\<rparr>)
   | _ \<Rightarrow> None)"
| "queue_move W fn Decide s = (case sys_pc s of
     Got item \<Rightarrow> Some (if worker_skips (sys_queue s) item then (Skipped item, s\<lparr>sys_queue := worker_skip W item (sys_queue s), sys_pc := Idle\<rparr>)
        else (Started item (sys_now s), s\<lparr>sys_pc := Syncing item (sys_now s)\<rparr>))
   | _ \<Rightarrow> None)"
| "queue_move W fn (Finish res) s = (case sys_pc s of
     Syncing item ts \<Rightarrow> if is_Panic res then None else Some (Ended item ts (is_Ok res), s\<lparr>sys_queue := worker_synced W item ts (sys_now s) res (sys_queue s), sys_pc := Idle\<rparr>)
   | _ \<Rightarrow> None)"

lemma queue_move_step: "queue_move W fn m s = Some (l, s') \<Longrightarrow> queue_step W fn s l s'"
  by (cases m) (auto split: if_splits worker_pc.splits option.splits prod.splits intro: queue_step.intros)

fun queue_moves :: "('k, 'q) workqueue \<Rightarrow> ('o \<Rightarrow> 'k result) \<Rightarrow> 'o move list \<Rightarrow> 'k qlabel list \<times> ('k, 'q) qsys \<Rightarrow> ('k qlabel list \<times> ('k, 'q) qsys) option" where
  "queue_moves W fn [] ls = Some ls"
| "queue_moves W fn (m # ms) (ls, s) = (case queue_move W fn m s of None \<Rightarrow> None | Some (l, s') \<Rightarrow> queue_moves W fn ms (ls @ [l], s'))"

lemma queue_moves_run:
  "queue_run W fn s0 (fst x) (snd x) \<Longrightarrow> queue_moves W fn ms x = Some (ls, s) \<Longrightarrow> queue_run W fn s0 ls s"
proof (induction ms arbitrary: x)
  case (Cons m ms)
  obtain l s' where m: "queue_move W fn m (snd x) = Some (l, s')" "queue_moves W fn ms (fst x @ [l], s') = Some (ls, s)"
    using Cons.prems(2) by (cases x) (auto split: option.splits)
  have "queue_run W fn s0 (fst (fst x @ [l], s')) (snd (fst x @ [l], s'))"
    using run_step [OF Cons.prems(1) queue_move_step [OF m(1)]] by simp
  with m(2) show ?case by (rule Cons.IH [rotated])
qed auto

section \<open>The properties\<close>

text \<open>
  C5. No update is lost: as long as the queue is open, an element that was enqueued is held by the queue
  or the worker, itself or as a later element of its key, until a call of \<open>sync\<close> that started no earlier
  than the element was enqueued has succeeded. This holds however enqueuing, retries after errors and
  skipping interleave.
\<close>

theorem no_element_lost:
  assumes "work_queue W waiting" and "queue_run W fn (queue_init q now) ls s" and "waiting q = {}" and "0 \<le> now"
    and "\<not> IsShuttingDown W (sys_queue s)" and "Enqueued e \<in> set ls"
  shows "covered waiting ls s e"
  by (rule work_queue.run_ok(2) [OF assms])

text \<open>
  C22. The worker calls \<open>sync\<close> exactly when it is needed: when a call starts for an element, no earlier
  successful call started after the element was enqueued, and an element is skipped only when one did.
\<close>

theorem sync_exactly_when_needed:
  assumes "work_queue W waiting" and "queue_run W fn (queue_init q now) ls s" and "waiting q = {}" and "0 \<le> now"
  shows "(ls = xs @ Started e ts # ys \<longrightarrow> (\<forall>ts'. succeeded xs ts' \<longrightarrow> ts' \<le> Timestamp e)) \<and>
    (ls = xs @ Skipped e # ys \<longrightarrow> (\<exists>ts'. succeeded xs ts' \<and> Timestamp e < ts'))"
proof (intro conjI impI)
  assume "ls = xs @ Started e ts # ys"
  then obtain s1 s2 where r: "queue_run W fn (queue_init q now) xs s1" "queue_step W fn s1 (Started e ts) s2"
    using queue_run_split [OF assms(2)] by blast
  from r(2) have "lastSync (sys_queue s1) \<le> Timestamp e"
    by cases (auto simp: worker_skips_def enqueue_label_def split: if_splits result.splits)
  then show "\<forall>ts'. succeeded xs ts' \<longrightarrow> ts' \<le> Timestamp e"
    using work_queue.run_ok(1) [OF assms(1) r(1) assms(3,4)] by (auto simp: times_ok_def)
next
  assume "ls = xs @ Skipped e # ys"
  then obtain s1 s2 where r: "queue_run W fn (queue_init q now) xs s1" "queue_step W fn s1 (Skipped e) s2"
    using queue_run_split [OF assms(2)] by blast
  from r(2) have "Timestamp e < lastSync (sys_queue s1)" "sys_pc s1 = Got e"
    by (cases; auto simp: worker_skips_def enqueue_label_def split: if_splits result.splits)+
  then show "\<exists>ts'. succeeded xs ts' \<and> Timestamp e < ts'"
    using work_queue.run_ok(1) [OF assms(1) r(1) assms(3,4)] by (auto simp: times_ok_def held_def)
qed

text \<open>
  Two elements are enqueued, the first call fails, the retry succeeds, and the second element is skipped
  because it is older than the start of the retry.
\<close>

definition sample_moves :: "string move list" where
  "sample_moves = [Submit ''a'', Wait 6, Submit ''b'', Take, Wait 7, Decide, Finish (Err ErrNotFound), Wait 9, Ready, Take, Decide, Finish (Ok ()),
     Take, Decide]"

definition sample_labels :: "string qlabel list" where
  "sample_labels = [Enqueued \<lparr>Key = ''a'', Timestamp = 5\<rparr>, Internal, Enqueued \<lparr>Key = ''b'', Timestamp = 6\<rparr>, Internal, Internal,
     Started \<lparr>Key = ''a'', Timestamp = 5\<rparr> 7, Ended \<lparr>Key = ''a'', Timestamp = 5\<rparr> 7 False, Internal, Internal, Internal,
     Started \<lparr>Key = ''b'', Timestamp = 6\<rparr> 9, Ended \<lparr>Key = ''b'', Timestamp = 6\<rparr> 9 True, Internal, Skipped \<lparr>Key = ''a'', Timestamp = 7\<rparr>]"

lemma sample_queue_run:
  obtains s where "queue_run ref_workqueue Ok (queue_init rq_empty 5) sample_labels s" "\<not> IsShuttingDown ref_workqueue (sys_queue s)"
proof -
  have "map_option (\<lambda>(ls, s). (ls, IsShuttingDown ref_workqueue (sys_queue s))) (queue_moves ref_workqueue Ok sample_moves ([], queue_init rq_empty 5)) =
      Some (sample_labels, False)"
    by code_simp
  then obtain s where s: "queue_moves ref_workqueue Ok sample_moves ([], queue_init rq_empty 5) = Some (sample_labels, s)"
      "\<not> IsShuttingDown ref_workqueue (sys_queue s)"
    by auto
  have "queue_run ref_workqueue Ok (queue_init rq_empty 5) sample_labels s"
    by (rule queue_moves_run [OF _ s(1)]) (simp add: run_nil)
  then show thesis using that s(2) by blast
qed

lemma rq_waiting_empty: "rq_waiting rq_empty = {}"
  by (simp add: rq_waiting_def rq_empty_def)

theorem no_element_lost_witness:
  "\<exists>s. queue_run ref_workqueue Ok (queue_init rq_empty 5) sample_labels s \<and> covered rq_waiting sample_labels s \<lparr>Key = ''a'', Timestamp = 5\<rparr>"
proof -
  obtain s where s: "queue_run ref_workqueue Ok (queue_init rq_empty 5) sample_labels s" "\<not> IsShuttingDown ref_workqueue (sys_queue s)"
    by (rule sample_queue_run)
  have "covered rq_waiting sample_labels s \<lparr>Key = ''a'', Timestamp = 5\<rparr>"
    by (rule no_element_lost [OF refq.work_queue_axioms s(1) rq_waiting_empty _ s(2)]) (simp_all add: sample_labels_def)
  with s(1) show ?thesis by blast
qed

theorem sync_exactly_when_needed_witness:
  "\<exists>ts'. succeeded (take 13 sample_labels) ts' \<and> 7 < ts'"
proof -
  obtain s where s: "queue_run ref_workqueue Ok (queue_init rq_empty 5) sample_labels s"
    by (rule sample_queue_run)
  have "sample_labels = take 13 sample_labels @ Skipped \<lparr>Key = ''a'', Timestamp = 7\<rparr> # []" by (simp add: sample_labels_def)
  then show ?thesis
    using sync_exactly_when_needed [OF refq.work_queue_axioms s rq_waiting_empty, of "take 13 sample_labels" _ _ "[]"] by force
qed

end
