(* ===== verification/Controller_Sync.thy ===== *)
theory Controller_Sync
  imports Gateway_Laws Parser_Types
begin

text \<open>
  The synchronisation of the controller (\<open>pkg/ingress/controller/manba.go\<close>): \<open>toStable\<close> orders the parsed
  configuration, \<open>setTargetsIDs\<close> gives its entities the IDs of the gateway, \<open>filterInvalidations\<close> drops
  what the gateway would refuse, \<open>onUpdate\<close> loads both configurations and solves the difference, and
  \<open>OnUpdate\<close> skips all of it when the configuration is the one applied last.
\<close>

section \<open>toStable\<close>

definition stable_API :: "parser_API \<Rightarrow> dump_API" where
  "stable_API api = \<lparr>dAPI = pAPI api,
     dAPI_Proxies = SliceStable (\<lambda>i j. Proxy_ClusterName i < Proxy_ClusterName j) (map snd (pAPI_Proxies api))\<rparr>"

definition cluster_binds :: "parser_Cluster \<Rightarrow> dump_Bind list" where
  "cluster_binds c = map (\<lambda>svr. \<lparr>dBind_ClusterName = Cluster_Name (pCluster c),
     dBind_ServerAddr = Server_Addr (pServer svr), dBind = None\<rparr>) (pCluster_Servers c)"

definition bind_less :: "dump_Bind \<Rightarrow> dump_Bind \<Rightarrow> bool" where
  "bind_less i j \<longleftrightarrow> dBind_ClusterName i < dBind_ClusterName j \<and> dBind_ServerAddr i < dBind_ServerAddr j"

definition toStable :: "parser_ManbaState \<Rightarrow> ManbaRawState" where
  "toStable s = \<lparr>
     raw_APIs = SliceStable (\<lambda>i j. API_Name (dAPI i) < API_Name (dAPI j)) (map stable_API (ps_APIs s)),
     raw_Servers = SliceStable (\<lambda>i j. Server_Addr (dServer i) < Server_Addr (dServer j))
       (map (\<lambda>server. \<lparr>dServer = pServer server\<rparr>) (ps_Servers s)),
     raw_Clusters = SliceStable (\<lambda>i j. Cluster_Name (dCluster i) < Cluster_Name (dCluster j))
       (map (\<lambda>cls. \<lparr>dCluster = pCluster cls\<rparr>) (ps_Clusters s)),
     raw_Binds = SliceStable bind_less (concat (map cluster_binds (ps_Clusters s))),
     raw_Routings = SliceStable (\<lambda>i j. Routing_Name (dRouting i) < Routing_Name (dRouting j))
       (map (\<lambda>routing. \<lparr>dRouting_APIName = pRouting_APIName routing,
         dRouting_ClusterName = pRouting_ClusterName routing, dRouting = pRouting routing\<rparr>) (ps_Routings s))\<rparr>"

section \<open>setTargetsIDs\<close>

text \<open>
  \<open>sonyflake\<close> is a parameter: \<open>NextID\<close> is a number from its state, zero where it fails, since \<open>SnowID\<close>
  drops the error.
\<close>

definition SnowID :: "('n \<Rightarrow> 'n \<times> uint64) \<Rightarrow> 'n \<Rightarrow> 'n \<times> uint64" where
  "SnowID NextID n = (let (n', id) = NextID n in (n', id mod 20000000))"

text \<open>The ID of a target entity: its own, else that of the entity of its name, else a new one.\<close>

definition target_ID ::
    "('n \<Rightarrow> 'n \<times> uint64) \<Rightarrow> uint64 \<Rightarrow> 'e result \<Rightarrow> ('e \<Rightarrow> uint64) \<Rightarrow> 'n \<Rightarrow> ('n \<times> uint64) result" where
  "target_ID NextID own get ID n =
     (if own = 0 then
        (case get of
           Err err \<Rightarrow> if err = ErrNotFound then Ok (SnowID NextID n) else Err err
         | Panic m \<Rightarrow> Panic m
         | Ok e \<Rightarrow> Ok (n, ID e))
      else Ok (n, own))"

type_synonym ids_map = "string \<rightharpoonup> uint64"

text \<open>
  The four loops over named entities have one shape: find the ID of the entity, store it in the
  entity, and record it under the name. \<open>own\<close> finds the ID and \<open>put\<close> stores it.
\<close>

fun target_loop ::
    "('a \<Rightarrow> 'n \<Rightarrow> ('n \<times> uint64) result) \<Rightarrow> ('a \<Rightarrow> string) \<Rightarrow> ('a \<Rightarrow> uint64 \<Rightarrow> 'a) \<Rightarrow> 'a list \<Rightarrow> ids_map \<Rightarrow> 'n \<Rightarrow>
     ('n \<times> ids_map \<times> 'a list) result" where
  "target_loop own name put [] ids n = Ok (n, ids, [])"
| "target_loop own name put (x # xs) ids n =
     rbind (own x n) (\<lambda>(n, id).
     rbind (target_loop own name put xs (ids(name x \<mapsto> id)) n) (\<lambda>(n, ids, rest).
     Ok (n, ids, put x id # rest)))"

definition set_server_IDs ::
    "'w codecs \<Rightarrow> ('db, obj) memdb \<Rightarrow> ('n \<Rightarrow> 'n \<times> uint64) \<Rightarrow> 'db \<Rightarrow> dump_Server list \<Rightarrow> 'n \<Rightarrow>
     ('n \<times> ids_map \<times> dump_Server list) result" where
  "set_server_IDs C D N current servers n =
     target_loop
       (\<lambda>server. target_ID N (Server_ID (dServer server))
         (ServerCollection_Get C D current (Server_Addr (dServer server))) (\<lambda>s. Server_ID (sServer s)))
       (\<lambda>server. Server_Addr (dServer server))
       (\<lambda>server id. server\<lparr>dServer := (dServer server)\<lparr>Server_ID := id\<rparr>\<rparr>)
       servers Map.empty n"

definition set_cluster_IDs ::
    "'w codecs \<Rightarrow> ('db, obj) memdb \<Rightarrow> ('n \<Rightarrow> 'n \<times> uint64) \<Rightarrow> 'db \<Rightarrow> dump_Cluster list \<Rightarrow> 'n \<Rightarrow>
     ('n \<times> ids_map \<times> dump_Cluster list) result" where
  "set_cluster_IDs C D N current clusters n =
     target_loop
       (\<lambda>cluster. target_ID N (Cluster_ID (dCluster cluster))
         (ClusterCollection_Get C D current (Cluster_Name (dCluster cluster))) (\<lambda>c. Cluster_ID (sCluster c)))
       (\<lambda>cluster. Cluster_Name (dCluster cluster))
       (\<lambda>cluster id. cluster\<lparr>dCluster := (dCluster cluster)\<lparr>Cluster_ID := id\<rparr>\<rparr>)
       clusters Map.empty n"

text \<open>A bind whose cluster or server is unknown keeps its nil message.\<close>

definition set_bind_IDs :: "ids_map \<Rightarrow> ids_map \<Rightarrow> dump_Bind \<Rightarrow> dump_Bind" where
  "set_bind_IDs clusterIDs serverIDs b =
     (case clusterIDs (dBind_ClusterName b) of
        None \<Rightarrow> b
      | Some clusterID \<Rightarrow>
          (case serverIDs (dBind_ServerAddr b) of
             None \<Rightarrow> b
           | Some serverID \<Rightarrow> b\<lparr>dBind := Some (zero_Bind\<lparr>Bind_ClusterID := clusterID, Bind_ServerID := serverID\<rparr>)\<rparr>))"

definition map_ID :: "ids_map \<Rightarrow> string \<Rightarrow> uint64" where
  "map_ID ids name = (case ids name of None \<Rightarrow> 0 | Some i \<Rightarrow> i)"

definition api_nodes :: "ids_map \<Rightarrow> Proxy list \<Rightarrow> metapb_DispatchNode list" where
  "api_nodes clusterIDs = map (\<lambda>proxy. (Proxy_DispatchNode proxy)\<lparr>DN_ClusterID := map_ID clusterIDs (Proxy_ClusterName proxy)\<rparr>)"

definition set_api_IDs ::
    "'w codecs \<Rightarrow> ('db, obj) memdb \<Rightarrow> ('n \<Rightarrow> 'n \<times> uint64) \<Rightarrow> 'db \<Rightarrow> ids_map \<Rightarrow> dump_API list \<Rightarrow> 'n \<Rightarrow>
     ('n \<times> ids_map \<times> dump_API list) result" where
  "set_api_IDs C D N current clusterIDs apis n =
     target_loop
       (\<lambda>api. target_ID N (API_ID (dAPI api))
         (APICollection_Get C D current (API_Name (dAPI api))) (\<lambda>a. API_ID (sAPI a)))
       (\<lambda>api. API_Name (dAPI api))
       (\<lambda>api id. api\<lparr>dAPI := (dAPI api)\<lparr>API_ID := id, API_Nodes := api_nodes clusterIDs (dAPI_Proxies api)\<rparr>\<rparr>)
       apis Map.empty n"

definition set_routing_refs :: "ids_map \<Rightarrow> ids_map \<Rightarrow> dump_Routing \<Rightarrow> metapb_Routing \<Rightarrow> metapb_Routing" where
  "set_routing_refs clusterIDs apiIDs routing r =
     (let r = (case clusterIDs (dRouting_ClusterName routing) of None \<Rightarrow> r | Some cid \<Rightarrow> r\<lparr>Routing_ClusterID := cid\<rparr>)
      in case apiIDs (dRouting_APIName routing) of None \<Rightarrow> r | Some aid \<Rightarrow> r\<lparr>Routing_API := aid\<rparr>)"

text \<open>Nothing reads the names of routings, so the map of this loop is dropped.\<close>

definition set_routing_IDs ::
    "'w codecs \<Rightarrow> ('db, obj) memdb \<Rightarrow> ('n \<Rightarrow> 'n \<times> uint64) \<Rightarrow> 'db \<Rightarrow> ids_map \<Rightarrow> ids_map \<Rightarrow> dump_Routing list \<Rightarrow> 'n \<Rightarrow>
     ('n \<times> ids_map \<times> dump_Routing list) result" where
  "set_routing_IDs C D N current clusterIDs apiIDs routings n =
     target_loop
       (\<lambda>routing. target_ID N (Routing_ID (dRouting routing))
         (RoutingCollection_Get C D current (Routing_Name (dRouting routing))) (\<lambda>r. Routing_ID (sRouting r)))
       (\<lambda>routing. Routing_Name (dRouting routing))
       (\<lambda>routing id. routing\<lparr>dRouting := set_routing_refs clusterIDs apiIDs routing ((dRouting routing)\<lparr>Routing_ID := id\<rparr>)\<rparr>)
       routings Map.empty n"

definition setTargetsIDs ::
    "'w codecs \<Rightarrow> ('db, obj) memdb \<Rightarrow> ('n \<Rightarrow> 'n \<times> uint64) \<Rightarrow> ManbaRawState \<Rightarrow> 'db \<Rightarrow> 'n \<Rightarrow> ('n \<times> ManbaRawState) result" where
  "setTargetsIDs C D N target current n =
     rbind (set_server_IDs C D N current (raw_Servers target) n) (\<lambda>(n, serverIDs, servers).
     rbind (set_cluster_IDs C D N current (raw_Clusters target) n) (\<lambda>(n, clusterIDs, clusters).
     let binds = map (set_bind_IDs clusterIDs serverIDs) (raw_Binds target) in
     rbind (set_api_IDs C D N current clusterIDs (raw_APIs target) n) (\<lambda>(n, apiIDs, apis).
     rbind (set_routing_IDs C D N current clusterIDs apiIDs (raw_Routings target) n) (\<lambda>(n, _, routings).
     Ok (n, \<lparr>raw_APIs = apis, raw_Servers = servers, raw_Clusters = clusters, raw_Binds = binds, raw_Routings = routings\<rparr>)))))"

section \<open>filterInvalidations\<close>

text \<open>The validators of the gateway's package \<open>pb\<close>, which is not part of the repository.\<close>

record validators =
  ValidateCluster :: "metapb_Cluster \<Rightarrow> go_error option"
  ValidateServer :: "metapb_Server \<Rightarrow> go_error option"
  ValidateAPI :: "metapb_API \<Rightarrow> go_error option"
  ValidateRouting :: "metapb_Routing \<Rightarrow> go_error option"

definition filterInvalidations :: "validators \<Rightarrow> ManbaRawState \<Rightarrow> ManbaRawState" where
  "filterInvalidations V raw =
     (let clusters = filter (\<lambda>c. ValidateCluster V (dCluster c) = None) (raw_Clusters raw);
          servers = filter (\<lambda>s. ValidateServer V (dServer s) = None) (raw_Servers raw);
          validClusters = (\<lambda>i. i \<in> set (map (\<lambda>c. Cluster_ID (dCluster c)) clusters));
          validServers = (\<lambda>i. i \<in> set (map (\<lambda>s. Server_ID (dServer s)) servers))
      in \<lparr>raw_APIs = filter (\<lambda>a. ValidateAPI V (dAPI a) = None) (raw_APIs raw),
          raw_Servers = servers,
          raw_Clusters = clusters,
          raw_Binds = filter (\<lambda>b. validServers (GetServerID (dBind b)) \<and> validClusters (GetClusterID (dBind b))) (raw_Binds raw),
          raw_Routings = filter (\<lambda>r. ValidateRouting V (dRouting r) = None) (raw_Routings raw)\<rparr>)"

section \<open>onUpdate and OnUpdate\<close>

text \<open>
  \<open>update_target\<close> is \<open>onUpdate\<close> up to the solver: the loaded states, or the error it returns. The
  configuration of the controller is what it reads of \<open>m.cfg\<close>.
\<close>

definition update_target ::
    "'w codecs \<Rightarrow> ('db, obj) memdb \<Rightarrow> ('n \<Rightarrow> 'n \<times> uint64) \<Rightarrow> validators \<Rightarrow> 'g client \<Rightarrow> parser_ManbaState \<Rightarrow> 'g \<Rightarrow> 'n \<Rightarrow>
     ('n \<times> 'db \<times> 'db) result" where
  "update_target C D N V client p g n =
     (let targetRaw = toStable p in
      rbind (wrap_err ''loading configuration from manba'' (dump_Get client g)) (\<lambda>raw.
      rbind (wrap_err ''get current state'' (state_Get C D raw)) (\<lambda>current.
      rbind (wrap_err ''set target IDs'' (setTargetsIDs C D N targetRaw current n)) (\<lambda>(n, targetRaw).
      rbind (wrap_err ''get target state'' (state_Get C D (filterInvalidations V targetRaw))) (\<lambda>target.
      Ok (n, current, target))))))"

inductive onUpdate ::
    "'w codecs \<Rightarrow> ('db, obj) memdb \<Rightarrow> ('j, 'l, 'd) json_lib \<Rightarrow> ('n \<Rightarrow> 'n \<times> uint64) \<Rightarrow> validators \<Rightarrow> 'g client \<Rightarrow> int \<Rightarrow>
     parser_ManbaState \<Rightarrow> 'g \<Rightarrow> 'n \<Rightarrow> 'g \<Rightarrow> unit result \<Rightarrow> bool" for C D J N V client concurrency p g n where
  stopped: "update_target C D N V client p g n = Err err \<Longrightarrow> onUpdate C D J N V client concurrency p g n g (Err err)"
| solved: "update_target C D N V client p g n = Ok (n', current, target) \<Longrightarrow>
    Solve C D J client False current target g concurrency current' g' stats res \<Longrightarrow>
    onUpdate C D J N V client concurrency p g n g' res"

text \<open>
  The hash of the configuration: \<open>json.Marshal\<close> may fail, \<open>sha256.Sum256\<close> is a function; their
  composition is the parameter \<open>sum\<close>. The controller keeps the hash of the configuration applied last.
\<close>

inductive OnUpdate ::
    "'w codecs \<Rightarrow> ('db, obj) memdb \<Rightarrow> ('j, 'l, 'd) json_lib \<Rightarrow> ('n \<Rightarrow> 'n \<times> uint64) \<Rightarrow> validators \<Rightarrow> 'g client \<Rightarrow> int \<Rightarrow>
     (ManbaRawState \<Rightarrow> 'h result) \<Rightarrow> parser_ManbaState \<Rightarrow> 'h \<Rightarrow> 'g \<Rightarrow> 'n \<Rightarrow> 'h \<Rightarrow> 'g \<Rightarrow> unit result \<Rightarrow> bool"
  for C D J N V client concurrency sum p runningConfigHash g n where
  marshal_failed: "sum (toStable p) = Err err \<Longrightarrow>
    OnUpdate C D J N V client concurrency sum p runningConfigHash g n runningConfigHash g
      (Err (Wrap ''marshaling Manba declarative configuration to JSON'' err))"
| skipped: "sum (toStable p) = Ok runningConfigHash \<Longrightarrow>
    OnUpdate C D J N V client concurrency sum p runningConfigHash g n runningConfigHash g (Ok ())"
| updated: "sum (toStable p) = Ok shaSum \<Longrightarrow> shaSum \<noteq> runningConfigHash \<Longrightarrow>
    onUpdate C D J N V client concurrency p g n g' (Ok ()) \<Longrightarrow>
    OnUpdate C D J N V client concurrency sum p runningConfigHash g n shaSum g' (Ok ())"
| failed: "sum (toStable p) = Ok shaSum \<Longrightarrow> shaSum \<noteq> runningConfigHash \<Longrightarrow>
    onUpdate C D J N V client concurrency p g n g' (Err err) \<Longrightarrow>
    OnUpdate C D J N V client concurrency sum p runningConfigHash g n runningConfigHash g' (Err err)"

end
