(* ===== verification/Controller_Laws.thy ===== *)
theory Controller_Laws
  imports Controller_Sync
begin

text \<open>
  What \<open>setTargetsIDs\<close> and \<open>filterInvalidations\<close> make of a target configuration. The loops assign IDs the
  way an abstract function does: a name the gateway knows keeps its ID, every other name gets the
  next number of the generator. When those numbers are new, the filtered target is aligned with the
  configuration of the gateway, which is what the correctness of the solver needs.
\<close>

section \<open>Names and printed IDs\<close>

text \<open>A name with a character that no printed ID has.\<close>

definition id_char :: "char \<Rightarrow> bool" where
  "id_char c \<longleftrightarrow> c = CHR ''-'' \<or> (48 \<le> (of_char c :: nat) \<and> (of_char c :: nat) \<le> 57)"

definition named :: "string \<Rightarrow> bool" where
  "named s = list_ex (\<lambda>c. \<not> id_char c) s"

lemma utoa_chars: "list_all id_char (utoa n)"
proof (induction n rule: utoa.induct)
  case (1 n)
  then show ?case
    by (simp add: utoa.simps [of n] id_char_def of_char_digit less_Suc_eq_le [symmetric])
qed

lemma named_not_id2Str: "named s \<Longrightarrow> s \<noteq> id2Str i"
proof -
  have "list_all id_char (id2Str i)"
    using utoa_chars by (simp add: id2Str_def itoa_def id_char_def [of "CHR ''-''"])
  then show "named s \<Longrightarrow> s \<noteq> id2Str i" by (auto simp: named_def list_ex_iff list_all_iff)
qed

lemma named_not_Nil: "named s \<Longrightarrow> s \<noteq> []"
  by (auto simp: named_def)

section \<open>The IDs drawn from the generator\<close>

fun draws :: "('n \<Rightarrow> 'n \<times> uint64) \<Rightarrow> 'n \<Rightarrow> nat \<Rightarrow> uint64 list" where
  "draws N n 0 = []"
| "draws N n (Suc k) = (let (n', i) = SnowID N n in i # draws N n' k)"

fun after :: "('n \<Rightarrow> 'n \<times> uint64) \<Rightarrow> 'n \<Rightarrow> nat \<Rightarrow> 'n" where
  "after N n 0 = n"
| "after N n (Suc k) = after N (fst (SnowID N n)) k"

lemma draws_add: "draws N n (j + k) = draws N n j @ draws N (after N n j) k"
  by (induction j arbitrary: n) (auto simp: Let_def split: prod.splits)

lemma after_add: "after N n (j + k) = after N (after N n j) k"
  by (induction j arbitrary: n) auto

text \<open>What a loop assigns: known names keep their ID, the others get the drawn IDs.\<close>

definition assigned :: "ids_map \<Rightarrow> string set \<Rightarrow> uint64 list \<Rightarrow> (string \<Rightarrow> uint64) \<Rightarrow> bool" where
  "assigned cur S ds f \<longleftrightarrow>
     (\<forall>s\<in>S. \<forall>i. cur s = Some i \<longrightarrow> f s = i) \<and> (\<forall>s\<in>S. cur s = None \<longrightarrow> f s \<in> set ds) \<and>
     (distinct ds \<longrightarrow> inj_on f {s \<in> S. cur s = None})"

lemma assigned_known:
  assumes "assigned cur S ds f" and "x \<notin> S" and "cur x = Some i"
  shows "assigned cur (insert x S) ds (f(x := i))"
proof -
  have "{s \<in> insert x S. cur s = None} = {s \<in> S. cur s = None}" using assms(3) by auto
  then show ?thesis using assms unfolding assigned_def by (auto simp: inj_on_def)
qed

lemma assigned_new:
  assumes "assigned cur S ds f" and "x \<notin> S" and "cur x = None"
  shows "assigned cur (insert x S) (i # ds) (f(x := i))"
proof -
  have "{s \<in> insert x S. cur s = None} = insert x {s \<in> S. cur s = None}" using assms(3) by auto
  then show ?thesis using assms unfolding assigned_def by (auto simp: inj_on_def)
qed

lemma target_loop_assigned:
  assumes "\<And>x n. x \<in> set xs \<Longrightarrow> own x n = Ok (case cur (name x) of None \<Rightarrow> SnowID N n | Some i \<Rightarrow> (n, i))"
    and "distinct (map name xs)"
  shows "\<exists>k f. k \<le> length xs \<and> assigned cur (name ` set xs) (draws N n k) f \<and>
    target_loop own name put xs ids n = Ok (after N n k,
      (\<lambda>s. if s \<in> name ` set xs then Some (f s) else ids s), map (\<lambda>x. put x (f (name x))) xs)"
  using assms
proof (induction xs arbitrary: ids n)
  case Nil
  have "assigned cur {} [] f" for f by (simp add: assigned_def)
  then show ?case by (auto intro: exI [of _ 0])
next
  case (Cons x xs)
  have fresh: "name x \<notin> name ` set xs" using Cons.prems(2) by auto
  have maps: "(\<lambda>s. if s \<in> name ` set xs then Some (f s) else (ids(name x \<mapsto> i)) s) =
      (\<lambda>s. if s \<in> name ` set (x # xs) then Some ((f(name x := i)) s) else ids s)" for f :: "string \<Rightarrow> uint64" and i
    using fresh by auto
  have IH: "\<exists>k f. k \<le> length xs \<and> assigned cur (name ` set xs) (draws N n k) f \<and>
    target_loop own name put xs ids n = Ok (after N n k,
      (\<lambda>s. if s \<in> name ` set xs then Some (f s) else ids s), map (\<lambda>x. put x (f (name x))) xs)" for ids n
    by (rule Cons.IH) (use Cons.prems in auto)
  show ?case
  proof (cases "cur (name x)")
    case (Some i)
    from IH [where ids = "ids(name x \<mapsto> i)" and n = n] obtain k f where kf: "k \<le> length xs"
        "assigned cur (name ` set xs) (draws N n k) f"
        "target_loop own name put xs (ids(name x \<mapsto> i)) n = Ok (after N n k,
          (\<lambda>s. if s \<in> name ` set xs then Some (f s) else (ids(name x \<mapsto> i)) s), map (\<lambda>x. put x (f (name x))) xs)"
      by blast
    from assigned_known [OF kf(2) fresh Some]
    have "assigned cur (name ` set (x # xs)) (draws N n k) (f(name x := i))" by simp
    moreover have "target_loop own name put (x # xs) ids n = Ok (after N n k,
        (\<lambda>s. if s \<in> name ` set (x # xs) then Some ((f(name x := i)) s) else ids s),
        map (\<lambda>y. put y ((f(name x := i)) (name y))) (x # xs))"
      using Cons.prems(1) [of x n] Some kf(3) by (simp add: maps) (metis fresh imageI)
    moreover have "k \<le> length (x # xs)" using kf(1) by simp
    ultimately show ?thesis by blast
  next
    case None
    obtain n1 i where n1: "SnowID N n = (n1, i)" by fastforce
    from IH [where ids = "ids(name x \<mapsto> i)" and n = n1] obtain k f where kf: "k \<le> length xs"
        "assigned cur (name ` set xs) (draws N n1 k) f"
        "target_loop own name put xs (ids(name x \<mapsto> i)) n1 = Ok (after N n1 k,
          (\<lambda>s. if s \<in> name ` set xs then Some (f s) else (ids(name x \<mapsto> i)) s), map (\<lambda>x. put x (f (name x))) xs)"
      by blast
    from assigned_new [OF kf(2) fresh None, of i] n1
    have "assigned cur (name ` set (x # xs)) (draws N n (Suc k)) (f(name x := i))" by simp
    moreover have "target_loop own name put (x # xs) ids n = Ok (after N n (Suc k),
        (\<lambda>s. if s \<in> name ` set (x # xs) then Some ((f(name x := i)) s) else ids s),
        map (\<lambda>y. put y ((f(name x := i)) (name y))) (x # xs))"
      using Cons.prems(1) [of x n] None kf(3) n1 by (simp add: maps) (metis fresh imageI)
    moreover have "Suc k \<le> length (x # xs)" using kf(1) by simp
    ultimately show ?thesis by blast
  qed
qed

section \<open>Looking up the current IDs\<close>

lemma map_of_named:
  assumes "distinct (filter (\<lambda>n. n \<noteq> []) (map nm xs))" and "a \<in> set xs" and "nm a \<noteq> []"
  shows "map_of (map (\<lambda>a. (nm a, h a)) xs) (nm a) = Some (h a)"
  using assms
proof (induction xs)
  case (Cons x xs)
  show ?case
  proof (cases "nm x = nm a")
    case True
    with Cons.prems have "a = x" by (auto simp: image_iff)
    then show ?thesis by simp
  next
    case False
    with Cons show ?thesis by (auto split: if_splits)
  qed
qed simp

context named_kind
begin

lemma set_ID: "c_ID c (c_set_idStr c s e) = c_ID c e"
  using key_msg [of e] key_msg [of "c_set_idStr c s e"] set_msg [of s e] by simp

lemma target_ID_named:
  assumes "good db" and "named s"
    and rows: "rows db (c_table c) = map_of (map (\<lambda>a. (key (g a), c_box c (keyed (g a)))) xs)"
    and "proper (map (\<lambda>a. (key (g a), obj_name (c_box c (g a)))) xs)"
    and fresh_ID: "\<And>e. c_ID c (c_fresh c e) = c_ID c e" and ID: "\<And>e. ID e = c_ID c e"
  shows "target_ID N 0 (Collection_Get c D db s) ID n =
    Ok (case map_of (map (\<lambda>a. (obj_name (c_box c (g a)), c_ID c (g a))) xs) s of None \<Rightarrow> SnowID N n | Some i \<Rightarrow> (n, i))"
proof -
  let ?m = "map_of (map (\<lambda>a. (obj_name (c_box c (g a)), c_ID c (g a))) xs)"
  have row: "\<exists>k. rows db (c_table c) k = Some (c_box c (keyed (g a)))" if "a \<in> set xs" for a
    using assms(4) that by (auto simp: rows proper_def o_def intro!: map_of_is_SomeI)
  have nd: "distinct (filter (\<lambda>n. n \<noteq> []) (map (\<lambda>a. obj_name (c_box c (g a))) xs))"
    using assms(4) by (simp add: proper_def o_def)
  have s: "s \<noteq> []" using assms(2) by (rule named_not_Nil)
  show ?thesis
  proof (rule Get_cases [OF assms(1), of s], goal_cases nil miss hit)
    case miss
    have "obj_name (c_box c (g a)) \<noteq> s" if "a \<in> set xs" for a
      using row [OF that] found_named [OF assms(1), of "c_table c"] miss(2) s set_name by (metis option.distinct(1))
    then have "?m s = None" by (fastforce simp: map_of_eq_None_iff)
    with miss(3) show ?thesis by (simp add: target_ID_def)
  next
    case (hit e)
    note hit_row = found_row [OF assms(1) hit(2)]
    then have "(obj_key (c_box c e), c_box c e) \<in> set (map (\<lambda>a. (key (g a), c_box c (keyed (g a)))) xs)"
      unfolding rows by (intro map_of_SomeD) simp
    then obtain a where a: "a \<in> set xs" "c_box c e = c_box c (keyed (g a))" by auto
    have "e = keyed (g a)" using a(2) unbox by (metis option.inject)
    moreover have "obj_name (c_box c (g a)) = s"
      using a(2) hit_row named_not_id2Str [OF assms(2)] set_name set_key by metis
    ultimately show ?thesis
      using map_of_named [OF nd a(1), of "\<lambda>a. c_ID c (g a)"] hit(3) s by (simp add: target_ID_def fresh_ID set_ID ID)
  qed (simp add: s)
qed

end

section \<open>IDs and names of a configuration\<close>

type_synonym pairs = "(uint64 \<times> string) list"

definition api_pairs :: "ManbaRawState \<Rightarrow> pairs" where
  "api_pairs raw = map (\<lambda>a. (API_ID (dAPI a), API_Name (dAPI a))) (raw_APIs raw)"
definition cluster_pairs :: "ManbaRawState \<Rightarrow> pairs" where
  "cluster_pairs raw = map (\<lambda>c. (Cluster_ID (dCluster c), Cluster_Name (dCluster c))) (raw_Clusters raw)"
definition routing_pairs :: "ManbaRawState \<Rightarrow> pairs" where
  "routing_pairs raw = map (\<lambda>r. (Routing_ID (dRouting r), Routing_Name (dRouting r))) (raw_Routings raw)"
definition server_pairs :: "ManbaRawState \<Rightarrow> pairs" where
  "server_pairs raw = map (\<lambda>s. (Server_ID (dServer s), Server_Addr (dServer s))) (raw_Servers raw)"

definition all_pairs :: "ManbaRawState \<Rightarrow> pairs list" where
  "all_pairs raw = [api_pairs raw, cluster_pairs raw, routing_pairs raw, server_pairs raw]"

lemmas pairs_defs = api_pairs_def cluster_pairs_def routing_pairs_def server_pairs_def

definition pairs_ok :: "(uint64 \<times> string) set \<Rightarrow> bool" where
  "pairs_ok P \<longleftrightarrow> (\<forall>(i, n)\<in>P. \<forall>(j, m)\<in>P. (i = j \<longrightarrow> n = m) \<and> (n = m \<and> n \<noteq> [] \<longrightarrow> i = j))"

lemma pairs_okD: "pairs_ok P \<Longrightarrow> (i, n) \<in> P \<Longrightarrow> (j, m) \<in> P \<Longrightarrow> (i = j \<longrightarrow> n = m) \<and> (n = m \<and> n \<noteq> [] \<longrightarrow> i = j)"
  unfolding pairs_ok_def by fast

lemma pairs_ok_mono: "pairs_ok P \<Longrightarrow> Q \<subseteq> P \<Longrightarrow> pairs_ok Q"
  unfolding pairs_ok_def by blast

definition pair_tags :: "string \<Rightarrow> pairs \<Rightarrow> tag set" where
  "pair_tags t ps = (\<lambda>(i, n). (t, id2Str i, n)) ` set ps"

lemma raw_tags_pairs: "raw_tags raw = pair_tags ''api'' (api_pairs raw) \<union> pair_tags ''cluster'' (cluster_pairs raw) \<union>
    pair_tags ''routing'' (routing_pairs raw) \<union> pair_tags ''server'' (server_pairs raw) \<union>
    (\<lambda>b. (''bind'', bind_key b, [])) ` set (List.map_filter dBind (raw_Binds raw))"
  unfolding raw_tags_def raw_msgs_def pair_tags_def pairs_defs by (simp add: image_Un image_image msg_tag_def Un_assoc)

lemma pair_tags_iff [simp]: "(t, k, n) \<in> pair_tags t' ps \<longleftrightarrow> t = t' \<and> (\<exists>i. k = id2Str i \<and> (i, n) \<in> set ps)"
  by (force simp: pair_tags_def)

lemma coherent_pairs_ok:
  assumes "coherent (raw_tags raw)" and "ps \<in> set (all_pairs raw)"
  shows "pairs_ok (set ps)"
proof -
  obtain t where t: "pair_tags t ps \<subseteq> raw_tags raw"
    using assms(2) unfolding raw_tags_pairs all_pairs_def by auto
  show ?thesis unfolding pairs_ok_def
  proof (intro ballI, clarify)
    fix i n j m assume "(i, n) \<in> set ps" "(j, m) \<in> set ps"
    then have "(t, id2Str i, n) \<in> raw_tags raw" "(t, id2Str j, m) \<in> raw_tags raw" using t by auto
    from coherentD [OF assms(1) this] show "(i = j \<longrightarrow> n = m) \<and> (n = m \<and> n \<noteq> [] \<longrightarrow> i = j)"
      unfolding id2Str_inj by blast
  qed
qed

definition pair_names :: "pairs \<Rightarrow> bool" where
  "pair_names ps = list_all (\<lambda>(i, n). i \<noteq> 0 \<and> (n = [] \<or> named n)) ps"

lemma pair_names_key: "pair_names ps \<Longrightarrow> pair_names qs \<Longrightarrow> (i, n) \<in> set ps \<Longrightarrow> (j, m) \<in> set qs \<Longrightarrow> n \<noteq> id2Str j"
  using named_not_id2Str [of n j] id2Str_Nil [of j, folded eq_commute [of "[]"]]
  by (cases "n = []") (auto simp: pair_names_def list_all_iff)

lemma coherent_tags:
  assumes "list_all2 (\<lambda>ps qs. pairs_ok (set ps \<union> set qs) \<and> pair_names ps \<and> pair_names qs) (all_pairs r1) (all_pairs r2)"
  shows "coherent (raw_tags r1 \<union> raw_tags r2)"
proof -
  have one: "(k = k' \<longrightarrow> n = n') \<and> (n = n' \<and> n \<noteq> [] \<longrightarrow> k = k') \<and> n \<noteq> k'"
    if h: "pairs_ok (set ps \<union> set qs)" "pair_names ps" "pair_names qs"
      "(t, k, n) \<in> pair_tags t ps \<union> pair_tags t qs" "(t, k', n') \<in> pair_tags t ps \<union> pair_tags t qs" for t k n k' n' ps qs
  proof -
    obtain i j where ij: "k = id2Str i" "(i, n) \<in> set ps \<union> set qs" "k' = id2Str j" "(j, n') \<in> set ps \<union> set qs"
      using h(4,5) by auto
    from pairs_okD [OF h(1) ij(2,4)] have "(k = k' \<longrightarrow> n = n') \<and> (n = n' \<and> n \<noteq> [] \<longrightarrow> k = k')"
      unfolding ij(1,3) id2Str_inj by blast
    moreover have "n \<noteq> k'" using ij(2,4) pair_names_key h(2,3) unfolding ij(3) by blast
    ultimately show ?thesis by blast
  qed
  show ?thesis
    unfolding coherent_def
  proof (intro ballI, clarify)
    fix t k n k' n'
    assume U: "(t, k, n) \<in> raw_tags r1 \<union> raw_tags r2" "(t, k', n') \<in> raw_tags r1 \<union> raw_tags r2"
    have "t \<in> {''api'', ''cluster'', ''routing'', ''server'', ''bind''}"
      using U(1) by (auto simp: raw_tags_pairs)
    then consider "t = ''api''" | "t = ''cluster''" | "t = ''routing''" | "t = ''server''" | "t = ''bind''" by blast
    then show "(k = k' \<longrightarrow> n = n') \<and> (n = n' \<and> n \<noteq> [] \<longrightarrow> k = k') \<and> n \<noteq> k'"
    proof cases
      case 1
      then show ?thesis using U assms by (intro one [of "api_pairs r1" "api_pairs r2" t]) (auto simp: raw_tags_pairs all_pairs_def)
    next
      case 2
      then show ?thesis using U assms by (intro one [of "cluster_pairs r1" "cluster_pairs r2" t]) (auto simp: raw_tags_pairs all_pairs_def)
    next
      case 3
      then show ?thesis using U assms by (intro one [of "routing_pairs r1" "routing_pairs r2" t]) (auto simp: raw_tags_pairs all_pairs_def)
    next
      case 4
      then show ?thesis using U assms by (intro one [of "server_pairs r1" "server_pairs r2" t]) (auto simp: raw_tags_pairs all_pairs_def)
    next
      case 5
      then show ?thesis using U by (auto simp: raw_tags_pairs bind_key_not_Nil [THEN not_sym])
    qed
  qed
qed

section \<open>Assigned IDs are aligned\<close>

abbreviation current_IDs :: "pairs \<Rightarrow> ids_map" where
  "current_IDs ps \<equiv> map_of (map prod.swap ps)"

lemma assigned_cases:
  assumes "assigned (current_IDs ps) S ds f" and "s \<in> S"
  obtains (known) "(f s, s) \<in> set ps" | (new) "f s \<in> set ds" "s \<notin> snd ` set ps" "current_IDs ps s = None"
proof (cases "current_IDs ps s")
  case None
  then have "s \<notin> snd ` set ps" by (force simp: map_of_eq_None_iff image_iff)
  with None assms new show ?thesis by (simp add: assigned_def)
next
  case (Some i)
  then have "(i, s) \<in> set ps" by (force dest: map_of_SomeD)
  with Some assms known show ?thesis by (simp add: assigned_def)
qed

lemma assigned_pairs_ok:
  assumes "pairs_ok (set ps)" and a: "assigned (current_IDs ps) S ds f" and "distinct ds"
    and "set ds \<inter> fst ` set ps = {}"
  shows "pairs_ok (set ps \<union> (\<lambda>s. (f s, s)) ` S)"
proof -
  have pq: "(i = f s \<longrightarrow> n = s) \<and> (n = s \<and> n \<noteq> [] \<longrightarrow> i = f s)" if "(i, n) \<in> set ps" "s \<in> S" for i n s
    using a \<open>s \<in> S\<close>
  proof (cases rule: assigned_cases)
    case known
    from pairs_okD [OF assms(1) that(1) this] show ?thesis by blast
  next
    case new
    then show ?thesis using that(1) assms(4) by force
  qed
  have qq: "f s = f s' \<longrightarrow> s = s'" if "s \<in> S" "s' \<in> S" for s s'
    using a \<open>s \<in> S\<close>
  proof (cases rule: assigned_cases)
    case known
    from pq [OF this that(2)] show ?thesis by blast
  next
    case s: new
    from a \<open>s' \<in> S\<close> show ?thesis
    proof (cases rule: assigned_cases)
      case known
      from pq [OF this that(1)] show ?thesis by metis
    next
      case new
      with s a assms(3) that show ?thesis by (auto simp: assigned_def inj_on_def)
    qed
  qed
  show ?thesis
    unfolding pairs_ok_def
  proof (intro ballI, clarify)
    fix i n j m assume P: "(i, n) \<in> set ps \<union> (\<lambda>s. (f s, s)) ` S" "(j, m) \<in> set ps \<union> (\<lambda>s. (f s, s)) ` S"
    then consider "(i, n) \<in> set ps" "(j, m) \<in> set ps" | "(i, n) \<in> set ps" "j = f m" "m \<in> S"
      | "i = f n" "n \<in> S" "(j, m) \<in> set ps" | "i = f n" "n \<in> S" "j = f m" "m \<in> S" by blast
    then show "(i = j \<longrightarrow> n = m) \<and> (n = m \<and> n \<noteq> [] \<longrightarrow> i = j)"
      by cases (use pairs_okD [OF assms(1)] pq qq in \<open>metis+\<close>)
  qed
qed

lemma kind_aligned:
  assumes "pairs_ok (set ps)" and ps: "list_all (\<lambda>(i, n). usable_ID i \<and> (n = [] \<or> named n)) ps"
    and a: "assigned (current_IDs ps) (nm ` set xs) ds f" and ds: "distinct ds" "\<forall>i\<in>set ds. usable_ID i \<and> i \<notin> fst ` set ps"
    and xs: "distinct (map nm xs)" "\<forall>x\<in>set xs. named (nm x)"
  shows "\<forall>x\<in>set xs. usable_ID (f (nm x))" and "inj_on f (nm ` set xs)"
    and "pairs_ok (set ps \<union> set (map (\<lambda>x. (f (nm x), nm x)) (filter P xs))) \<and> pair_names ps \<and>
      pair_names (map (\<lambda>x. (f (nm x), nm x)) (filter P xs))"
    and "proper (map (\<lambda>x. (id2Str (f (nm x)), nm x)) (filter P xs))"
proof -
  have disj: "set ds \<inter> fst ` set ps = {}" using ds(2) by blast
  note ok = assigned_pairs_ok [OF assms(1) a ds(1) disj]
  show u: "\<forall>x\<in>set xs. usable_ID (f (nm x))"
  proof
    fix x assume x: "x \<in> set xs"
    then have "nm x \<in> nm ` set xs" by simp
    with a show "usable_ID (f (nm x))"
      by (cases rule: assigned_cases) (use ps ds(2) in \<open>auto simp: list_all_iff\<close>)
  qed
  show inj: "inj_on f (nm ` set xs)"
  proof (rule inj_onI)
    fix s s' assume "s \<in> nm ` set xs" "s' \<in> nm ` set xs" "f s = f s'"
    then show "s = s'" using pairs_okD [OF ok, of "f s" s "f s'" s'] by blast
  qed
  show "pairs_ok (set ps \<union> set (map (\<lambda>x. (f (nm x), nm x)) (filter P xs))) \<and> pair_names ps \<and>
      pair_names (map (\<lambda>x. (f (nm x), nm x)) (filter P xs))"
  proof (intro conjI)
    show "pairs_ok (set ps \<union> set (map (\<lambda>x. (f (nm x), nm x)) (filter P xs)))"
      by (rule pairs_ok_mono [OF ok]) auto
    show "pair_names ps" "pair_names (map (\<lambda>x. (f (nm x), nm x)) (filter P xs))"
      using ps u xs(2) by (auto simp: pair_names_def list_all_iff usable_ID_def)
  qed
  have "distinct (map nm (filter P xs))" using xs(1) by (rule distinct_map_filter)
  moreover have "inj_on f (set (map nm (filter P xs)))" using inj by (rule inj_on_subset) auto
  ultimately have "distinct (map f (map nm (filter P xs)))" by (simp only: distinct_map)
  then have "distinct (map id2Str (map f (map nm (filter P xs))))"
    by (subst distinct_map) (simp add: inj_on_def)
  then have "distinct (map (\<lambda>x. id2Str (f (nm x))) (filter P xs))" by (simp add: o_def)
  note keys = this
  have no_clash: "nm y \<noteq> id2Str (f (nm x))" if "y \<in> set xs" for x y
    using xs(2) named_not_id2Str that by blast
  show "proper (map (\<lambda>x. (id2Str (f (nm x)), nm x)) (filter P xs))"
    unfolding proper_def
  proof (intro conjI)
    show "\<forall>k\<in>set (map fst (map (\<lambda>x. (id2Str (f (nm x)), nm x)) (filter P xs))). k \<noteq> []"
      using u by (simp add: usable_ID_def)
    show "distinct (map fst (map (\<lambda>x. (id2Str (f (nm x)), nm x)) (filter P xs)))" using keys by (simp add: o_def)
    show "distinct (filter (\<lambda>n. n \<noteq> []) (map snd (map (\<lambda>x. (id2Str (f (nm x)), nm x)) (filter P xs))))"
      using \<open>distinct (map nm (filter P xs))\<close> by (intro distinct_filter) (simp add: o_def)
    show "set (map fst (map (\<lambda>x. (id2Str (f (nm x)), nm x)) (filter P xs))) \<inter>
        set (map snd (map (\<lambda>x. (id2Str (f (nm x)), nm x)) (filter P xs))) = {}"
      using no_clash by (simp add: disjoint_iff image_iff) metis
  qed
qed

lemma draws_usable: "i \<in> set (draws N n k) \<Longrightarrow> i \<noteq> 0 \<Longrightarrow> usable_ID i"
proof (induction k arbitrary: n)
  case (Suc k)
  obtain n' j where j: "N n = (n', j)" by fastforce
  have "uint (j mod 20000000) < 20000000" by (simp add: uint_mod)
  then have "uint (j mod 20000000) < 2 ^ 63" by simp
  with Suc j show ?case by (auto simp: SnowID_def usable_ID_def)
qed simp

section \<open>What setTargetsIDs computes\<close>

text \<open>
  Names the gateway can tell from IDs, unique within their kind; entities without IDs; one bind per
  cluster and server: the shape of what \<open>toStable\<close> makes of a parsed configuration.
\<close>

definition target_ok :: "ManbaRawState \<Rightarrow> bool" where
  "target_ok t \<longleftrightarrow>
     list_all (\<lambda>ps. list_all (\<lambda>(i, n). i = 0 \<and> named n) ps \<and> distinct (map snd ps)) (all_pairs t) \<and>
     list_all (\<lambda>b. dBind b = None) (raw_Binds t) \<and>
     distinct (map (\<lambda>b. (dBind_ClusterName b, dBind_ServerAddr b)) (raw_Binds t))"

definition current_ok :: "ManbaRawState \<Rightarrow> bool" where
  "current_ok raw \<longleftrightarrow> aligned raw raw \<and> list_all (list_all (\<lambda>(i, n). n = [] \<or> named n)) (all_pairs raw)"

definition entities :: "ManbaRawState \<Rightarrow> nat" where
  "entities t = length (concat (all_pairs t))"

definition fresh_IDs :: "('n \<Rightarrow> 'n \<times> uint64) \<Rightarrow> 'n \<Rightarrow> ManbaRawState \<Rightarrow> ManbaRawState \<Rightarrow> bool" where
  "fresh_IDs N n t raw \<longleftrightarrow> distinct (draws N n (entities t)) \<and>
     list_all (\<lambda>i. i \<noteq> 0 \<and> i \<notin> fst ` set (concat (all_pairs raw))) (draws N n (entities t))"

definition with_IDs ::
    "ManbaRawState \<Rightarrow> (string \<Rightarrow> uint64) \<Rightarrow> (string \<Rightarrow> uint64) \<Rightarrow> (string \<Rightarrow> uint64) \<Rightarrow> (string \<Rightarrow> uint64) \<Rightarrow> ManbaRawState" where
  "with_IDs t fs fc fa fr =
     (let serverIDs = (\<lambda>s. if s \<in> snd ` set (server_pairs t) then Some (fs s) else None);
          clusterIDs = (\<lambda>s. if s \<in> snd ` set (cluster_pairs t) then Some (fc s) else None);
          apiIDs = (\<lambda>s. if s \<in> snd ` set (api_pairs t) then Some (fa s) else None)
      in \<lparr>raw_APIs = map (\<lambda>a. a\<lparr>dAPI := (dAPI a)\<lparr>API_ID := fa (API_Name (dAPI a)), API_Nodes := api_nodes clusterIDs (dAPI_Proxies a)\<rparr>\<rparr>) (raw_APIs t),
          raw_Servers = map (\<lambda>s. s\<lparr>dServer := (dServer s)\<lparr>Server_ID := fs (Server_Addr (dServer s))\<rparr>\<rparr>) (raw_Servers t),
          raw_Clusters = map (\<lambda>c. c\<lparr>dCluster := (dCluster c)\<lparr>Cluster_ID := fc (Cluster_Name (dCluster c))\<rparr>\<rparr>) (raw_Clusters t),
          raw_Binds = map (set_bind_IDs clusterIDs serverIDs) (raw_Binds t),
          raw_Routings = map (\<lambda>r. r\<lparr>dRouting := set_routing_refs clusterIDs apiIDs r ((dRouting r)\<lparr>Routing_ID := fr (Routing_Name (dRouting r))\<rparr>)\<rparr>) (raw_Routings t)\<rparr>)"

definition given_IDs ::
    "pairs \<Rightarrow> pairs \<Rightarrow> uint64 list \<Rightarrow> (string \<Rightarrow> uint64) \<Rightarrow> bool" where
  "given_IDs cur new ds f \<longleftrightarrow> length ds \<le> length new \<and> assigned (current_IDs cur) (snd ` set new) ds f"

lemma length_draws [simp]: "length (draws N n k) = k"
  by (induction k arbitrary: n) (auto simp: Let_def split: prod.splits)

context named_kind
begin

lemma target_loop_given:
  assumes "good db" and "rows db (c_table c) = map_of (map (\<lambda>a. (key (g a), c_box c (keyed (g a)))) xs)"
    and "proper (map (\<lambda>a. (key (g a), obj_name (c_box c (g a)))) xs)"
    and "\<And>e. c_ID c (c_fresh c e) = c_ID c e" and "\<And>e. ID e = c_ID c e"
    and ps: "ps = map (\<lambda>a. (c_ID c (g a), obj_name (c_box c (g a)))) xs" and qs: "qs = map (\<lambda>y. (oid y, nm y)) ys"
    and ok: "list_all (\<lambda>(i, n). i = 0 \<and> named n) qs" "distinct (map snd qs)"
  shows "\<exists>k f. given_IDs ps qs (draws N n k) f \<and>
    target_loop (\<lambda>y. target_ID N (oid y) (Collection_Get c D db (nm y)) ID) nm put ys Map.empty n =
      Ok (after N n k, (\<lambda>s. if s \<in> snd ` set qs then Some (f s) else None), map (\<lambda>y. put y (f (nm y))) ys)"
proof -
  have cur: "map_of (map (\<lambda>a. (obj_name (c_box c (g a)), c_ID c (g a))) xs) = current_IDs ps" by (simp add: ps o_def)
  have own: "target_ID N (oid y) (Collection_Get c D db (nm y)) ID n =
      Ok (case current_IDs ps (nm y) of None \<Rightarrow> SnowID N n | Some i \<Rightarrow> (n, i))" if "y \<in> set ys" for y n
  proof -
    have "oid y = 0" "named (nm y)" using that ok(1) by (auto simp: qs list_all_iff)
    with target_ID_named [OF assms(1) _ assms(2-5), of "nm y" N n] show ?thesis by (simp only: cur)
  qed
  have d: "distinct (map nm ys)" using ok(2) by (simp add: qs o_def)
  have sets: "snd ` set qs = nm ` set ys" "length qs = length ys" by (simp_all add: qs image_image)
  from target_loop_assigned [where own = "\<lambda>y. target_ID N (oid y) (Collection_Get c D db (nm y)) ID" and name = nm and
      cur = "current_IDs ps" and ids = Map.empty, OF own d, of n put] show ?thesis
    unfolding given_IDs_def length_draws sets by blast
qed

end

context manba_db
begin

lemma given_IDs:
  assumes db: "good db" "rows db = raw_rows raw" "raw_proper raw"
    and t: "list_all (\<lambda>ps. list_all (\<lambda>(i, n). i = 0 \<and> named n) ps \<and> distinct (map snd ps)) (all_pairs t)"
  shows set_server_IDs_given: "\<exists>k f. given_IDs (server_pairs raw) (server_pairs t) (draws N n k) f \<and>
      set_server_IDs C D N db (raw_Servers t) n = Ok (after N n k, (\<lambda>s. if s \<in> snd ` set (server_pairs t) then Some (f s) else None),
        map (\<lambda>s. s\<lparr>dServer := (dServer s)\<lparr>Server_ID := f (Server_Addr (dServer s))\<rparr>\<rparr>) (raw_Servers t))"
    and set_cluster_IDs_given: "\<exists>k f. given_IDs (cluster_pairs raw) (cluster_pairs t) (draws N n k) f \<and>
      set_cluster_IDs C D N db (raw_Clusters t) n = Ok (after N n k, (\<lambda>s. if s \<in> snd ` set (cluster_pairs t) then Some (f s) else None),
        map (\<lambda>c. c\<lparr>dCluster := (dCluster c)\<lparr>Cluster_ID := f (Cluster_Name (dCluster c))\<rparr>\<rparr>) (raw_Clusters t))"
    and set_api_IDs_given: "\<exists>k f. given_IDs (api_pairs raw) (api_pairs t) (draws N n k) f \<and>
      set_api_IDs C D N db clusterIDs (raw_APIs t) n = Ok (after N n k, (\<lambda>s. if s \<in> snd ` set (api_pairs t) then Some (f s) else None),
        map (\<lambda>a. a\<lparr>dAPI := (dAPI a)\<lparr>API_ID := f (API_Name (dAPI a)), API_Nodes := api_nodes clusterIDs (dAPI_Proxies a)\<rparr>\<rparr>) (raw_APIs t))"
    and set_routing_IDs_given: "\<exists>k f. given_IDs (routing_pairs raw) (routing_pairs t) (draws N n k) f \<and>
      set_routing_IDs C D N db clusterIDs apiIDs (raw_Routings t) n = Ok (after N n k, (\<lambda>s. if s \<in> snd ` set (routing_pairs t) then Some (f s) else None),
        map (\<lambda>r. r\<lparr>dRouting := set_routing_refs clusterIDs apiIDs r ((dRouting r)\<lparr>Routing_ID := f (Routing_Name (dRouting r))\<rparr>)\<rparr>) (raw_Routings t))"
proof (goal_cases)
  case 1
  show ?case unfolding set_server_IDs_def ServerCollection_Get_def
    by (rule server_kind.target_loop_given [OF db(1), of "\<lambda>s. new_Server (dServer s)" "raw_Servers raw"])
      (use db(3) t server_dk.fresh_msg in \<open>simp_all add: db(2) raw_rows_def server_row_def [abs_def] new_Server_def Let_def raw_proper_def
        server_pairs_def all_pairs_def\<close>)
next
  case 2
  show ?case unfolding set_cluster_IDs_def ClusterCollection_Get_def
    by (rule cluster_kind.target_loop_given [OF db(1), of "\<lambda>s. new_Cluster (dCluster s)" "raw_Clusters raw"])
      (use db(3) t cluster_dk.fresh_msg in \<open>simp_all add: db(2) raw_rows_def cluster_row_def [abs_def] new_Cluster_def Let_def raw_proper_def
        cluster_pairs_def all_pairs_def\<close>)
next
  case 3
  show ?case unfolding set_api_IDs_def APICollection_Get_def
    by (rule api_kind.target_loop_given [OF db(1), of "\<lambda>s. new_API (dAPI s)" "raw_APIs raw"])
      (use db(3) t api_dk.fresh_msg in \<open>simp_all add: db(2) raw_rows_def api_row_def [abs_def] new_API_def Let_def raw_proper_def
        api_pairs_def all_pairs_def\<close>)
next
  case 4
  show ?case unfolding set_routing_IDs_def RoutingCollection_Get_def
    by (rule routing_kind.target_loop_given [OF db(1), of "\<lambda>s. new_Routing (dRouting s)" "raw_Routings raw"])
      (use db(3) t routing_dk.fresh_msg in \<open>simp_all add: db(2) raw_rows_def routing_row_def [abs_def] new_Routing_def Let_def raw_proper_def
        routing_pairs_def all_pairs_def\<close>)
qed

lemma setTargetsIDs_given:
  assumes db: "good db" "rows db = raw_rows raw" "raw_proper raw" and t: "target_ok t"
  shows "\<exists>ks kc ka kr fs fc fa fr.
    given_IDs (server_pairs raw) (server_pairs t) (draws N n ks) fs \<and>
    given_IDs (cluster_pairs raw) (cluster_pairs t) (draws N (after N n ks) kc) fc \<and>
    given_IDs (api_pairs raw) (api_pairs t) (draws N (after N n (ks + kc)) ka) fa \<and>
    given_IDs (routing_pairs raw) (routing_pairs t) (draws N (after N n (ks + kc + ka)) kr) fr \<and>
    setTargetsIDs C D N t db n = Ok (after N n (ks + kc + ka + kr), with_IDs t fs fc fa fr)"
proof -
  have t': "list_all (\<lambda>ps. list_all (\<lambda>(i, n). i = 0 \<and> named n) ps \<and> distinct (map snd ps)) (all_pairs t)"
    using t by (simp add: target_ok_def)
  note given = given_IDs [OF db t']
  let ?m = "\<lambda>ps f s. if s \<in> snd ` set ps then Some (f s) else None"
  obtain ks fs where s: "given_IDs (server_pairs raw) (server_pairs t) (draws N n ks) fs"
      "set_server_IDs C D N db (raw_Servers t) n = Ok (after N n ks, ?m (server_pairs t) fs,
        map (\<lambda>s. s\<lparr>dServer := (dServer s)\<lparr>Server_ID := fs (Server_Addr (dServer s))\<rparr>\<rparr>) (raw_Servers t))"
    using given(1) [of N n] by (elim exE conjE) (rule that)
  obtain kc fc where c: "given_IDs (cluster_pairs raw) (cluster_pairs t) (draws N (after N n ks) kc) fc"
      "set_cluster_IDs C D N db (raw_Clusters t) (after N n ks) = Ok (after N (after N n ks) kc, ?m (cluster_pairs t) fc,
        map (\<lambda>c. c\<lparr>dCluster := (dCluster c)\<lparr>Cluster_ID := fc (Cluster_Name (dCluster c))\<rparr>\<rparr>) (raw_Clusters t))"
    using given(2) [of N "after N n ks"] by (elim exE conjE) (rule that)
  let ?c = "?m (cluster_pairs t) fc" and ?n = "after N n (ks + kc)"
  obtain ka fa where a: "given_IDs (api_pairs raw) (api_pairs t) (draws N ?n ka) fa"
      "set_api_IDs C D N db ?c (raw_APIs t) ?n = Ok (after N ?n ka, ?m (api_pairs t) fa,
        map (\<lambda>a. a\<lparr>dAPI := (dAPI a)\<lparr>API_ID := fa (API_Name (dAPI a)), API_Nodes := api_nodes ?c (dAPI_Proxies a)\<rparr>\<rparr>) (raw_APIs t))"
    using given(3) [of N ?n ?c] by (elim exE conjE) (rule that)
  let ?n' = "after N n (ks + kc + ka)"
  obtain kr fr where r: "given_IDs (routing_pairs raw) (routing_pairs t) (draws N ?n' kr) fr"
      "set_routing_IDs C D N db ?c (?m (api_pairs t) fa) (raw_Routings t) ?n' = Ok (after N ?n' kr, ?m (routing_pairs t) fr,
        map (\<lambda>r. r\<lparr>dRouting := set_routing_refs ?c (?m (api_pairs t) fa) r ((dRouting r)\<lparr>Routing_ID := fr (Routing_Name (dRouting r))\<rparr>)\<rparr>) (raw_Routings t))"
    using given(4) [of N ?n' ?c "?m (api_pairs t) fa"] by (elim exE conjE) (rule that)
  have "setTargetsIDs C D N t db n = Ok (after N n (ks + kc + ka + kr), with_IDs t fs fc fa fr)"
    unfolding setTargetsIDs_def s(2) rbind.simps prod.case c(2) after_add [symmetric] a(2) r(2) Let_def
    by (simp add: with_IDs_def Let_def)
  with s(1) c(1) a(1) r(1) show ?thesis by blast
qed

end

lemma fresh_slices:
  assumes "fresh_IDs N n t raw" and "ks + kc + ka + kr \<le> entities t" and "ps \<in> set (all_pairs raw)"
    and "ds \<in> {draws N n ks, draws N (after N n ks) kc, draws N (after N n (ks + kc)) ka, draws N (after N n (ks + kc + ka)) kr}"
  shows "distinct ds \<and> (\<forall>i\<in>set ds. usable_ID i \<and> i \<notin> fst ` set ps)"
proof -
  obtain k where k: "entities t = ks + kc + ka + kr + k" using assms(2) le_Suc_ex by blast
  let ?all = "draws N n (entities t)"
  have "?all = draws N n ks @ draws N (after N n ks) kc @ draws N (after N n (ks + kc)) ka @
      draws N (after N n (ks + kc + ka)) kr @ draws N (after N n (ks + kc + ka + kr)) k"
    by (simp add: k draws_add after_add)
  then have "distinct ds \<and> set ds \<subseteq> set ?all"
    using assms(1,4) unfolding fresh_IDs_def by auto
  moreover have "usable_ID i \<and> i \<notin> fst ` set ps" if "i \<in> set ?all" for i
    using assms(1,3) that draws_usable [OF that] by (auto simp: fresh_IDs_def list_all_iff)
  ultimately show ?thesis by blast
qed

section \<open>The filtered target is aligned with the gateway\<close>

lemma set_routing_refs_sel [simp]:
  "Routing_ID (set_routing_refs cs as x r) = Routing_ID r" "Routing_Name (set_routing_refs cs as x r) = Routing_Name r"
  by (auto simp: set_routing_refs_def Let_def split: option.splits)

lemma filter_pairs:
  "server_pairs (filterInvalidations V (with_IDs t fs fc fa fr)) = map (\<lambda>x. (fs (Server_Addr (dServer x)), Server_Addr (dServer x)))
    (filter (\<lambda>x. ValidateServer V ((dServer x)\<lparr>Server_ID := fs (Server_Addr (dServer x))\<rparr>) = None) (raw_Servers t))"
  "cluster_pairs (filterInvalidations V (with_IDs t fs fc fa fr)) = map (\<lambda>x. (fc (Cluster_Name (dCluster x)), Cluster_Name (dCluster x)))
    (filter (\<lambda>x. ValidateCluster V ((dCluster x)\<lparr>Cluster_ID := fc (Cluster_Name (dCluster x))\<rparr>) = None) (raw_Clusters t))"
  "\<exists>P. api_pairs (filterInvalidations V (with_IDs t fs fc fa fr)) =
    map (\<lambda>x. (fa (API_Name (dAPI x)), API_Name (dAPI x))) (filter P (raw_APIs t))"
  "\<exists>P. routing_pairs (filterInvalidations V (with_IDs t fs fc fa fr)) =
    map (\<lambda>x. (fr (Routing_Name (dRouting x)), Routing_Name (dRouting x))) (filter P (raw_Routings t))"
  unfolding pairs_defs filterInvalidations_def with_IDs_def Let_def
  by (simp_all add: filter_map o_def) blast+

lemma with_IDs_binds:
  assumes "target_ok t" and "b \<in> set (raw_Binds (with_IDs t fs fc fa fr))" and "GetServerID (dBind b) \<noteq> 0"
  shows "dBind_ClusterName b \<in> snd ` set (cluster_pairs t) \<and> dBind_ServerAddr b \<in> snd ` set (server_pairs t) \<and>
    dBind b = Some (bind_of (fc (dBind_ClusterName b)) (fs (dBind_ServerAddr b)))"
  using assms by (auto simp: with_IDs_def set_bind_IDs_def target_ok_def list_all_iff GetServerID_def Let_def split: if_splits)

lemma map_filter_some: "\<forall>x\<in>set xs. f x = Some (g x) \<Longrightarrow> List.map_filter f xs = map g xs"
  by (induction xs) (auto simp: map_filter_simps)

lemma distinct_map_via:
  assumes "distinct (map g xs)" and "\<And>x y. x \<in> set xs \<Longrightarrow> y \<in> set xs \<Longrightarrow> h x = h y \<Longrightarrow> g x = g y"
  shows "distinct (map h xs)"
  using assms by (induction xs) (auto simp: image_iff)

lemma filtered_binds:
  fixes t V fs fc fa fr
  defines "r \<equiv> filterInvalidations V (with_IDs t fs fc fa fr)"
  assumes "target_ok t" and u: "\<forall>s\<in>snd ` set (server_pairs t). fs s \<noteq> 0" "\<forall>s\<in>snd ` set (cluster_pairs t). fc s \<noteq> 0"
    and inj: "inj_on fs (snd ` set (server_pairs t))" "inj_on fc (snd ` set (cluster_pairs t))"
  shows "\<forall>b\<in>set (raw_Binds r). GetClusterID (dBind b) \<noteq> 0 \<and> GetServerID (dBind b) \<noteq> 0"
    and "distinct (map bind_key (List.map_filter dBind (raw_Binds r)))"
    and "plain_binds r"
proof -
  let ?bs = "raw_Binds r"
  have names: "map (\<lambda>b. (dBind_ClusterName b, dBind_ServerAddr b)) (raw_Binds (with_IDs t fs fc fa fr)) =
      map (\<lambda>b. (dBind_ClusterName b, dBind_ServerAddr b)) (raw_Binds t)"
    by (simp add: with_IDs_def Let_def set_bind_IDs_def split: option.splits)
  have "distinct (map (\<lambda>b. (dBind_ClusterName b, dBind_ServerAddr b)) (raw_Binds (with_IDs t fs fc fa fr)))"
    unfolding names using assms(2) by (simp add: target_ok_def)
  then have d: "distinct (map (\<lambda>b. (dBind_ClusterName b, dBind_ServerAddr b)) ?bs)"
    unfolding r_def filterInvalidations_def Let_def by (simp add: distinct_map_filter)
  have kept: "dBind_ClusterName b \<in> snd ` set (cluster_pairs t) \<and> dBind_ServerAddr b \<in> snd ` set (server_pairs t) \<and>
      dBind b = Some (bind_of (fc (dBind_ClusterName b)) (fs (dBind_ServerAddr b)))" if "b \<in> set ?bs" for b
  proof (rule with_IDs_binds [OF assms(2)])
    show "b \<in> set (raw_Binds (with_IDs t fs fc fa fr))" using that by (auto simp: r_def filterInvalidations_def Let_def)
    have "GetServerID (dBind b) \<in> fst ` set (server_pairs r)"
      using that by (auto simp: r_def filterInvalidations_def Let_def server_pairs_def image_image)
    then obtain x where "x \<in> set (raw_Servers t)" "GetServerID (dBind b) = fs (Server_Addr (dServer x))"
      unfolding r_def filter_pairs by auto
    moreover from this(1) have "Server_Addr (dServer x) \<in> snd ` set (server_pairs t)" by (force simp: server_pairs_def)
    ultimately show "GetServerID (dBind b) \<noteq> 0" using u(1) by auto
  qed
  show "\<forall>b\<in>set ?bs. GetClusterID (dBind b) \<noteq> 0 \<and> GetServerID (dBind b) \<noteq> 0"
  proof
    fix b assume "b \<in> set ?bs"
    from kept [OF this] u show "GetClusterID (dBind b) \<noteq> 0 \<and> GetServerID (dBind b) \<noteq> 0"
      by (simp only: GetClusterID_def GetServerID_def option.case) auto
  qed
  have "List.map_filter dBind ?bs = map (\<lambda>b. bind_of (fc (dBind_ClusterName b)) (fs (dBind_ServerAddr b))) ?bs"
    using kept by (intro map_filter_some) blast
  moreover have "distinct (map (\<lambda>b. bind_key (bind_of (fc (dBind_ClusterName b)) (fs (dBind_ServerAddr b)))) ?bs)"
    using kept inj by (intro distinct_map_via [OF d]) (auto simp: bind_key_inj dest: inj_onD)
  ultimately show "distinct (map bind_key (List.map_filter dBind ?bs))" by (simp add: o_def)
  show "plain_binds r" using kept by (simp add: plain_binds_def list_all_iff zero_Bind_def)
qed

lemma current_okD:
  assumes "current_ok raw" and "ps \<in> set (all_pairs raw)"
  shows "pairs_ok (set ps)" and "list_all (\<lambda>(i, n). usable_ID i \<and> (n = [] \<or> named n)) ps"
proof -
  have al: "aligned raw raw" using assms(1) by (simp add: current_ok_def)
  from coherent_pairs_ok [OF _ assms(2)] alignedD(3) [OF al] show "pairs_ok (set ps)" by simp
  have valid: "(\<forall>a\<in>set (raw_APIs raw). usable_ID (API_ID (dAPI a))) \<and> (\<forall>a\<in>set (raw_Clusters raw). usable_ID (Cluster_ID (dCluster a))) \<and>
      (\<forall>a\<in>set (raw_Routings raw). usable_ID (Routing_ID (dRouting a))) \<and> (\<forall>a\<in>set (raw_Servers raw). usable_ID (Server_ID (dServer a)))"
    using al by (simp add: aligned_def raw_msgs_def list.pred_set ball_Un)
  have "\<forall>p\<in>set ps. usable_ID (fst p)"
    using valid assms(2) by (auto simp: all_pairs_def pairs_defs)
  moreover have "list_all (\<lambda>(i, n). n = [] \<or> named n) ps" using assms by (auto simp: current_ok_def list_all_iff)
  ultimately show "list_all (\<lambda>(i, n). usable_ID i \<and> (n = [] \<or> named n)) ps" by (auto simp: list_all_iff)
qed

lemma valid_msgs:
  assumes "list_all (list_all (\<lambda>(i, n). usable_ID i)) (all_pairs raw)"
    and "\<forall>b\<in>set (raw_Binds raw). GetClusterID (dBind b) \<noteq> 0 \<and> GetServerID (dBind b) \<noteq> 0"
  shows "list_all msg_valid (raw_msgs raw)"
  using assms
  by (auto simp: raw_msgs_def all_pairs_def pairs_defs list.pred_map list.pred_set o_def map_filter_def GetClusterID_def GetServerID_def)

lemma proper_pairs:
  "map (\<lambda>a. (id2Str (API_ID (dAPI a)), API_Name (dAPI a))) (raw_APIs raw) = map (\<lambda>(i, n). (id2Str i, n)) (api_pairs raw)"
  "map (\<lambda>c. (id2Str (Cluster_ID (dCluster c)), Cluster_Name (dCluster c))) (raw_Clusters raw) = map (\<lambda>(i, n). (id2Str i, n)) (cluster_pairs raw)"
  "map (\<lambda>r. (id2Str (Routing_ID (dRouting r)), Routing_Name (dRouting r))) (raw_Routings raw) = map (\<lambda>(i, n). (id2Str i, n)) (routing_pairs raw)"
  "map (\<lambda>s. (id2Str (Server_ID (dServer s)), Server_Addr (dServer s))) (raw_Servers raw) = map (\<lambda>(i, n). (id2Str i, n)) (server_pairs raw)"
  by (simp_all add: pairs_defs)

lemma with_IDs_aligned:
  fixes t V fs fc fa fr
  defines "r \<equiv> filterInvalidations V (with_IDs t fs fc fa fr)"
  assumes raw: "current_ok raw" and t: "target_ok t"
    and g: "given_IDs (server_pairs raw) (server_pairs t) ds fs" "given_IDs (cluster_pairs raw) (cluster_pairs t) dc fc"
      "given_IDs (api_pairs raw) (api_pairs t) da fa" "given_IDs (routing_pairs raw) (routing_pairs t) dr fr"
    and fresh: "\<And>d ps. d \<in> {ds, dc, da, dr} \<Longrightarrow> ps \<in> set (all_pairs raw) \<Longrightarrow>
      distinct d \<and> (\<forall>i\<in>set d. usable_ID i \<and> i \<notin> fst ` set ps)"
  shows "aligned raw r" and "plain_binds r"
proof -
  have kind: "(\<forall>x\<in>set xs. usable_ID (f (nm x))) \<and> inj_on f (nm ` set xs) \<and>
      pairs_ok (set ps \<union> set (map (\<lambda>x. (f (nm x), nm x)) (filter P xs))) \<and> pair_names ps \<and>
      pair_names (map (\<lambda>x. (f (nm x), nm x)) (filter P xs)) \<and> proper (map (\<lambda>x. (id2Str (f (nm x)), nm x)) (filter P xs))"
    if "ps \<in> set (all_pairs raw)" "qs \<in> set (all_pairs t)" "qs = map (\<lambda>x. (oid x, nm x)) xs"
      "d \<in> {ds, dc, da, dr}" "given_IDs ps qs d f" for ps qs oid xs and nm :: "'x \<Rightarrow> string" and d f P
  proof -
    have "list_all (\<lambda>(i, n). i = 0 \<and> named n) qs" "distinct (map snd qs)" using t that(2) by (auto simp: target_ok_def list_all_iff)
    then have xs: "distinct (map nm xs)" "\<forall>x\<in>set xs. named (nm x)" by (simp_all add: that(3) o_def list_all_iff)
    have a: "assigned (current_IDs ps) (nm ` set xs) d f" using that(5) by (simp add: given_IDs_def that(3) image_image)
    note f = fresh [OF that(4,1)]
    from kind_aligned [OF current_okD [OF raw that(1)] a conjunct1 [OF f] conjunct2 [OF f] xs] show ?thesis by blast
  qed
  have mem: "server_pairs raw \<in> set (all_pairs raw)" "cluster_pairs raw \<in> set (all_pairs raw)" "api_pairs raw \<in> set (all_pairs raw)"
    "routing_pairs raw \<in> set (all_pairs raw)" for raw by (simp_all add: all_pairs_def)
  note ks = kind [OF mem(1) mem(1) server_pairs_def _ g(1)] and kc = kind [OF mem(2) mem(2) cluster_pairs_def _ g(2)]
    and ka = kind [OF mem(3) mem(3) api_pairs_def _ g(3)] and kr = kind [OF mem(4) mem(4) routing_pairs_def _ g(4)]
  obtain P where P: "api_pairs r = map (\<lambda>x. (fa (API_Name (dAPI x)), API_Name (dAPI x))) (filter P (raw_APIs t))"
    using filter_pairs(3) [of V t fs fc fa fr] unfolding r_def by blast
  obtain Q where Q: "routing_pairs r = map (\<lambda>x. (fr (Routing_Name (dRouting x)), Routing_Name (dRouting x))) (filter Q (raw_Routings t))"
    using filter_pairs(4) [of V t fs fc fa fr] unfolding r_def by blast
  note sp = filter_pairs(1) [of V t fs fc fa fr, folded r_def] and cp = filter_pairs(2) [of V t fs fc fa fr, folded r_def]
  have b: "\<forall>b\<in>set (raw_Binds r). GetClusterID (dBind b) \<noteq> 0 \<and> GetServerID (dBind b) \<noteq> 0"
    "distinct (map bind_key (List.map_filter dBind (raw_Binds r)))" "plain_binds r"
    unfolding r_def by (rule filtered_binds [OF t]; use ks kc in \<open>auto simp: server_pairs_def cluster_pairs_def image_image usable_ID_def\<close>)+
  show "plain_binds r" by (fact b(3))
  have "coherent (raw_tags raw \<union> raw_tags r)"
    by (rule coherent_tags) (use ks kc ka kr in \<open>simp add: all_pairs_def sp cp P Q\<close>)
  moreover have "list_all msg_valid (raw_msgs r)"
    by (rule valid_msgs) (use ks kc ka kr b(1) in \<open>auto simp: all_pairs_def sp cp P Q list_all_iff\<close>)
  moreover have "raw_proper r"
    unfolding raw_proper_def proper_pairs
    by (intro conjI b(1,2)) (use ks kc ka kr in \<open>simp_all add: sp cp P Q o_def\<close>)
  ultimately show "aligned raw r" using raw by (simp add: current_ok_def aligned_def)
qed

definition keeps_IDs :: "pairs \<Rightarrow> pairs \<Rightarrow> (string \<Rightarrow> uint64) \<Rightarrow> bool" where
  "keeps_IDs ps qs f \<longleftrightarrow> (\<forall>(i, s)\<in>set ps. s \<noteq> [] \<longrightarrow> s \<in> snd ` set qs \<longrightarrow> f s = i)"

lemma given_keeps_IDs:
  assumes "pairs_ok (set ps)" and "given_IDs ps qs ds f"
  shows "keeps_IDs ps qs f"
  unfolding keeps_IDs_def
proof (rule ballI, rule prod.case_eq_if [THEN iffD2], intro impI)
  fix p assume p: "p \<in> set ps" "snd p \<noteq> []" "snd p \<in> snd ` set qs"
  have "snd p \<in> fst ` set (map prod.swap ps)" using p(1) by force
  then obtain i where i: "current_IDs ps (snd p) = Some i" by (metis not_None_eq map_of_eq_None_iff)
  then have "(i, snd p) \<in> set ps" by (force dest: map_of_SomeD)
  with pairs_okD [OF assms(1), of "fst p" "snd p"] p(1,2) have "fst p = i" by (metis prod.collapse)
  moreover have "f (snd p) = i" using assms(2) i p(3) unfolding given_IDs_def assigned_def by blast
  ultimately show "f (snd p) = fst p" by simp
qed

lemma setTargetsIDs_ok:
  assumes db: "manba_db D rows ok C" and raw: "current_ok raw" "state_Get C D raw = Ok current" and t: "target_ok t"
    and fresh: "fresh_IDs N n t raw"
  obtains n' fs fc fa fr where "setTargetsIDs C D N t current n = Ok (n', with_IDs t fs fc fa fr)"
    and "\<And>V. aligned raw (filterInvalidations V (with_IDs t fs fc fa fr))"
    and "\<And>V. plain_binds (filterInvalidations V (with_IDs t fs fc fa fr))"
    and "keeps_IDs (api_pairs raw) (api_pairs t) fa" "keeps_IDs (cluster_pairs raw) (cluster_pairs t) fc"
      "keeps_IDs (routing_pairs raw) (routing_pairs t) fr" "keeps_IDs (server_pairs raw) (server_pairs t) fs"
proof -
  have al: "aligned raw raw" using raw(1) by (simp add: current_ok_def)
  note st = state_Get_filed [OF db al raw(2) raw(2)]
  from manba_db.setTargetsIDs_given [OF db st(1,2) alignedD(1) [OF al] t, of N n]
  obtain ks kc ka kr fs fc fa fr where g: "given_IDs (server_pairs raw) (server_pairs t) (draws N n ks) fs"
      "given_IDs (cluster_pairs raw) (cluster_pairs t) (draws N (after N n ks) kc) fc"
      "given_IDs (api_pairs raw) (api_pairs t) (draws N (after N n (ks + kc)) ka) fa"
      "given_IDs (routing_pairs raw) (routing_pairs t) (draws N (after N n (ks + kc + ka)) kr) fr"
    and eq: "setTargetsIDs C D N t current n = Ok (after N n (ks + kc + ka + kr), with_IDs t fs fc fa fr)"
    by blast
  have "ks + kc + ka + kr \<le> entities t" using g by (simp add: given_IDs_def entities_def all_pairs_def)
  note slices = fresh_slices [OF fresh this]
  have known: "keeps_IDs ps qs f" if "ps \<in> set (all_pairs raw)" "given_IDs ps qs ds f" for ps qs ds f
    using given_keeps_IDs [OF current_okD(1) [OF raw(1)]] that by blast
  show thesis
  proof (rule that [OF eq])
    show "aligned raw (filterInvalidations V (with_IDs t fs fc fa fr))" "plain_binds (filterInvalidations V (with_IDs t fs fc fa fr))" for V
      using with_IDs_aligned [OF raw(1) t g slices] by blast+
    show "keeps_IDs (api_pairs raw) (api_pairs t) fa" "keeps_IDs (cluster_pairs raw) (cluster_pairs t) fc"
        "keeps_IDs (routing_pairs raw) (routing_pairs t) fr" "keeps_IDs (server_pairs raw) (server_pairs t) fs"
      by (rule known [OF _ g(3)] known [OF _ g(2)] known [OF _ g(4)] known [OF _ g(1)], simp add: all_pairs_def)+
  qed
qed

section \<open>onUpdate\<close>

lemma update_target_ok:
  assumes db: "manba_db D rows ok C" and raw: "dump_Get client g = Ok raw" "current_ok raw" and t: "target_ok (toStable p)"
    and fresh: "fresh_IDs N n (toStable p) raw"
  obtains n' targetRaw current target where "state_Get C D raw = Ok current"
    and "setTargetsIDs C D N (toStable p) current n = Ok (n', targetRaw)"
    and "aligned raw (filterInvalidations V targetRaw)" and "plain_binds (filterInvalidations V targetRaw)"
    and "state_Get C D (filterInvalidations V targetRaw) = Ok target"
    and "update_target C D N V client p g n = Ok (n', current, target)"
proof -
  have al: "aligned raw raw" using raw(2) by (simp add: current_ok_def)
  obtain current where c: "state_Get C D raw = Ok current"
    using manba_db.state_Get_rows [OF db alignedD(1) [OF al]] by blast
  obtain n' r where r: "setTargetsIDs C D N (toStable p) current n = Ok (n', r)"
      "aligned raw (filterInvalidations V r)" "plain_binds (filterInvalidations V r)"
    using setTargetsIDs_ok [OF db raw(2) c t fresh] by metis
  obtain target where tg: "state_Get C D (filterInvalidations V r) = Ok target"
    using manba_db.state_Get_rows [OF db alignedD(2) [OF r(2)]] by blast
  have "update_target C D N V client p g n = Ok (n', current, target)"
    by (simp add: update_target_def raw(1) c r(1) tg Let_def)
  with c r tg that show thesis by blast
qed

end
