(* ===== verification/Controller.thy ===== *)
theory Controller
  imports Controller_Laws
begin

text \<open>
  The properties of the controller's synchronisation: the stable order of the configuration, the IDs,
  the filter, and the convergence of the gateway to the parsed configuration.
\<close>

section \<open>Reordering a parsed configuration\<close>

definition same_API :: "parser_API \<Rightarrow> parser_API \<Rightarrow> bool" where
  "same_API a b \<longleftrightarrow> pAPI a = pAPI b \<and> mset (map snd (pAPI_Proxies a)) = mset (map snd (pAPI_Proxies b))"

definition reordered :: "parser_ManbaState \<Rightarrow> parser_ManbaState \<Rightarrow> bool" where
  "reordered p q \<longleftrightarrow> (\<exists>as. mset as = mset (ps_APIs q) \<and> list_all2 same_API (ps_APIs p) as) \<and>
     mset (ps_Servers p) = mset (ps_Servers q) \<and> mset (ps_Clusters p) = mset (ps_Clusters q) \<and>
     mset (ps_Routings p) = mset (ps_Routings q)"

definition unique_names :: "parser_ManbaState \<Rightarrow> bool" where
  "unique_names p \<longleftrightarrow> distinct (map (\<lambda>a. API_Name (pAPI a)) (ps_APIs p)) \<and>
     list_all (\<lambda>a. distinct (map (\<lambda>x. Proxy_ClusterName (snd x)) (pAPI_Proxies a))) (ps_APIs p) \<and>
     distinct (map (\<lambda>s. Server_Addr (pServer s)) (ps_Servers p)) \<and>
     distinct (map (\<lambda>c. Cluster_Name (pCluster c)) (ps_Clusters p)) \<and>
     distinct (map (\<lambda>r. Routing_Name (pRouting r)) (ps_Routings p))"

lemma SliceStable_perm:
  fixes k :: "'a \<Rightarrow> 'b::linorder"
  assumes "mset xs = mset ys" and "distinct (map k xs)"
  shows "SliceStable (\<lambda>a b. k a < k b) xs = SliceStable (\<lambda>a b. k a < k b) ys"
proof -
  have "inj_on k (set xs)" using assms(2) by (simp add: distinct_map)
  then have "sort_key k xs = sort_key k ys"
    using assms(1) by (intro sort_key_inj_key_eq) auto
  then show ?thesis by (simp only: SliceStable_sort_key)
qed

lemma stable_API_same: "same_API a b \<Longrightarrow> distinct (map (\<lambda>x. Proxy_ClusterName (snd x)) (pAPI_Proxies a)) \<Longrightarrow> stable_API a = stable_API b"
  unfolding stable_API_def same_API_def
  by (auto intro!: SliceStable_perm simp: o_def)

lemma toStable_reordered:
  assumes "reordered p q" and "unique_names p"
  shows "raw_APIs (toStable p) = raw_APIs (toStable q)" and "raw_Servers (toStable p) = raw_Servers (toStable q)"
    and "raw_Clusters (toStable p) = raw_Clusters (toStable q)" and "raw_Routings (toStable p) = raw_Routings (toStable q)"
    and "mset (raw_Binds (toStable p)) = mset (raw_Binds (toStable q))"
proof -
  obtain as where as: "mset as = mset (ps_APIs q)" "list_all2 same_API (ps_APIs p) as" using assms(1) by (auto simp: reordered_def)
  have "map stable_API (ps_APIs p) = map stable_API as"
    using as(2) assms(2) unfolding unique_names_def
    by (auto simp: list_all2_conv_all_nth list_all_length intro!: nth_equalityI stable_API_same)
  then have "mset (map stable_API (ps_APIs p)) = mset (map stable_API (ps_APIs q))" using as(1) by (metis mset_map)
  moreover have "distinct (map (\<lambda>a. API_Name (dAPI a)) (map stable_API (ps_APIs p)))"
    using assms(2) by (simp add: unique_names_def o_def stable_API_def)
  ultimately show "raw_APIs (toStable p) = raw_APIs (toStable q)"
    unfolding toStable_def ManbaRawState.simps by (rule SliceStable_perm)
  show "raw_Servers (toStable p) = raw_Servers (toStable q)" "raw_Clusters (toStable p) = raw_Clusters (toStable q)"
    "raw_Routings (toStable p) = raw_Routings (toStable q)"
    unfolding toStable_def ManbaRawState.simps using assms
    by (intro SliceStable_perm; auto simp: reordered_def unique_names_def o_def)+
  have "mset (ps_Clusters p) = mset (ps_Clusters q)" using assms(1) by (simp add: reordered_def)
  then have "(\<Sum>c\<in>#mset (ps_Clusters p). mset (cluster_binds c)) = (\<Sum>c\<in>#mset (ps_Clusters q). mset (cluster_binds c))" by simp
  then show "mset (raw_Binds (toStable p)) = mset (raw_Binds (toStable q))"
    by (simp add: toStable_def mset_concat sum_mset_sum_list [symmetric] o_def flip: mset_map)
qed

text \<open>
  A parsed configuration for the witnesses: one API that goes to a cluster with two servers, one of
  which the gateway of \<open>sample_raw\<close> knows, and a routing.
\<close>

definition sample_server :: "string \<Rightarrow> parser_Server" where
  "sample_server addr = \<lparr>pServer = zero_Server\<lparr>Server_Addr := addr\<rparr>\<rparr>"

definition sample_cluster :: "string \<Rightarrow> string list \<Rightarrow> parser_Cluster" where
  "sample_cluster name addrs = \<lparr>pCluster = zero_Cluster\<lparr>Cluster_Name := name\<rparr>, pCluster_Servers = map sample_server addrs,
     pCluster_Port = ''80'', pCluster_Namespace = ''ns'', pCluster_K8SSbuSet = \<lparr>ss_Name = [], ss_Labels = [], ss_TrafficPolicy = None\<rparr>\<rparr>"

definition sample_rule :: ManbaHTTPRule where
  "sample_rule = \<lparr>rule_Match = [], rule_Rewrite = None, rule_IPAccessControl = None, rule_Retry = None, rule_DefaultValue = None,
     rule_RenderTemplate = None, rule_AuthFilter = None, rule_TrafficPolicy = None, rule_Route = [], rule_Mirror = [], rule_Split = []\<rparr>"

definition sample_api :: "string \<Rightarrow> string list \<Rightarrow> parser_API" where
  "sample_api name clusters = \<lparr>pAPI = zero_API\<lparr>API_Name := name\<rparr>, pAPI_Namespace = ''ns'',
     pAPI_Proxies = map (\<lambda>c. (c, \<lparr>Proxy_ClusterName = c, Proxy_DispatchNode = zero_Node\<rparr>)) clusters,
     pAPI_HTTPRule = sample_rule, pAPI_Routings = []\<rparr>"

definition sample_parsed :: parser_ManbaState where
  "sample_parsed = \<lparr>ps_APIs = [sample_api ''b'' [''d'', ''c''], sample_api ''a'' [''c'']],
     ps_Servers = [sample_server ''10.0.0.2:80'', sample_server ''10.0.0.1:80''],
     ps_Clusters = [sample_cluster ''d'' [''10.0.0.1:80''], sample_cluster ''c'' [''10.0.0.2:80'', ''10.0.0.1:80'']],
     ps_Routings = [\<lparr>pRouting_APIName = ''a'', pRouting_ClusterName = ''c'', pRouting = zero_Routing\<lparr>Routing_Name := ''r''\<rparr>\<rparr>],
     ps_Plugins = []\<rparr>"

definition sample_shuffled :: parser_ManbaState where
  "sample_shuffled = \<lparr>ps_APIs = [sample_api ''a'' [''c''], sample_api ''b'' [''c'', ''d'']],
     ps_Servers = rev (ps_Servers sample_parsed), ps_Clusters = rev (ps_Clusters sample_parsed),
     ps_Routings = ps_Routings sample_parsed, ps_Plugins = []\<rparr>"

lemma sample_reordered: "reordered sample_parsed sample_shuffled" "unique_names sample_parsed"
proof -
  have "list_all2 same_API (ps_APIs sample_parsed) (rev (ps_APIs sample_shuffled))"
    by (simp add: sample_parsed_def sample_shuffled_def same_API_def sample_api_def)
  then show "reordered sample_parsed sample_shuffled"
    unfolding reordered_def by (auto simp: sample_shuffled_def intro: exI [of _ "rev (ps_APIs sample_shuffled)"])
  show "unique_names sample_parsed" by code_simp
qed

text \<open>
  C21. The stable order does not depend on the iteration order of Go's maps: two parsed configurations
  that differ in the order of their entities and proxies only, with unique names, give the same APIs,
  servers, clusters and routings in the same order, and the same binds up to their order.
\<close>

theorem toStable_deterministic:
  assumes "reordered p q" and "unique_names p"
  shows "toStable q = (toStable p)\<lparr>raw_Binds := raw_Binds (toStable q)\<rparr> \<and>
    mset (raw_Binds (toStable q)) = mset (raw_Binds (toStable p))"
  using toStable_reordered [OF assms] by (simp add: ManbaRawState.equality)

theorem toStable_deterministic_witness:
  "toStable sample_shuffled = (toStable sample_parsed)\<lparr>raw_Binds := raw_Binds (toStable sample_shuffled)\<rparr> \<and>
    mset (raw_Binds (toStable sample_shuffled)) = mset (raw_Binds (toStable sample_parsed))"
  by (rule toStable_deterministic [OF sample_reordered])

text \<open>
  C35. The binds are not put into a stable order: the comparison of \<open>toStable\<close> asks for both names to be
  smaller, so two binds it cannot compare keep the order of the parser, and two reorderings of one
  configuration give different results, hence different hashes and a synchronisation without a change.
\<close>

theorem toStable_binds_unstable:
  "reordered sample_parsed sample_shuffled \<and> unique_names sample_parsed \<and>
    raw_Binds (toStable sample_parsed) \<noteq> raw_Binds (toStable sample_shuffled)"
proof -
  have "map (\<lambda>b. (dBind_ClusterName b, dBind_ServerAddr b)) (raw_Binds (toStable sample_parsed)) \<noteq>
      map (\<lambda>b. (dBind_ClusterName b, dBind_ServerAddr b)) (raw_Binds (toStable sample_shuffled))"
    by code_simp
  then show ?thesis using sample_reordered by auto
qed

section \<open>The IDs of the target\<close>

definition sample_next :: "nat \<Rightarrow> nat \<times> uint64" where
  "sample_next n = (Suc n, of_nat (n + 100))"

lemma sample_target_ok: "current_ok sample_raw" "target_ok (toStable sample_parsed)" "fresh_IDs sample_next 0 (toStable sample_parsed) sample_raw"
  by code_simp+

lemma with_IDs_pairs:
  "server_pairs (with_IDs t fs fc fa fr) = map (\<lambda>(i, s). (fs s, s)) (server_pairs t)"
  "cluster_pairs (with_IDs t fs fc fa fr) = map (\<lambda>(i, s). (fc s, s)) (cluster_pairs t)"
  "api_pairs (with_IDs t fs fc fa fr) = map (\<lambda>(i, s). (fa s, s)) (api_pairs t)"
  "routing_pairs (with_IDs t fs fc fa fr) = map (\<lambda>(i, s). (fr s, s)) (routing_pairs t)"
  by (simp_all add: pairs_defs with_IDs_def Let_def)

definition IDs_agree :: "pairs \<Rightarrow> pairs \<Rightarrow> bool" where
  "IDs_agree ps qs = list_all (\<lambda>(i, s). list_all (\<lambda>(j, s'). s = s' \<and> s \<noteq> [] \<longrightarrow> i = j) qs) ps"

lemma keeps_IDs_agree: "keeps_IDs ps qs f \<Longrightarrow> IDs_agree ps (map (\<lambda>(i, s). (f s, s)) qs)"
  by (force simp: keeps_IDs_def IDs_agree_def list_all_iff)

text \<open>
  C11. \<open>setTargetsIDs\<close> succeeds, keeps every entity and its name in place, and gives an entity whose name
  the gateway knows the ID it has there. The gateway's configuration has usable unique IDs and names
  that cannot be mistaken for IDs, the target has unique names and no IDs, and the generator yields
  numbers the gateway does not use.
\<close>

theorem setTargetsIDs_keeps_IDs:
  assumes "manba_db D rows ok C" and "current_ok raw" and "state_Get C D raw = Ok current" and "target_ok t"
    and "fresh_IDs N n t raw"
  shows "\<exists>n' t'. setTargetsIDs C D N t current n = Ok (n', t') \<and>
    map (map snd) (all_pairs t') = map (map snd) (all_pairs t) \<and> list_all2 IDs_agree (all_pairs raw) (all_pairs t')"
proof -
  obtain n' fs fc fa fr where r: "setTargetsIDs C D N t current n = Ok (n', with_IDs t fs fc fa fr)"
      "keeps_IDs (api_pairs raw) (api_pairs t) fa" "keeps_IDs (cluster_pairs raw) (cluster_pairs t) fc"
      "keeps_IDs (routing_pairs raw) (routing_pairs t) fr" "keeps_IDs (server_pairs raw) (server_pairs t) fs"
    by (rule setTargetsIDs_ok [OF assms])
  have "map (map snd) (all_pairs (with_IDs t fs fc fa fr)) = map (map snd) (all_pairs t)"
    by (simp add: all_pairs_def with_IDs_pairs o_def case_prod_beta)
  moreover have "list_all2 IDs_agree (all_pairs raw) (all_pairs (with_IDs t fs fc fa fr))"
    using r(2-5) by (simp add: all_pairs_def with_IDs_pairs keeps_IDs_agree)
  ultimately show ?thesis using r(1) by blast
qed

theorem setTargetsIDs_keeps_IDs_witness:
  "\<exists>current n' t'. state_Get tagged_codecs refdb sample_raw = Ok current \<and>
    setTargetsIDs tagged_codecs refdb sample_next (toStable sample_parsed) current 0 = Ok (n', t') \<and>
    map (map snd) (all_pairs t') = map (map snd) (all_pairs (toStable sample_parsed)) \<and>
    list_all2 IDs_agree (all_pairs sample_raw) (all_pairs t')"
proof -
  obtain current where c: "state_Get tagged_codecs refdb sample_raw = Ok current"
    using ref.state_Get_rows [OF sample_raw_proper] by blast
  from setTargetsIDs_keeps_IDs [OF ref.manba_db_axioms sample_target_ok(1) c sample_target_ok(2,3)] c show ?thesis by blast
qed


definition sample_validators :: validators where
  "sample_validators = \<lparr>ValidateCluster = (\<lambda>c. if Cluster_Name c = ''d'' then Some (NewError ''bad'') else None),
     ValidateServer = (\<lambda>s. None), ValidateAPI = (\<lambda>a. None), ValidateRouting = (\<lambda>r. None)\<rparr>"


text \<open>
  C15. \<open>filterInvalidations\<close> leaves no dangling bind: when no server has the ID zero, every bind it keeps has
  a message, whose server and cluster are kept and valid; and filtering again changes nothing.
\<close>

theorem filterInvalidations_integrity:
  assumes "\<forall>s\<in>set (raw_Servers raw). Server_ID (dServer s) \<noteq> 0"
  shows "(\<forall>b\<in>set (raw_Binds (filterInvalidations V raw)). \<exists>m. dBind b = Some m \<and>
      (\<exists>s\<in>set (raw_Servers (filterInvalidations V raw)). Server_ID (dServer s) = Bind_ServerID m \<and> ValidateServer V (dServer s) = None) \<and>
      (\<exists>c\<in>set (raw_Clusters (filterInvalidations V raw)). Cluster_ID (dCluster c) = Bind_ClusterID m \<and> ValidateCluster V (dCluster c) = None)) \<and>
    filterInvalidations V (filterInvalidations V raw) = filterInvalidations V raw"
proof
  show "\<forall>b\<in>set (raw_Binds (filterInvalidations V raw)). \<exists>m. dBind b = Some m \<and>
      (\<exists>s\<in>set (raw_Servers (filterInvalidations V raw)). Server_ID (dServer s) = Bind_ServerID m \<and> ValidateServer V (dServer s) = None) \<and>
      (\<exists>c\<in>set (raw_Clusters (filterInvalidations V raw)). Cluster_ID (dCluster c) = Bind_ClusterID m \<and> ValidateCluster V (dCluster c) = None)"
  proof
    fix b assume "b \<in> set (raw_Binds (filterInvalidations V raw))"
    then obtain s c where sc: "s \<in> set (raw_Servers raw)" "ValidateServer V (dServer s) = None" "GetServerID (dBind b) = Server_ID (dServer s)"
        "c \<in> set (raw_Clusters raw)" "ValidateCluster V (dCluster c) = None" "GetClusterID (dBind b) = Cluster_ID (dCluster c)"
      by (auto simp: filterInvalidations_def Let_def)
    with assms obtain m where "dBind b = Some m" by (cases "dBind b") (auto simp: GetServerID_def)
    with sc show "\<exists>m. dBind b = Some m \<and>
        (\<exists>s\<in>set (raw_Servers (filterInvalidations V raw)). Server_ID (dServer s) = Bind_ServerID m \<and> ValidateServer V (dServer s) = None) \<and>
        (\<exists>c\<in>set (raw_Clusters (filterInvalidations V raw)). Cluster_ID (dCluster c) = Bind_ClusterID m \<and> ValidateCluster V (dCluster c) = None)"
      by (force simp: filterInvalidations_def Let_def GetServerID_def GetClusterID_def)
  qed
qed (simp add: filterInvalidations_def Let_def, rule filter_cong, auto)

theorem filterInvalidations_integrity_witness:
  "filterInvalidations sample_validators (filterInvalidations sample_validators sample_raw) = filterInvalidations sample_validators sample_raw \<and>
    (\<exists>b m. b \<in> set (raw_Binds (filterInvalidations sample_validators sample_raw)) \<and> dBind b = Some m \<and>
      (\<exists>s\<in>set (raw_Servers (filterInvalidations sample_validators sample_raw)). Server_ID (dServer s) = Bind_ServerID m))"
proof -
  have "\<forall>s\<in>set (raw_Servers sample_raw). Server_ID (dServer s) \<noteq> 0" by code_simp
  note int = filterInvalidations_integrity [OF this, of sample_validators]
  have "length (raw_Binds (filterInvalidations sample_validators sample_raw)) = 1" by code_simp
  then obtain b where "b \<in> set (raw_Binds (filterInvalidations sample_validators sample_raw))" by (metis length_0_conv zero_neq_one last_in_set)
  with int show ?thesis by blast
qed

section \<open>Updates\<close>

lemma onUpdate_Ok:
  assumes "onUpdate C D J N V client concurrency p g n g' (Ok ())" and "update_target C D N V client p g n = Ok (n', current, target)"
  obtains current' stats where "Solve C D J client False current target g concurrency current' g' stats (Ok ())"
  using assms by (auto elim!: onUpdate.cases)

lemma onUpdate_gateway:
  assumes "manba_db D rows ok C" and "gateway_spec client view" and "dump_Get client g = Ok raw" and "view g = raw_contents raw"
    and "current_ok raw" and "target_ok (toStable p)" and "fresh_IDs N n (toStable p) raw" and "concurrency + 12 < 2 ^ 32"
    and "onUpdate C D J N V client concurrency p g n g' (Ok ())"
  shows "\<exists>current n' targetRaw. state_Get C D raw = Ok current \<and>
    setTargetsIDs C D N (toStable p) current n = Ok (n', targetRaw) \<and>
    same_contents (view g') (raw_contents (filterInvalidations V targetRaw))"
proof -
  obtain n' targetRaw current target where t: "state_Get C D raw = Ok current"
      "setTargetsIDs C D N (toStable p) current n = Ok (n', targetRaw)"
      "aligned raw (filterInvalidations V targetRaw)" "plain_binds (filterInvalidations V targetRaw)"
      "state_Get C D (filterInvalidations V targetRaw) = Ok target"
      "update_target C D N V client p g n = Ok (n', current, target)"
    by (rule update_target_ok [OF assms(1,3,5-7)])
  obtain current' stats where "Solve C D J client False current target g concurrency current' g' stats (Ok ())"
    by (rule onUpdate_Ok [OF assms(9) t(6)])
  from Solve_gateway [OF assms(1,2) t(3,4,1,5) assms(8,4) this] t(1,2) show ?thesis by blast
qed

text \<open>With a gateway that accepts every request, \<open>onUpdate\<close> can only end well.\<close>

lemma onUpdate_returns:
  assumes "manba_db D rows ok C" and "accepting_client client" and "dump_Get client g = Ok raw"
    and "current_ok raw" and "target_ok (toStable p)" and "fresh_IDs N n (toStable p) raw"
    and "0 < k" "k + 12 < 2 ^ 32" and "\<And>a b. is_Ok (Solver_Diff J a b)"
  shows "\<exists>g'. onUpdate C D J N V client (int k) p g n g' (Ok ())"
proof -
  obtain n' targetRaw current target where t: "state_Get C D raw = Ok current"
      "aligned raw (filterInvalidations V targetRaw)" "plain_binds (filterInvalidations V targetRaw)"
      "state_Get C D (filterInvalidations V targetRaw) = Ok target"
      "update_target C D N V client p g n = Ok (n', current, target)"
    by (rule update_target_ok [OF assms(1,3-6)])
  from Solve_returns [OF assms(1,2) t(2) dump_Get_plain [OF assms(3)] t(3,1,4) assms(7-9)]
  show ?thesis using onUpdate.solved [OF t(5)] by blast
qed

text \<open>What the reference gateway lists of the sample configuration: binds and routings without names.\<close>

definition sample_dump :: ManbaRawState where
  "sample_dump = sample_raw\<lparr>
     raw_Binds := map (\<lambda>b. b\<lparr>dBind_ClusterName := [], dBind_ServerAddr := []\<rparr>) (raw_Binds sample_raw),
     raw_Routings := map (\<lambda>r. r\<lparr>dRouting_APIName := [], dRouting_ClusterName := []\<rparr>) (raw_Routings sample_raw)\<rparr>"

lemma sample_dump_Get: "dump_Get ref_client (raw_msgs sample_raw) = Ok sample_dump"
  by code_simp

lemma sample_dump_ok: "current_ok sample_dump" "fresh_IDs sample_next 0 (toStable sample_parsed) sample_dump"
  "raw_msgs sample_dump = raw_msgs sample_raw"
  by code_simp+

lemma sample_update:
  obtains g' where "onUpdate tagged_codecs refdb ref_json sample_next sample_validators ref_client 3 sample_parsed (raw_msgs sample_raw) 0 g' (Ok ())"
  using onUpdate_returns [OF ref.manba_db_axioms refacc.accepting_client_axioms sample_dump_Get sample_dump_ok(1) sample_target_ok(2)
    sample_dump_ok(2), of 3 ref_json sample_validators] ref_json_ok by auto

text \<open>
  End to end: when \<open>onUpdate\<close> reports success, the gateway holds the parsed configuration, sorted,
  with the IDs of \<open>setTargetsIDs\<close> and without what the validators reject, and nothing else, under any
  interleaving of the goroutines. The gateway lists what it stores.
\<close>

theorem onUpdate_converges:
  assumes "manba_db D rows ok C" and "gateway_spec client view" and "dump_Get client g = Ok raw" and "view g = raw_contents raw"
    and "current_ok raw" and "target_ok (toStable p)" and "fresh_IDs N n (toStable p) raw" and "concurrency + 12 < 2 ^ 32"
    and "onUpdate C D J N V client concurrency p g n g' (Ok ())"
  shows "\<exists>current n' targetRaw. state_Get C D raw = Ok current \<and>
    setTargetsIDs C D N (toStable p) current n = Ok (n', targetRaw) \<and>
    same_contents (view g') (raw_contents (filterInvalidations V targetRaw))"
  using onUpdate_gateway [OF assms] .

theorem onUpdate_converges_witness:
  "\<exists>g' current n' targetRaw.
    onUpdate tagged_codecs refdb ref_json sample_next sample_validators ref_client 3 sample_parsed (raw_msgs sample_raw) 0 g' (Ok ()) \<and>
    state_Get tagged_codecs refdb sample_dump = Ok current \<and>
    setTargetsIDs tagged_codecs refdb sample_next (toStable sample_parsed) current 0 = Ok (n', targetRaw) \<and>
    same_contents (ref_view g') (raw_contents (filterInvalidations sample_validators targetRaw))"
proof -
  obtain g' where g': "onUpdate tagged_codecs refdb ref_json sample_next sample_validators ref_client 3 sample_parsed (raw_msgs sample_raw) 0 g' (Ok ())"
    by (rule sample_update)
  have v: "ref_view (raw_msgs sample_raw) = raw_contents sample_dump"
    using ref_view_raw [of sample_dump] by (simp only: sample_dump_ok(3))
  from onUpdate_converges [OF ref.manba_db_axioms refgw.gateway_spec_axioms sample_dump_Get v sample_dump_ok(1) sample_target_ok(2)
    sample_dump_ok(2) _ g'] g' show ?thesis by auto
qed


lemma OnUpdate_same_hash:
  assumes "hash_of (toStable p) = Ok h"
  shows "OnUpdate C D J N V client concurrency hash_of p h g n h' g' res \<longleftrightarrow> h' = h \<and> g' = g \<and> res = Ok ()"
proof
  assume "OnUpdate C D J N V client concurrency hash_of p h g n h' g' res"
  then show "h' = h \<and> g' = g \<and> res = Ok ()" using assms by cases simp_all
qed (auto intro: OnUpdate.skipped assms)

text \<open>
  C20. The hash of the running configuration remembers successes only: after a successful \<open>OnUpdate\<close>, the
  next one of the same configuration succeeds without touching the gateway; after a failed one the
  hash is the old one, so the update is tried again.
\<close>

theorem OnUpdate_remembers:
  assumes "OnUpdate C D J N V client concurrency hash_of p h g n h' g' res"
  shows "(is_Ok res \<longrightarrow> (\<forall>g1 n1 h2 g2 r. OnUpdate C D J N V client concurrency hash_of p h' g1 n1 h2 g2 r \<longleftrightarrow>
      h2 = h' \<and> g2 = g1 \<and> r = Ok ())) \<and> (\<not> is_Ok res \<longrightarrow> h' = h)"
  using assms
proof cases
  case skipped
  then show ?thesis using OnUpdate_same_hash by (metis is_Ok.simps(1))
next
  case updated
  then show ?thesis using OnUpdate_same_hash by (metis is_Ok.simps(1))
qed simp_all

definition sample_sum :: "ManbaRawState \<Rightarrow> nat result" where
  "sample_sum raw = Ok (length (raw_Servers raw))"

theorem OnUpdate_remembers_witness:
  "\<exists>g'. OnUpdate tagged_codecs refdb ref_json sample_next sample_validators ref_client 3 sample_sum sample_parsed 0 (raw_msgs sample_raw) 0 2 g' (Ok ()) \<and>
    (\<forall>g1 n1 h2 g2 r. OnUpdate tagged_codecs refdb ref_json sample_next sample_validators ref_client 3 sample_sum sample_parsed 2 g1 n1 h2 g2 r \<longleftrightarrow>
      h2 = 2 \<and> g2 = g1 \<and> r = Ok ())"
proof -
  obtain g' where "onUpdate tagged_codecs refdb ref_json sample_next sample_validators ref_client 3 sample_parsed (raw_msgs sample_raw) 0 g' (Ok ())"
    by (rule sample_update)
  moreover have "sample_sum (toStable sample_parsed) = Ok 2" by (simp add: sample_sum_def toStable_def sample_parsed_def)
  ultimately have "OnUpdate tagged_codecs refdb ref_json sample_next sample_validators ref_client 3 sample_sum sample_parsed 0 (raw_msgs sample_raw) 0 2 g' (Ok ())"
    by (intro OnUpdate.updated) simp_all
  from OnUpdate_remembers [OF this] this show ?thesis by auto
qed

end
