(* ===== verification/Parser_Laws.thy ===== *)
theory Parser_Laws
  imports Parser Controller
begin

text \<open>
  What every parsed configuration satisfies: the names are unique across all kinds, no entity has an
  ID, and the names cannot be mistaken for IDs. So the parser delivers what \<open>setTargetsIDs\<close> needs.
\<close>

section \<open>Entities as the parser makes them\<close>

definition routing_ok :: "parser_Routing \<Rightarrow> bool" where
  "routing_ok r \<longleftrightarrow> Routing_ID (pRouting r) = 0 \<and> named (Routing_Name (pRouting r))"

definition cluster_ok :: "parser_Cluster \<Rightarrow> bool" where
  "cluster_ok c \<longleftrightarrow> Cluster_ID (pCluster c) = 0 \<and> named (Cluster_Name (pCluster c))"

definition server_ok :: "parser_Server \<Rightarrow> bool" where
  "server_ok s \<longleftrightarrow> Server_ID (pServer s) = 0 \<and> named (Server_Addr (pServer s))"

definition api_ok :: "parser_API \<Rightarrow> bool" where
  "api_ok a \<longleftrightarrow> API_ID (pAPI a) = 0 \<and> named (API_Name (pAPI a)) \<and> list_all routing_ok (pAPI_Routings a) \<and>
     distinct (map fst (pAPI_Proxies a)) \<and> list_all (\<lambda>(k, p). Proxy_ClusterName p = k) (pAPI_Proxies a)"

definition service_ok :: "nat \<Rightarrow> parser_Service \<Rightarrow> bool" where
  "service_ok n s \<longleftrightarrow> list_all (\<lambda>a. a < n) (ps_ServiceAPIs s) \<and> cluster_ok (ps_Cluster s) \<and> list_all server_ok (ps_ServiceServers s)"

lemmas ok_defs = routing_ok_def cluster_ok_def server_ok_def api_ok_def

lemma named_sep: "\<not> id_char c \<Longrightarrow> c \<in> set s \<Longrightarrow> named s"
  by (auto simp: named_def list_ex_iff)

lemma named_dot: "CHR ''.'' \<in> set s \<Longrightarrow> named s" and named_colon: "CHR '':'' \<in> set s \<Longrightarrow> named s"
  by (erule named_sep [rotated], simp add: id_char_def)+

lemma list_all_mono_less: "list_all (\<lambda>a. a < n) xs \<Longrightarrow> n \<le> m \<Longrightarrow> list_all (\<lambda>a. a < (m::nat)) xs"
  by (auto simp: list_all_iff)

lemma service_ok_mono: "service_ok n s \<Longrightarrow> n \<le> m \<Longrightarrow> service_ok m s"
  by (auto simp: service_ok_def intro: list_all_mono_less)

section \<open>parseIngressRules\<close>

lemma rule_APIs_ok: "list_all api_ok (rule_APIs E ing i j rule)"
  by (auto simp: rule_APIs_def match_API_def base_API_def API_fromManbaHTTPRule_def Let_def list_all_iff ok_defs api_name_def
    zero_API_def intro!: named_dot split: option.splits)

lemma new_service_ok: "service_ok n (new_service (cluster_name ns cls) ing cls' cluster subSet)"
  by (auto simp: service_ok_def new_service_def Let_def ok_defs cluster_name_def zero_Cluster_def intro!: named_dot)

definition services_ok :: "nat \<Rightarrow> services \<Rightarrow> bool" where
  "services_ok n svcs \<longleftrightarrow> distinct (map fst svcs) \<and> (\<forall>(k, s)\<in>set svcs. service_ok n s)"

lemma services_ok_update: "services_ok n svcs \<Longrightarrow> service_ok n s \<Longrightarrow> services_ok n (AList.update k s svcs)"
proof -
  have "set (AList.update k s svcs) \<subseteq> insert (k, s) (set svcs)"
    by (induction svcs) auto
  then show "services_ok n svcs \<Longrightarrow> service_ok n s \<Longrightarrow> services_ok n (AList.update k s svcs)"
    by (auto simp: services_ok_def distinct_update)
qed

lemma services_ok_mono: "services_ok n svcs \<Longrightarrow> n \<le> m \<Longrightarrow> services_ok m svcs"
  by (auto simp: services_ok_def intro: service_ok_mono)

lemma route_service_ok:
  assumes "route_service st ing apis route svcs = Ok svcs'" and "services_ok n svcs" and "list_all (\<lambda>a. a < n) apis"
  shows "services_ok n svcs'"
proof -
  have upd: "services_ok n (AList.update k (s\<lparr>ps_ServiceAPIs := ps_ServiceAPIs s @ apis\<rparr>) svcs)" if "service_ok n s" for k s
    using that assms(2,3) by (intro services_ok_update) (auto simp: service_ok_def)
  have "service_ok n s" if "map_of svcs k = Some s" for k s
    using map_of_SomeD [OF that] assms(2) by (auto simp: services_ok_def)
  with assms upd new_service_ok show ?thesis
    by (auto simp: route_service_def Let_def go_simps split: option.splits result.splits if_splits)
qed

definition parse_ok :: "parse_state \<Rightarrow> bool" where
  "parse_ok = (\<lambda>(heap, apis, svcs). list_all api_ok heap \<and> list_all (\<lambda>a. a < length heap) apis \<and> services_ok (length heap) svcs)"

lemma parse_rule_ok:
  assumes "parse_rule E st ing i jr s = Ok s'" and "parse_ok s"
  shows "parse_ok s'"
proof -
  obtain j rule heap apis svcs where eq: "jr = (j, rule)" "s = (heap, apis, svcs)" by (metis prod_cases3 surj_pair)
  let ?new = "rule_APIs E ing i j rule"
  let ?apis = "apis @ [length heap..<length heap + length ?new]" and ?heap = "heap @ ?new"
  obtain svcs' where s': "s' = (?heap, ?apis, svcs')" "rfold (route_service st ing ?apis) (rule_Route rule) svcs = Ok svcs'"
    using assms(1) by (auto simp: parse_rule_def eq go_simps Let_def)
  have a: "list_all (\<lambda>a. a < length ?heap) ?apis" using assms(2) by (auto simp: parse_ok_def eq list_all_iff)
  have "services_ok (length ?heap) svcs'"
    using s'(2) by (rule rfold_invariant)
      (use assms(2) a route_service_ok in \<open>auto simp: parse_ok_def eq intro: services_ok_mono\<close>)
  with a assms(2) show ?thesis by (simp add: parse_ok_def s' eq rule_APIs_ok)
qed

lemma parse_ingress_ok:
  assumes "parse_ingress E st ii hs = Ok hs'" and "list_all api_ok (fst hs) \<and> services_ok (length (fst hs)) (snd hs)"
  shows "list_all api_ok (fst hs') \<and> services_ok (length (fst hs')) (snd hs')"
proof -
  obtain i ing where ii: "ii = (i, ing)" by fastforce
  obtain apis where r: "rfold (parse_rule E st ing i) (enumerate 0 (spec_HTTP (ing_Spec ing))) (fst hs, [], snd hs) = Ok (fst hs', apis, snd hs')"
    using assms(1) by (auto simp: parse_ingress_def ii go_simps case_prod_beta)
  have "parse_ok (fst hs', apis, snd hs')"
    using r by (rule rfold_invariant) (use assms(2) parse_rule_ok in \<open>auto simp: parse_ok_def\<close>)
  then show ?thesis by (simp add: parse_ok_def)
qed

lemma parseIngressRules_ok:
  assumes "parseIngressRules E st ings = Ok (heap, svcs)"
  shows "list_all api_ok heap" and "services_ok (length heap) svcs"
proof -
  have "list_all api_ok (fst (heap, svcs)) \<and> services_ok (length (fst (heap, svcs))) (snd (heap, svcs))"
    using assms unfolding parseIngressRules_def
    by (rule rfold_invariant) (use parse_ingress_ok in \<open>auto simp: services_ok_def\<close>)
  then show "list_all api_ok heap" and "services_ok (length heap) svcs" by simp_all
qed

section \<open>fillOverride\<close>

lemma service_endpoints_ok:
  "service_endpoints st port svcs servers = Ok servers' \<Longrightarrow> list_all server_ok servers \<Longrightarrow> list_all server_ok servers'"
proof (induction svcs arbitrary: servers)
  case (Cons svc svcs)
  have new: "server_ok \<lparr>pServer = zero_Server\<lparr>Server_Addr := Endpoint_String e\<rparr>\<rparr>" for e
    by (simp add: ok_defs zero_Server_def Endpoint_String_def named_colon)
  show ?case
  proof (cases "service_port port svc")
    case (Some p)
    with Cons.prems(1) obtain es where "service_endpoints st port svcs (servers @
        map (\<lambda>e. \<lparr>pServer = zero_Server\<lparr>Server_Addr := Endpoint_String e\<rparr>\<rparr>) (filter (\<lambda>e. Endpoint_Port e = port) es)) = Ok servers'"
      by (auto simp: go_simps)
    from Cons.IH [OF this] Cons.prems(2) new show ?thesis by (auto simp: list_all_iff)
  qed (use Cons.prems in auto)
qed simp

lemma getServiceEndpoints_ok: "getServiceEndpoints st ss ns port = Ok servers \<Longrightarrow> list_all server_ok servers"
  by (auto simp: getServiceEndpoints_def go_simps intro: service_endpoints_ok)

lemma add_proxy_ok:
  assumes "distinct (map fst ps) \<and> list_all (\<lambda>(k, p). Proxy_ClusterName p = k) ps"
  shows "distinct (map fst (add_proxy p ps)) \<and> list_all (\<lambda>(k, p). Proxy_ClusterName p = k) (add_proxy p ps)"
  using assms by (auto simp: add_proxy_def)

lemma fold_invariant: "P s \<Longrightarrow> (\<And>x s. x \<in> set xs \<Longrightarrow> P s \<Longrightarrow> P (f x s)) \<Longrightarrow> P (fold f xs s)"
  by (induction xs arbitrary: s) auto

lemma fill_API_ok:
  assumes "api_ok a"
  shows "api_ok (fill_API E srt cn a)"
proof -
  let ?ps = "fold (\<lambda>r. add_proxy (route_proxy E srt cn (pAPI_HTTPRule a) r)) (rule_Route (pAPI_HTTPRule a)) (pAPI_Proxies a)"
  have "distinct (map fst ?ps) \<and> list_all (\<lambda>(k, p). Proxy_ClusterName p = k) ?ps"
    by (rule fold_invariant) (use assms add_proxy_ok in \<open>auto simp: api_ok_def\<close>)
  moreover have "routing_ok (parseRouting a strat sep im)" if "sep \<in> {''.mirror.'', ''.split.''}" for strat sep im
    using that by (auto simp: parseRouting_def routing_ok_def zero_Routing_def named_dot split: prod.splits)
  ultimately show ?thesis
    using assms by (auto simp: fill_API_def api_ok_def Let_def list_all_iff)
qed

lemma fill_heap_ok:
  assumes "list_all api_ok heap" and "list_all (\<lambda>a. a < length heap) as"
  shows "list_all api_ok (fold (\<lambda>a heap. heap[a := fill_API E srt cn (heap ! a)]) as heap) \<and>
    length (fold (\<lambda>a heap. heap[a := fill_API E srt cn (heap ! a)]) as heap) = length heap"
  by (rule fold_invariant) (use assms fill_API_ok set_update_subset_insert in \<open>fastforce simp: list_all_iff\<close>)+

lemma fillOverride_ok:
  assumes "fillOverride E srt st s heap = Ok (s', heap')" and "list_all api_ok heap" and "service_ok (length heap) s"
  shows "list_all api_ok heap' \<and> length heap' = length heap \<and> service_ok (length heap) s'"
proof -
  obtain servers where g: "getServiceEndpoints st (pCluster_K8SSbuSet (ps_Cluster s)) (pCluster_Namespace (ps_Cluster s)) (pCluster_Port (ps_Cluster s)) = Ok servers"
    using assms(1) by (auto simp: fillOverride_def go_simps Let_def)
  have t: "list_all server_ok servers" "list_all server_ok (map (apply_traffic t n) servers)" for t n
    using getServiceEndpoints_ok [OF g] by (auto simp: apply_traffic_def ok_defs list_all_iff)
  have c: "cluster_ok (ps_Cluster s)" "cluster_ok (set_balance E t (ps_Cluster s))" for t
    using assms(3) by (auto simp: service_ok_def set_balance_def ok_defs split: option.splits)
  have h: "list_all (\<lambda>a. a < length heap) (ps_ServiceAPIs s)" using assms(3) by (simp add: service_ok_def)
  show ?thesis
    using assms(1) g t c h fill_heap_ok [OF assms(2) h]
    by (auto simp: fillOverride_def Let_def service_ok_def split: option.splits if_splits)
qed

lemma fill_services_ok:
  assumes "fill_services E srt st svcs heap = Ok (svcs', heap')" and "list_all api_ok heap" and "services_ok (length heap) svcs"
  shows "list_all api_ok heap' \<and> length heap' = length heap \<and> services_ok (length heap) svcs' \<and> map fst svcs' = map fst svcs"
  using assms
proof (induction svcs arbitrary: svcs' heap)
  case (Cons ks svcs)
  obtain k s where ks: "ks = (k, s)" by fastforce
  obtain s1 heap1 svcs1 where f: "fillOverride E srt st s heap = Ok (s1, heap1)" "fill_services E srt st svcs heap1 = Ok (svcs1, heap')"
      "svcs' = (k, s1) # svcs1"
    using Cons.prems(1) by (auto simp: ks go_simps)
  have "service_ok (length heap) s" "services_ok (length heap) svcs" using Cons.prems(3) by (auto simp: services_ok_def ks)
  with fillOverride_ok [OF f(1) Cons.prems(2)] have 1: "list_all api_ok heap1" "length heap1 = length heap" "service_ok (length heap) s1"
    by auto
  from Cons.IH [OF f(2) 1(1)] \<open>services_ok (length heap) svcs\<close> 1 Cons.prems(3) show ?case
    by (auto simp: f(3) ks services_ok_def)
qed simp

section \<open>Build\<close>

definition all_names :: "parser_ManbaState \<Rightarrow> string list" where
  "all_names p = map (\<lambda>a. API_Name (pAPI a)) (ps_APIs p) @ map (\<lambda>r. Routing_Name (pRouting r)) (ps_Routings p) @
     map (\<lambda>c. Cluster_Name (pCluster c)) (ps_Clusters p) @ map (\<lambda>s. Server_Addr (pServer s)) (ps_Servers p)"

definition parsed_ok :: "parser_ManbaState \<Rightarrow> bool" where
  "parsed_ok p \<longleftrightarrow> distinct (all_names p) \<and> list_all api_ok (ps_APIs p) \<and> list_all routing_ok (ps_Routings p) \<and>
     list_all cluster_ok (ps_Clusters p) \<and> list_all server_ok (ps_Servers p)"

definition build_ok :: "build_state \<Rightarrow> bool" where
  "build_ok s \<longleftrightarrow> parsed_ok (snd s) \<and> set (all_names (snd s)) \<subseteq> set (fst s)"

lemma emit_ok:
  assumes "build_ok s" and names: "mset (all_names (add (snd s))) = add_mset key (mset (all_names (snd s)))"
    and "parsed_ok (snd s) \<Longrightarrow> list_all api_ok (ps_APIs (add (snd s))) \<and> list_all routing_ok (ps_Routings (add (snd s))) \<and>
      list_all cluster_ok (ps_Clusters (add (snd s))) \<and> list_all server_ok (ps_Servers (add (snd s)))"
  shows "build_ok (emit key add s)"
proof (cases "key \<in> set (fst s)")
  case False
  have m: "mset (all_names (add (snd s))) = mset (key # all_names (snd s))" using names by simp
  have "distinct (key # all_names (snd s))" using assms(1) False by (auto simp: build_ok_def parsed_ok_def)
  then have "distinct (all_names (add (snd s)))" using mset_eq_imp_distinct_iff [OF m] by blast
  moreover have "set (all_names (add (snd s))) = insert key (set (all_names (snd s)))" using mset_eq_setD [OF m] by simp
  ultimately show ?thesis
    using assms(1,3) False by (auto simp: build_ok_def parsed_ok_def emit_def check_def)
qed (use assms(1) in \<open>auto simp: build_ok_def emit_def check_def\<close>)

lemma emit_API_ok: "build_ok s \<Longrightarrow> api_ok a \<Longrightarrow> build_ok (emit_API a s)"
  unfolding emit_API_def
proof (rule fold_invariant)
  show "build_ok (emit (Routing_Name (pRouting r)) (\<lambda>p. p\<lparr>ps_Routings := ps_Routings p @ [r]\<rparr>) s)"
    if "api_ok a" "r \<in> set (pAPI_Routings a)" "build_ok s" for r s
    using that by (intro emit_ok) (auto simp: all_names_def parsed_ok_def api_ok_def list_all_iff)
  show "build_ok (emit (API_Name (pAPI a)) (\<lambda>p. p\<lparr>ps_APIs := ps_APIs p @ [a]\<rparr>) s)" if "build_ok s" "api_ok a"
    using that by (intro emit_ok) (auto simp: all_names_def parsed_ok_def)
qed

lemma emit_service_ok:
  assumes "build_ok s" and "list_all api_ok heap" and "service_ok (length heap) svc"
  shows "build_ok (emit_service heap svc s)"
proof -
  have "build_ok (fold (\<lambda>a. emit_API (heap ! a)) (ps_ServiceAPIs svc) s)"
    by (rule fold_invariant) (use assms emit_API_ok in \<open>auto simp: service_ok_def list_all_iff\<close>)
  then have "build_ok (emit (Cluster_Name (pCluster (ps_Cluster svc))) (\<lambda>p. p\<lparr>ps_Clusters := ps_Clusters p @
      [(ps_Cluster svc)\<lparr>pCluster_Servers := ps_ServiceServers svc\<rparr>]\<rparr>) (fold (\<lambda>a. emit_API (heap ! a)) (ps_ServiceAPIs svc) s))"
    using assms(3) by (intro emit_ok) (auto simp: all_names_def parsed_ok_def service_ok_def ok_defs)
  moreover have "build_ok (emit (Server_Addr (pServer server)) (\<lambda>p. p\<lparr>ps_Servers := ps_Servers p @ [server]\<rparr>) s)"
    if "server \<in> set (ps_ServiceServers svc)" "build_ok s" for server s
    using assms(3) that by (intro emit_ok) (auto simp: all_names_def parsed_ok_def service_ok_def list_all_iff)
  ultimately show ?thesis
    unfolding emit_service_def Let_def by - (rule fold_invariant [where P = build_ok], simp_all)
qed

text \<open>An order of iteration visits every entry once.\<close>

definition iteration :: "(services \<Rightarrow> services) \<Rightarrow> bool" where
  "iteration ord \<longleftrightarrow> (\<forall>svcs. mset (ord svcs) = mset svcs)"

lemma services_ok_iteration: "iteration ord \<Longrightarrow> services_ok n svcs \<Longrightarrow> services_ok n (ord svcs)"
  unfolding iteration_def services_ok_def
  by (metis mset_eq_imp_distinct_iff mset_eq_setD mset_map)

lemma Build_parsed_ok:
  assumes "Build E srt st ord1 ord2 = Ok p" and "iteration ord1" and "iteration ord2"
  shows "parsed_ok p"
proof -
  obtain heap svcs svcs' heap' where b: "parseIngressRules E st (ListManbaIngresses st) = Ok (heap, svcs)"
      "fill_services E srt st (ord1 svcs) heap = Ok (svcs', heap')"
      "p = snd (fold (\<lambda>(_, service). emit_service heap' service) (ord2 svcs') ([], empty_state))"
    using assms(1) by (auto simp: Build_def go_simps)
  note 1 = parseIngressRules_ok [OF b(1)]
  note 2 = fill_services_ok [OF b(2) 1(1) services_ok_iteration [OF assms(2) 1(2)]]
  have "services_ok (length heap') (ord2 svcs')" using services_ok_iteration [OF assms(3)] 2 by simp
  then have step: "build_ok ((\<lambda>(_, service). emit_service heap' service) ks s)" if "ks \<in> set (ord2 svcs')" "build_ok s" for ks s
    using 2 that by (cases ks) (auto simp: services_ok_def intro!: emit_service_ok)
  have "build_ok (fold (\<lambda>(_, service). emit_service heap' service) (ord2 svcs') ([], empty_state))"
    by (rule fold_invariant [where P = build_ok, OF _ step]) (simp_all add: build_ok_def parsed_ok_def all_names_def empty_state_def)
  then show ?thesis by (simp add: build_ok_def b(3))
qed

section \<open>The parsed configuration as a target\<close>

lemma toStable_pairs:
  "mset (api_pairs (toStable p)) = mset (map (\<lambda>a. (API_ID (pAPI a), API_Name (pAPI a))) (ps_APIs p))"
  "mset (cluster_pairs (toStable p)) = mset (map (\<lambda>c. (Cluster_ID (pCluster c), Cluster_Name (pCluster c))) (ps_Clusters p))"
  "mset (routing_pairs (toStable p)) = mset (map (\<lambda>r. (Routing_ID (pRouting r), Routing_Name (pRouting r))) (ps_Routings p))"
  "mset (server_pairs (toStable p)) = mset (map (\<lambda>s. (Server_ID (pServer s), Server_Addr (pServer s))) (ps_Servers p))"
  by (simp_all add: pairs_defs toStable_def stable_API_def multiset.map_comp o_def)

lemma pairs_ok_mset:
  assumes "mset ps = mset (map h xs)" and "distinct (map (\<lambda>x. snd (h x)) xs)" and "list_all (\<lambda>x. fst (h x) = 0 \<and> named (snd (h x))) xs"
  shows "list_all (\<lambda>(i, n). i = 0 \<and> named n) ps \<and> distinct (map snd ps)"
proof -
  have "set ps = h ` set xs" using mset_eq_setD [OF assms(1)] by simp
  moreover have "mset (map snd ps) = mset (map (\<lambda>x. snd (h x)) xs)" by (simp add: assms(1) multiset.map_comp o_def)
  from mset_eq_imp_distinct_iff [OF this] assms(2) have "distinct (map snd ps)" by blast
  ultimately show ?thesis using assms(3) by (auto simp: list_all_iff)
qed

lemma distinct_binds:
  assumes "distinct (map cname cs)" and "\<forall>c\<in>set cs. distinct (addrs c)"
  shows "distinct (concat (map (\<lambda>c. map (Pair (cname c)) (addrs c)) cs))"
  using assms by (induction cs) (auto simp: distinct_map inj_on_def)

lemma parsed_target_ok:
  assumes "parsed_ok p" and "\<forall>c\<in>set (ps_Clusters p). distinct (map (\<lambda>s. Server_Addr (pServer s)) (pCluster_Servers c))"
  shows "target_ok (toStable p)"
proof -
  have d: "distinct (map (\<lambda>a. API_Name (pAPI a)) (ps_APIs p))" "distinct (map (\<lambda>c. Cluster_Name (pCluster c)) (ps_Clusters p))"
      "distinct (map (\<lambda>r. Routing_Name (pRouting r)) (ps_Routings p))" "distinct (map (\<lambda>s. Server_Addr (pServer s)) (ps_Servers p))"
    using assms(1) by (simp_all add: parsed_ok_def all_names_def)
  have l: "list_all (\<lambda>a. API_ID (pAPI a) = 0 \<and> named (API_Name (pAPI a))) (ps_APIs p)"
      "list_all (\<lambda>c. Cluster_ID (pCluster c) = 0 \<and> named (Cluster_Name (pCluster c))) (ps_Clusters p)"
      "list_all (\<lambda>r. Routing_ID (pRouting r) = 0 \<and> named (Routing_Name (pRouting r))) (ps_Routings p)"
      "list_all (\<lambda>s. Server_ID (pServer s) = 0 \<and> named (Server_Addr (pServer s))) (ps_Servers p)"
    using assms(1) by (auto simp: parsed_ok_def ok_defs list_all_iff)
  have "mset (map (\<lambda>b. (dBind_ClusterName b, dBind_ServerAddr b)) (raw_Binds (toStable p))) =
      mset (concat (map (\<lambda>c. map (Pair (Cluster_Name (pCluster c))) (map (\<lambda>s. Server_Addr (pServer s)) (pCluster_Servers c))) (ps_Clusters p)))"
    unfolding mset_map [of _ "raw_Binds (toStable p)"]
    by (simp add: toStable_def flip: mset_map) (simp add: map_concat cluster_binds_def o_def)
  with distinct_binds [OF d(2) assms(2)] have "distinct (map (\<lambda>b. (dBind_ClusterName b, dBind_ServerAddr b)) (raw_Binds (toStable p)))"
    using mset_eq_imp_distinct_iff by blast
  moreover have "list_all (\<lambda>b. dBind b = None) (raw_Binds (toStable p))"
    by (auto simp: toStable_def cluster_binds_def list_all_iff)
  moreover have "list_all (\<lambda>ps. list_all (\<lambda>(i, n). i = 0 \<and> named n) ps \<and> distinct (map snd ps)) (all_pairs (toStable p))"
    using pairs_ok_mset [OF toStable_pairs(1)] pairs_ok_mset [OF toStable_pairs(2)] pairs_ok_mset [OF toStable_pairs(3)]
      pairs_ok_mset [OF toStable_pairs(4)] d l by (simp add: all_pairs_def)
  ultimately show ?thesis by (simp add: target_ok_def)
qed

end
