(* ===== verification/Endpoint_Laws.thy ===== *)
theory Endpoint_Laws
  imports Parser_Laws
begin

text \<open>
  The addresses of a cluster: which endpoints \<open>getEndpoints\<close> returns, how the rate limit is divided, and
  the validations of a route.
\<close>

section \<open>getEndpoints\<close>

definition portlike :: "string \<Rightarrow> bool" where
  "portlike s \<longleftrightarrow> CHR '':'' \<notin> set s"

lemma portlike_itoa: "portlike (itoa i)"
proof -
  have "list_all id_char (itoa i)" using utoa_chars by (simp add: itoa_def id_char_def [of "CHR ''-''"])
  moreover have "\<not> id_char (CHR '':'')" by (simp add: id_char_def)
  ultimately show ?thesis by (auto simp: portlike_def list_all_iff)
qed

lemma Endpoint_String_inj:
  assumes "portlike (Endpoint_Port e)" "portlike (Endpoint_Port f)" "Endpoint_String e = Endpoint_String f"
  shows "e = f"
proof -
  have "rev (Endpoint_Port e) @ CHR '':'' # rev (Endpoint_Address e) = rev (Endpoint_Port f) @ CHR '':'' # rev (Endpoint_Address f)"
    using arg_cong [OF assms(3), of rev] by (simp add: Endpoint_String_def)
  then have "rev (Endpoint_Port e) = rev (Endpoint_Port f) \<and> rev (Endpoint_Address e) = rev (Endpoint_Address f)"
    using assms(1,2) by (intro append_sep_inj) (auto simp: portlike_def)
  then show ?thesis by simp
qed

definition ups_ok :: "Endpoint list \<Rightarrow> bool" where
  "ups_ok ups \<longleftrightarrow> distinct (map Endpoint_String ups) \<and> (\<forall>e\<in>set ups. portlike (Endpoint_Port e))"

lemma add_address_ok:
  assumes "ups_ok ups" and "portlike p"
  shows "ups_ok (add_address p ip ups)" and "set (add_address p ip ups) = insert \<lparr>Endpoint_Address = ip, Endpoint_Port = p\<rparr> (set ups)"
proof -
  let ?e = "\<lparr>Endpoint_Address = ip, Endpoint_Port = p\<rparr>"
  have "?e \<in> set ups" if "Endpoint_String ?e \<in> set (map Endpoint_String ups)"
  proof -
    obtain f where "f \<in> set ups" "Endpoint_String ?e = Endpoint_String f" using \<open>Endpoint_String ?e \<in> _\<close> by auto
    moreover from this have "?e = f" using assms by (intro Endpoint_String_inj) (auto simp: ups_ok_def)
    ultimately show ?thesis by simp
  qed
  with assms show "ups_ok (add_address p ip ups)" "set (add_address p ip ups) = insert ?e (set ups)"
    by (auto simp: add_address_def ups_ok_def Let_def)
qed

lemma add_addresses_ok:
  assumes "ups_ok ups" and "portlike p"
  shows "ups_ok (fold (add_address p) ips ups) \<and>
    set (fold (add_address p) ips ups) = set ups \<union> (\<lambda>ip. \<lparr>Endpoint_Address = ip, Endpoint_Port = p\<rparr>) ` set ips"
  using assms(1)
proof (induction ips arbitrary: ups)
  case (Cons ip ips)
  from Cons.IH [OF add_address_ok(1) [OF Cons.prems assms(2)]] add_address_ok(2) [OF Cons.prems assms(2)] show ?case by auto
qed simp

text \<open>The addresses a port of a subset stands for.\<close>

definition port_endpoints :: "ServicePort \<Rightarrow> Protocol \<Rightarrow> string list \<Rightarrow> EndpointPort \<Rightarrow> Endpoint set" where
  "port_endpoints port proto ips q = {\<lparr>Endpoint_Address = ip, Endpoint_Port = itoa (sint (ep_Port q))\<rparr> | ip. ip \<in> set ips \<and>
     ep_Protocol q = proto \<and> (sp_Name port = [] \<or> sp_Name port = ep_Name q) \<and> 0 < sint (ep_Port q)}"

lemma add_port_ok:
  assumes "ups_ok ups"
  shows "ups_ok (add_port port proto ips q ups)" and "set (add_port port proto ips q ups) = set ups \<union> port_endpoints port proto ips q"
  using add_addresses_ok [OF assms portlike_itoa, of "sint (ep_Port q)" ips] assms
  by (auto simp: add_port_def endpoint_port_def port_endpoints_def Let_def split: if_splits)

lemma fold_union:
  assumes "\<And>x s. x \<in> set xs \<Longrightarrow> P s \<Longrightarrow> P (f x s) \<and> set (f x s) = set s \<union> g x" and "P s"
  shows "P (fold f xs s) \<and> set (fold f xs s) = set s \<union> (\<Union>x\<in>set xs. g x)"
  using assms
proof (induction xs arbitrary: s)
  case (Cons x xs)
  have x: "P (f x s)" "set (f x s) = set s \<union> g x" using Cons.prems by auto
  from Cons.IH [OF _ x(1)] Cons.prems(1) x(2) show ?case by auto
qed simp

lemma getEndpoints_fold:
  "ups_ok (fold (\<lambda>ss. fold (add_port port proto (es_Addresses ss)) (es_Ports ss)) sss []) \<and>
    set (fold (\<lambda>ss. fold (add_port port proto (es_Addresses ss)) (es_Ports ss)) sss []) =
      (\<Union>ss\<in>set sss. \<Union>q\<in>set (es_Ports ss). port_endpoints port proto (es_Addresses ss) q)"
proof -
  have inner: "ups_ok (fold (add_port port proto (es_Addresses ss)) (es_Ports ss) ups) \<and>
      set (fold (add_port port proto (es_Addresses ss)) (es_Ports ss) ups) = set ups \<union>
        (\<Union>q\<in>set (es_Ports ss). port_endpoints port proto (es_Addresses ss) q)" if "ups_ok ups" for ss ups
    by (rule fold_union [where P = ups_ok]) (use that add_port_ok in auto)
  from fold_union [where P = ups_ok and f = "\<lambda>ss. fold (add_port port proto (es_Addresses ss)) (es_Ports ss)" and
      g = "\<lambda>ss. \<Union>q\<in>set (es_Ports ss). port_endpoints port proto (es_Addresses ss) q", OF inner, of sss "[]"]
  show ?thesis by (simp add: ups_ok_def)
qed

text \<open>
  C19. \<open>getEndpoints\<close> of a service that is not external returns every address of every subset with every
  port of the protocol that has the name of the service port, or any name when that is empty, and a
  positive number; each address and port once, and nothing else.
\<close>

theorem getEndpoints_exact:
  assumes "svc_Type s \<noteq> ServiceTypeExternalName" and "get (meta_Namespace (svc_Meta s)) (meta_Name (svc_Meta s)) = Ok ep"
  shows "\<exists>es. getEndpoints s port proto get = Ok es \<and> distinct (map Endpoint_String es) \<and>
    set es = (\<Union>ss\<in>set (eps_Subsets ep). \<Union>q\<in>set (es_Ports ss). port_endpoints port proto (es_Addresses ss) q)"
  using assms getEndpoints_fold [of port proto "eps_Subsets ep"] by (auto simp: getEndpoints_def ups_ok_def)

definition sample_meta :: "string \<Rightarrow> ObjectMeta" where
  "sample_meta name = \<lparr>meta_Name = name, meta_Namespace = ''ns'', meta_Annotations = [], meta_Labels = [], meta_CreationTimestamp = 0\<rparr>"

definition sample_svc :: "string \<Rightarrow> Service" where
  "sample_svc name = \<lparr>svc_Meta = sample_meta name, svc_Ports = [\<lparr>sp_Name = [], sp_Protocol = ProtocolTCP, sp_Port = 80, sp_TargetPort = IntVal 80\<rparr>],
     svc_Type = ServiceTypeClusterIP, svc_ExternalName = [], svc_ExternalIPs = [], svc_LoadBalancer = []\<rparr>"

definition sample_eps :: "string list \<Rightarrow> Endpoints" where
  "sample_eps ips = \<lparr>eps_Meta = sample_meta ''s'', eps_Subsets = [\<lparr>es_Addresses = ips,
     es_Ports = [\<lparr>ep_Name = ''http'', ep_Port = 80, ep_Protocol = ProtocolTCP\<rparr>, \<lparr>ep_Name = ''dns'', ep_Port = 53, ep_Protocol = ProtocolUDP\<rparr>]\<rparr>]\<rparr>"

theorem getEndpoints_exact_witness:
  "\<exists>es. getEndpoints (sample_svc ''s'') zero_port ProtocolTCP (\<lambda>ns name. Ok (sample_eps [''10.0.0.1'', ''10.0.0.2'', ''10.0.0.1''])) = Ok es \<and>
    distinct (map Endpoint_String es) \<and> card (set es) = 2"
proof -
  obtain es where es: "getEndpoints (sample_svc ''s'') zero_port ProtocolTCP (\<lambda>ns name. Ok (sample_eps [''10.0.0.1'', ''10.0.0.2'', ''10.0.0.1''])) = Ok es"
      "distinct (map Endpoint_String es)"
    using getEndpoints_exact [of "sample_svc ''s''" "\<lambda>ns name. Ok (sample_eps [''10.0.0.1'', ''10.0.0.2'', ''10.0.0.1''])"
      "sample_eps [''10.0.0.1'', ''10.0.0.2'', ''10.0.0.1'']" zero_port ProtocolTCP] by (auto simp: sample_svc_def)
  have "map_option (\<lambda>es. (map Endpoint_String es, length es)) (case getEndpoints (sample_svc ''s'') zero_port ProtocolTCP
      (\<lambda>ns name. Ok (sample_eps [''10.0.0.1'', ''10.0.0.2'', ''10.0.0.1''])) of Ok es \<Rightarrow> Some es | _ \<Rightarrow> None) =
      Some ([''10.0.0.1:80'', ''10.0.0.2:80''], 2)" by code_simp
  then have "length es = 2" by (simp add: es(1))
  moreover have "distinct es" using es(2) by (simp add: distinct_map)
  ultimately show ?thesis using es by (auto simp: distinct_card)
qed

section \<open>The rate limit\<close>

text \<open>
  The limit of a cluster is divided evenly: below \<open>2 ^ 63\<close> the servers together get at most the limit
  of the cluster and less than one request per server below it, and every share is positive when the
  limit is at least the number of servers.
\<close>

theorem server_qps_bounds:
  assumes "0 < n" and "uint maxQPS < 2 ^ 63"
  shows "int n * sint (server_qps maxQPS n) \<le> uint maxQPS \<and> uint maxQPS < int n * (sint (server_qps maxQPS n) + 1) \<and>
    0 \<le> sint (server_qps maxQPS n)"
proof -
  have s: "sint maxQPS = uint maxQPS"
    using assms(2) by (simp add: sint_uint signed_take_bit_int_eq_self_iff)
      (rule order_trans [OF _ uint_ge_0], simp)
  let ?q = "uint maxQPS div int n" and ?r = "uint maxQPS mod int n"
  have eq: "uint maxQPS = int n * ?q + ?r" by simp
  have r: "0 \<le> ?r" "?r < int n" using assms(1) by simp_all
  have q0: "0 \<le> ?q" using assms(1) by (simp add: pos_imp_zdiv_nonneg_iff)
  have "1 * ?q \<le> int n * ?q" using assms(1) q0 by (intro mult_right_mono) auto
  with eq r(1) assms(2) have q1: "?q < 2 ^ 63" by linarith
  have "sint (server_qps maxQPS n) = ?q"
    unfolding server_qps_def go_div_def s using q0 q1
    by (simp add: signed_of_int signed_take_bit_int_eq_self)
  moreover have "int n * ?q \<le> uint maxQPS" using eq r(1) by linarith
  moreover have "uint maxQPS < int n * (?q + 1)" unfolding distrib_left using eq r(2) by linarith
  ultimately show ?thesis using q0 by simp
qed

theorem server_qps_bounds_witness:
  "int 3 * sint (server_qps 10 3) \<le> uint (10 :: uint64) \<and> uint (10 :: uint64) < int 3 * (sint (server_qps 10 3) + 1) \<and> 0 \<le> sint (server_qps 10 3)"
  by (rule server_qps_bounds) simp_all

section \<open>Validations\<close>

text \<open>What \<open>sort.Slice\<close> promises whatever the comparison: it permutes its slice.\<close>

locale slice_sort =
  fixes sort_Slice :: sort_Slice
  assumes permutes: "mset (sort_Slice lt xs) = mset xs"
begin

lemma ToManbaValidations_mset:
  "mset (ToManbaValidations E sort_Slice (Some v)) =
    mset (parse_validations Cookie (rm_Cookie v)) + mset (parse_validations FormData (rm_FormData v)) +
    mset (parse_validations Header (rm_Header v)) + mset (parse_validations JSONBody (rm_JSONBody v)) +
    mset (parse_validations QueryString (rm_Query v)) + mset (parse_validations PathValue (rm_PathValue v))"
  by (simp add: ToManbaValidations_def permutes)

end

interpretation stable: slice_sort SliceStable
  by unfold_locales simp

definition source_data :: "ManbaHTTPRouteMatch \<Rightarrow> Source \<Rightarrow> (string \<times> string) list" where
  "source_data v src = (case src of QueryString \<Rightarrow> rm_Query v | FormData \<Rightarrow> rm_FormData v | JSONBody \<Rightarrow> rm_JSONBody v
     | Header \<Rightarrow> rm_Header v | Cookie \<Rightarrow> rm_Cookie v | PathValue \<Rightarrow> rm_PathValue v)"

lemma parse_validations_iff:
  "x \<in> set (parse_validations src data) \<longleftrightarrow> (\<exists>k r. (k, r) \<in> set data \<and> x = \<lparr>Val_Parameter = \<lparr>Param_Name = k, Param_Source = src\<rparr>,
    Val_Required = True, Val_Rules = [\<lparr>Rule_RuleType = RuleRegexp, Rule_Expression = r\<rparr>]\<rparr>)"
  by (auto simp: parse_validations_def image_iff split: prod.splits)

context slice_sort
begin

lemma in_ToManbaValidations:
  "x \<in> set (ToManbaValidations E sort_Slice (Some v)) \<longleftrightarrow> (\<exists>src. x \<in> set (parse_validations src (source_data v src)))"
  unfolding set_mset_mset [symmetric] ToManbaValidations_mset
  by (auto simp: source_data_def split: Source.splits) (metis Source.exhaust)

end

text \<open>
  The validations of a route are exactly its conditions: one required regular expression for every
  entry of every source, whatever order \<open>sort.Slice\<close> leaves them in.
\<close>

theorem ToManbaValidations_complete:
  assumes "slice_sort sort_Slice"
  shows "x \<in> set (ToManbaValidations E sort_Slice (Some v)) \<longleftrightarrow> (\<exists>src k r. (k, r) \<in> set (source_data v src) \<and>
    x = \<lparr>Val_Parameter = \<lparr>Param_Name = k, Param_Source = src\<rparr>, Val_Required = True,
      Val_Rules = [\<lparr>Rule_RuleType = RuleRegexp, Rule_Expression = r\<rparr>]\<rparr>)"
  by (simp add: slice_sort.in_ToManbaValidations [OF assms] parse_validations_iff)

definition sample_enums :: pb_enums where
  "sample_enums = \<lparr>Source_num = (\<lambda>s. case s of Header \<Rightarrow> 1 | _ \<Rightarrow> 0), MatchRule_value = [''MatchAll'' \<mapsto> 1], LoadBalance_value = [''IPHash'' \<mapsto> 1]\<rparr>"

definition sample_match :: ManbaHTTPRouteMatch where
  "sample_match = \<lparr>rm_Cookie = [], rm_Query = [(''q'', ''.*'')], rm_JSONBody = [], rm_Header = [(''h'', ''x'')], rm_PathValue = [], rm_FormData = []\<rparr>"

theorem ToManbaValidations_complete_witness:
  "\<lparr>Val_Parameter = \<lparr>Param_Name = ''h'', Param_Source = Header\<rparr>, Val_Required = True,
      Val_Rules = [\<lparr>Rule_RuleType = RuleRegexp, Rule_Expression = ''x''\<rparr>]\<rparr> \<in>
    set (ToManbaValidations sample_enums SliceStable (Some sample_match))"
  unfolding ToManbaValidations_complete [OF stable.slice_sort_axioms]
  by (rule exI [of _ Header]) (simp add: source_data_def sample_match_def)

end
