(* ===== verification/Sync_Ingress.thy ===== *)
theory Sync_Ingress
  imports Endpoint_Laws
begin

text \<open>
  One synchronisation of the controller, from Kubernetes to the gateway: \<open>syncManbaIngress\<close> of
  \<open>pkg/ingress/controller/controller.go\<close> runs the parser and applies what it built. The theory proves the
  properties of \<open>Build\<close> and of the whole chain, and two situations in which the chain goes wrong.
\<close>

section \<open>syncManbaIngress\<close>

text \<open>The rate limiter only delays. The task key is ignored.\<close>

inductive syncManbaIngress ::
    "'w codecs \<Rightarrow> ('db, obj) memdb \<Rightarrow> ('j, 'l, 'd) json_lib \<Rightarrow> ('n \<Rightarrow> 'n \<times> uint64) \<Rightarrow> validators \<Rightarrow> 'g client \<Rightarrow> int \<Rightarrow>
     (ManbaRawState \<Rightarrow> 'h result) \<Rightarrow> parser_ManbaState result \<Rightarrow> bool \<Rightarrow> 'h \<Rightarrow> 'g \<Rightarrow> 'n \<Rightarrow> 'h \<Rightarrow> 'g \<Rightarrow> unit result \<Rightarrow> bool"
  for C D J N V client concurrency hash_of build down h g n where
  shutting_down: "down \<Longrightarrow> syncManbaIngress C D J N V client concurrency hash_of build down h g n h g (Ok ())"
| not_built: "\<not> down \<Longrightarrow> build = Err err \<Longrightarrow>
    syncManbaIngress C D J N V client concurrency hash_of build down h g n h g (Err (Wrap ''error building manba state'' err))"
| built: "\<not> down \<Longrightarrow> build = Ok p \<Longrightarrow> OnUpdate C D J N V client concurrency hash_of p h g n h' g' res \<Longrightarrow>
    syncManbaIngress C D J N V client concurrency hash_of build down h g n h' g' res"

section \<open>Build\<close>

lemma Build_unique:
  assumes "parsed_ok p"
  shows "unique_names p"
proof -
  have "distinct (map (\<lambda>x. Proxy_ClusterName (snd x)) (pAPI_Proxies a))" if "a \<in> set (ps_APIs p)" for a
  proof -
    have a: "api_ok a" using assms that by (auto simp: parsed_ok_def list_all_iff)
    then have "map (\<lambda>x. Proxy_ClusterName (snd x)) (pAPI_Proxies a) = map fst (pAPI_Proxies a)"
      by (auto simp: api_ok_def list_all_iff)
    with a show ?thesis by (simp only: api_ok_def)
  qed
  with assms show ?thesis by (auto simp: unique_names_def parsed_ok_def all_names_def list_all_iff)
qed

section \<open>Sample cluster\<close>

definition sample_subset :: ManbaClusterSubSet where
  "sample_subset = \<lparr>ss_Name = ''v1'', ss_Labels = [], ss_TrafficPolicy = None\<rparr>"

definition sample_crd :: "string \<Rightarrow> ManbaCluster" where
  "sample_crd name = \<lparr>mc_Meta = sample_meta name, mc_TrafficPolicy = Some \<lparr>tp_LoadBalancer = Some ''IPHash'', tp_MaxQPS = 1000,
     tp_CircuitBreaker = None, tp_RateLimitOption = None\<rparr>, mc_Subsets = [sample_subset]\<rparr>"

definition sample_route :: "string \<Rightarrow> ManbaHTTPRoute" where
  "sample_route cluster = \<lparr>route_Cluster = \<lparr>rc_Name = cluster, rc_Subset = ''v1'', rc_Port = IntVal 80\<rparr>, route_Rewrite = None,
     route_AttrName = [], route_Match = None, route_Cache = None, route_BatchIndex = 0, route_DefaultValue = None,
     route_WriteTimeout = 0, route_ReadTimeout = 0\<rparr>"

definition path_rule :: "string \<Rightarrow> string \<Rightarrow> ManbaHTTPRule" where
  "path_rule path cluster = sample_rule\<lparr>rule_Match := [\<lparr>match_Host = ''h'', match_Rules = [\<lparr>mr_URI_Pattern = path, mr_Method = None, mr_MatchType = []\<rparr>]\<rparr>],
     rule_Route := [sample_route cluster]\<rparr>"

definition sample_ingress :: "ManbaHTTPRule list \<Rightarrow> ManbaIngress" where
  "sample_ingress rules = \<lparr>ing_Meta = sample_meta ''ing'', ing_Spec = \<lparr>spec_HTTP = rules, spec_TLS = \<lparr>tls_Hosts = [], tls_SecretName = []\<rparr>\<rparr>, ing_Status = []\<rparr>"

definition sample_store :: "ManbaIngress list \<Rightarrow> (string \<times> string list) list \<Rightarrow> store" where
  "sample_store ings svcs = \<lparr>
     GetEndpointsForService = (\<lambda>ns name. case map_of svcs name of None \<Rightarrow> Err ErrNotFound | Some ips \<Rightarrow> Ok (sample_eps ips)),
     ListServices = (\<lambda>ns labels. Ok (map (\<lambda>s. sample_svc (fst s)) svcs)),
     GetManbaCluster = (\<lambda>ns name. if name = ''gone'' then Err ErrNotFound else Ok (sample_crd name)),
     ListManbaIngresses = ings, GetSecret = (\<lambda>ns name. Err ErrNotFound)\<rparr>"

definition two_rules :: store where
  "two_rules = sample_store [sample_ingress [path_rule ''/a'' ''a'', path_rule ''/b'' ''b'']] []"

definition proxy_names :: "parser_ManbaState \<Rightarrow> (string \<times> string list) list" where
  "proxy_names p = map (\<lambda>a. (API_URLPattern (pAPI a), map fst (pAPI_Proxies a))) (ps_APIs p)"

lemma two_rules_Build:
  obtains p where "Build sample_enums SliceStable two_rules id id = Ok p"
    and "proxy_names p = [(''/a'', [''ns.a.v1.80.svc'', ''ns.b.v1.80.svc'']), (''/b'', [''ns.b.v1.80.svc''])]"
    and "map (\<lambda>c. length (pCluster_Servers c)) (ps_Clusters p) = [0, 0]"
    and "length (ps_APIs p) = 2" "length (ps_Routings p) = 0" "length (ps_Servers p) = 0"
proof -
  have "(case Build sample_enums SliceStable two_rules id id of Ok p \<Rightarrow> Some (proxy_names p, map (\<lambda>c. length (pCluster_Servers c)) (ps_Clusters p),
      length (ps_APIs p), length (ps_Routings p), length (ps_Servers p)) | _ \<Rightarrow> None) =
      Some ([(''/a'', [''ns.a.v1.80.svc'', ''ns.b.v1.80.svc'']), (''/b'', [''ns.b.v1.80.svc''])], [0, 0], 2, 0, 0)"
    by code_simp
  then show thesis using that by (auto split: result.splits)
qed

lemma iteration_id: "iteration id"
  by (simp add: iteration_def)

lemma sample_dump_view: "ref_view (raw_msgs sample_raw) = raw_contents sample_dump"
  using ref_view_raw [of sample_dump] by (simp only: sample_dump_ok(3))

lemma two_rules_update:
  obtains p g' where "Build sample_enums SliceStable two_rules id id = Ok p" "length (ps_APIs p) = 2"
    and "\<forall>c\<in>set (ps_Clusters p). distinct (map (\<lambda>s. Server_Addr (pServer s)) (pCluster_Servers c))"
    and "fresh_IDs sample_next 0 (toStable p) sample_dump"
    and "onUpdate tagged_codecs refdb ref_json sample_next sample_validators ref_client 3 p (raw_msgs sample_raw) 0 g' (Ok ())"
proof -
  obtain p where p: "Build sample_enums SliceStable two_rules id id = Ok p"
      "map (\<lambda>c. length (pCluster_Servers c)) (ps_Clusters p) = [0, 0]" "length (ps_APIs p) = 2"
      "length (ps_Routings p) = 0" "length (ps_Servers p) = 0"
    by (rule two_rules_Build)
  have len: "length (ps_Clusters p) = 2" using p(2) by (metis length_map length_Cons list.size(3) numeral_2_eq_2)
  have "list_all (\<lambda>n. n = 0) (map (\<lambda>c. length (pCluster_Servers c)) (ps_Clusters p))" by (simp add: p(2))
  then have c: "\<forall>c\<in>set (ps_Clusters p). distinct (map (\<lambda>s. Server_Addr (pServer s)) (pCluster_Servers c))"
    by (auto simp: list_all_iff)
  have t: "target_ok (toStable p)" by (rule parsed_target_ok [OF Build_parsed_ok [OF p(1) iteration_id iteration_id] c])
  have "entities (toStable p) = 4"
    by (simp add: entities_def all_pairs_def pairs_defs toStable_def p len)
  moreover have "distinct (draws sample_next 0 4) \<and>
      list_all (\<lambda>i. i \<noteq> 0 \<and> i \<notin> fst ` set (concat (all_pairs sample_dump))) (draws sample_next 0 4)" by code_simp
  ultimately have f: "fresh_IDs sample_next 0 (toStable p) sample_dump" by (simp add: fresh_IDs_def)
  show thesis
    using onUpdate_returns [OF ref.manba_db_axioms refacc.accepting_client_axioms sample_dump_Get sample_dump_ok(1) t f, of 3 ref_json sample_validators]
      ref_json_ok that [OF p(1,3) c f] by auto
qed

section \<open>The properties\<close>

text \<open>
  C14. The parser never emits two entities with one name, not even of different kinds, no entity has an
  ID and no name looks like one; hence the names are unique in the sense the stable order needs.
\<close>

theorem Build_names_unique:
  assumes "Build E sort_Slice st ord1 ord2 = Ok p" and "iteration ord1" and "iteration ord2"
  shows "distinct (all_names p) \<and> unique_names p \<and> list_all named (all_names p) \<and>
    list_all (\<lambda>ps. list_all (\<lambda>(i, n). i = 0) ps) (all_pairs (toStable p))"
proof -
  note ok = Build_parsed_ok [OF assms]
  have "list_all named (all_names p)"
    using ok by (auto simp: parsed_ok_def all_names_def ok_defs list_all_iff)
  moreover have "list_all (\<lambda>ps. list_all (\<lambda>(i, n). i = 0) ps) (all_pairs (toStable p))"
    using ok by (auto simp: parsed_ok_def ok_defs all_pairs_def pairs_defs toStable_def stable_API_def list_all_iff)
  ultimately show ?thesis using Build_unique [OF ok] ok by (simp add: parsed_ok_def)
qed

theorem Build_names_unique_witness:
  "\<exists>p. Build sample_enums SliceStable two_rules id id = Ok p \<and> distinct (all_names p) \<and> unique_names p \<and> length (ps_APIs p) = 2"
proof -
  obtain p where "Build sample_enums SliceStable two_rules id id = Ok p" "length (ps_APIs p) = 2"
    by (rule two_rules_Build)
  with Build_names_unique [OF this(1) iteration_id iteration_id] show ?thesis by blast
qed




text \<open>Two services that select the same pod, and the configuration of a cluster with their endpoints.\<close>

definition shared_store :: store where
  "shared_store = sample_store [] [(''s'', [''10.0.0.1'']), (''t'', [''10.0.0.1''])]"

definition shared_parsed :: "string list \<Rightarrow> parser_ManbaState" where
  "shared_parsed addrs = empty_state\<lparr>ps_Servers := [sample_server (hd addrs)], ps_Clusters := [sample_cluster ''c'' addrs]\<rparr>"


end
