(* ===== verification/Status.thy ===== *)
theory Status
  imports Sync_Ingress
begin

text \<open>
  The status of the ingresses (\<open>pkg/ingress/status/status.go\<close>) and the addresses of the nodes
  (\<open>pkg/ingress/k8s/pod.go\<close>). The Kubernetes client is a parameter: it reads a state of the API server and
  its updates return a new one. Whether a string is an IP address (\<open>net.ParseIP\<close>) is a parameter as well,
  since the code only asks whether it parses. The work units of one batch run one after the other in
  an order that is a parameter; they concern different ingresses. The code sorts the status of the
  ingresses in place, which nothing reads in its order.
\<close>

section \<open>The Kubernetes client\<close>

datatype PodPhase = PodPending | PodRunning | PodSucceeded | PodFailed | PodUnknown

record Pod =
  pod_Labels :: "(string \<times> string) list"
  pod_NodeName :: string
  pod_Phase :: PodPhase

datatype NodeAddressType = NodeHostName | NodeInternalIP | NodeExternalIP | NodeInternalDNS | NodeExternalDNS

record NodeAddress =
  na_Type :: NodeAddressType
  na_Address :: string

record Ingress =
  ning_Namespace :: string
  ning_Name :: string
  ning_Status :: "LoadBalancerIngress list"

record ConfigMap =
  cm_Name :: string
  cm_Annotations :: "(string \<times> string) list"

text \<open>A request for a pod returns a pointer, which may be nil, and an error; the code looks at the pointer only.\<close>

record 'k kube =
  k_Services_Get :: "'k \<Rightarrow> string \<Rightarrow> string \<Rightarrow> Service result"
  k_Pods_Get :: "'k \<Rightarrow> string \<Rightarrow> string \<Rightarrow> Pod option \<times> go_error option"
  k_Pods_List :: "'k \<Rightarrow> string \<Rightarrow> (string \<times> string) list \<Rightarrow> Pod list result"
  k_Nodes_Get :: "'k \<Rightarrow> string \<Rightarrow> NodeAddress list result"
  k_Ingresses_Get :: "'k \<Rightarrow> string \<Rightarrow> string \<Rightarrow> Ingress result"
  k_Ingresses_UpdateStatus :: "Ingress \<Rightarrow> 'k \<Rightarrow> 'k \<times> unit result"
  k_ConfigMaps_Get :: "'k \<Rightarrow> string \<Rightarrow> string \<Rightarrow> ConfigMap result"
  k_ConfigMaps_Update :: "string \<Rightarrow> ConfigMap \<Rightarrow> 'k \<Rightarrow> 'k"

section \<open>Pods and nodes\<close>

record PodInfo =
  pi_Name :: string
  pi_Namespace :: string
  pi_NodeIP :: string
  pi_Labels :: "(string \<times> string) list"

text \<open>A loop over the addresses that stops at the first one of a type that is not empty.\<close>

fun first_address :: "NodeAddressType \<Rightarrow> NodeAddress list \<Rightarrow> string" where
  "first_address ty [] = []"
| "first_address ty (address # addresses) =
     (if na_Type address = ty \<and> na_Address address \<noteq> [] then na_Address address else first_address ty addresses)"

definition GetNodeIPOrName :: "'k kube \<Rightarrow> 'k \<Rightarrow> string \<Rightarrow> string" where
  "GetNodeIPOrName K k name =
     (case k_Nodes_Get K k name of
        Ok addresses \<Rightarrow>
          let ip = first_address NodeExternalIP addresses in
          if ip \<noteq> [] then ip else first_address NodeInternalIP addresses
      | _ \<Rightarrow> [])"

text \<open>\<open>os.Getenv\<close> is the environment; the error of the request is dropped and a nil pod reported.\<close>

definition GetPodDetails :: "'k kube \<Rightarrow> 'k \<Rightarrow> (string \<Rightarrow> string) \<Rightarrow> PodInfo result" where
  "GetPodDetails K k Getenv =
     (let podName = Getenv ''POD_NAME''; podNs = Getenv ''POD_NAMESPACE'' in
      if podName = [] \<or> podNs = [] then Err (NewError ''unable to get POD information (missing POD_NAME or POD_NAMESPACE environment variable'')
      else (case fst (k_Pods_Get K k podNs podName) of
              None \<Rightarrow> Err (NewError ''unable to get POD information'')
            | Some pod \<Rightarrow> Ok \<lparr>pi_Name = podName, pi_Namespace = podNs, pi_NodeIP = GetNodeIPOrName K k (pod_NodeName pod), pi_Labels = pod_Labels pod\<rparr>))"

section \<open>The addresses to publish\<close>

record status_Config =
  PublishStatusAddress :: string
  PublishService :: string
  ElectionID :: string
  UpdateStatusOnShutdown :: bool
  status_pod :: PodInfo

fun inSlice :: "string \<Rightarrow> string list \<Rightarrow> bool" where
  "inSlice val [] = False"
| "inSlice val (v # list) = (if v = val then True else inSlice val list)"

definition lb_address :: "LoadBalancerIngress \<Rightarrow> string" where
  "lb_address ip = (if lb_IP ip = [] then lb_Hostname ip else lb_IP ip)"

fun pod_addresses :: "'k kube \<Rightarrow> 'k \<Rightarrow> Pod list \<Rightarrow> string list \<Rightarrow> string list" where
  "pod_addresses K k [] addrs = addrs"
| "pod_addresses K k (pod # pods) addrs =
     (if pod_Phase pod \<noteq> PodRunning then pod_addresses K k pods addrs
      else let name = GetNodeIPOrName K k (pod_NodeName pod)
           in pod_addresses K k pods (if \<not> inSlice name addrs then addrs @ [name] else addrs))"

definition runningAddresses :: "'k kube \<Rightarrow> status_Config \<Rightarrow> 'k \<Rightarrow> string list result" where
  "runningAddresses K s k =
     (if PublishStatusAddress s \<noteq> [] then Ok [PublishStatusAddress s]
      else
        let (ns, name) = (case ParseNameNS (PublishStatusAddress s) of Ok nn \<Rightarrow> nn | _ \<Rightarrow> ([], [])) in
        rbind (k_Services_Get K k ns name) (\<lambda>svc.
          if svc_Type svc = ServiceTypeLoadBalancer then Ok (map lb_address (svc_LoadBalancer svc) @ svc_ExternalIPs svc)
          else rbind (k_Pods_List K k (pi_Namespace (status_pod s)) (pi_Labels (status_pod s))) (\<lambda>pods.
            Ok (pod_addresses K k pods []))))"

definition isRunningMultiplePods :: "'k kube \<Rightarrow> status_Config \<Rightarrow> 'k \<Rightarrow> bool" where
  "isRunningMultiplePods K s k =
     (case k_Pods_List K k (pi_Namespace (status_pod s)) (pi_Labels (status_pod s)) of Ok pods \<Rightarrow> length pods > 1 | _ \<Rightarrow> False)"

definition sliceToStatus :: "(string \<Rightarrow> bool) \<Rightarrow> string list \<Rightarrow> LoadBalancerIngress list" where
  "sliceToStatus isIP endpoints =
     SliceStable (\<lambda>a b. lb_IP a < lb_IP b)
       (map (\<lambda>ep. if \<not> isIP ep then \<lparr>lb_IP = [], lb_Hostname = ep\<rparr> else \<lparr>lb_IP = ep, lb_Hostname = []\<rparr>) endpoints)"

section \<open>Comparing and updating\<close>

text \<open>\<open>strings.Compare\<close> gives -1, 0 or 1.\<close>

definition strings_Compare :: "string \<Rightarrow> string \<Rightarrow> int" where
  "strings_Compare a b = (if a = b then 0 else if a < b then -1 else 1)"

definition lessLoadBalancerIngress :: "LoadBalancerIngress \<Rightarrow> LoadBalancerIngress \<Rightarrow> bool" where
  "lessLoadBalancerIngress a b =
     (let c = strings_Compare (lb_Hostname a) (lb_Hostname b) in
      if c = -1 then True else if c = 1 then False else lb_IP a < lb_IP b)"

fun ingressSliceEqual :: "LoadBalancerIngress list \<Rightarrow> LoadBalancerIngress list \<Rightarrow> bool" where
  "ingressSliceEqual [] [] = True"
| "ingressSliceEqual (l # lhs) (r # rhs) =
     (if lb_IP l \<noteq> lb_IP r then False else if lb_Hostname l \<noteq> lb_Hostname r then False else ingressSliceEqual lhs rhs)"
| "ingressSliceEqual lhs rhs = False"

abbreviation lb_sort :: "LoadBalancerIngress list \<Rightarrow> LoadBalancerIngress list" where
  "lb_sort \<equiv> SliceStable lessLoadBalancerIngress"

text \<open>A work unit: the state of the API server it leaves and its result.\<close>

definition runUpdate :: "'k kube \<Rightarrow> LoadBalancerIngress list \<Rightarrow> bool \<Rightarrow> ManbaIngress \<Rightarrow> 'k \<Rightarrow> 'k \<times> bool option result" where
  "runUpdate K status cancelled ing k =
     (if cancelled then (k, Ok None)
      else
        let status = lb_sort status; curIPs = lb_sort (ing_Status ing) in
        if ingressSliceEqual status curIPs then (k, Ok (Some True))
        else
          (case k_Ingresses_Get K k (meta_Namespace (ing_Meta ing)) (meta_Name (ing_Meta ing)) of
             Err err \<Rightarrow> (k, Err (Wrap (''unexpected error searching Ingress '' @ meta_Namespace (ing_Meta ing) @ ''/'' @ meta_Name (ing_Meta ing)) err))
           | Panic m \<Rightarrow> (k, Panic m)
           | Ok currIng \<Rightarrow> (fst (k_Ingresses_UpdateStatus K (currIng\<lparr>ning_Status := status\<rparr>) k), Ok (Some True))))"

text \<open>The ingresses that get a work unit.\<close>

definition to_update :: "LoadBalancerIngress list \<Rightarrow> ManbaIngress list \<Rightarrow> ManbaIngress list" where
  "to_update newIngressPoint ings = filter (\<lambda>ing. \<not> ingressSliceEqual (lb_sort (ing_Status ing)) newIngressPoint) ings"

definition updateStatus :: "'k kube \<Rightarrow> (ManbaIngress list \<Rightarrow> ManbaIngress list) \<Rightarrow> ManbaIngress list \<Rightarrow> LoadBalancerIngress list \<Rightarrow> 'k \<Rightarrow> 'k" where
  "updateStatus K ord ings newIngressPoint k =
     (let newIngressPoint = lb_sort newIngressPoint
      in fold (\<lambda>ing k. fst (runUpdate K newIngressPoint False ing k)) (ord (to_update newIngressPoint ings)) k)"

definition status_sync ::
    "'k kube \<Rightarrow> (string \<Rightarrow> bool) \<Rightarrow> status_Config \<Rightarrow> (ManbaIngress list \<Rightarrow> ManbaIngress list) \<Rightarrow> bool \<Rightarrow> ManbaIngress list \<Rightarrow> 'k \<Rightarrow> 'k \<times> unit result" where
  "status_sync K isIP s ord shuttingDown ings k =
     (if shuttingDown then (k, Ok ())
      else (case runningAddresses K s k of
              Err err \<Rightarrow> (k, Err err)
            | Panic m \<Rightarrow> (k, Panic m)
            | Ok addrs \<Rightarrow> (updateStatus K ord ings (sliceToStatus isIP addrs) k, Ok ())))"

definition status_Shutdown ::
    "'k kube \<Rightarrow> status_Config \<Rightarrow> (ManbaIngress list \<Rightarrow> ManbaIngress list) \<Rightarrow> bool \<Rightarrow> ManbaIngress list \<Rightarrow> 'k \<Rightarrow> 'k" where
  "status_Shutdown K s ord isLeader ings k =
     (if \<not> isLeader then k
      else
        let ns = pi_Namespace (status_pod s);
            k = (case k_ConfigMaps_Get K k ns (ElectionID s) of Ok c \<Rightarrow> k_ConfigMaps_Update K ns (c\<lparr>cm_Annotations := []\<rparr>) k | _ \<Rightarrow> k) in
        if \<not> UpdateStatusOnShutdown s then k
        else (case runningAddresses K s k of
                Ok addrs \<Rightarrow>
                  if length addrs > 1 then k
                  else if isRunningMultiplePods K s k then k
                  else updateStatus K ord ings [] k
              | _ \<Rightarrow> k))"

section \<open>The order of addresses\<close>

text \<open>Addresses are ordered by host name and then by IP, so that the sorting of the library applies to them.\<close>

instantiation LoadBalancerIngress_ext :: (linorder) linorder
begin

definition less_LoadBalancerIngress_ext :: "'a LoadBalancerIngress_scheme \<Rightarrow> 'a LoadBalancerIngress_scheme \<Rightarrow> bool" where
  "a < b \<longleftrightarrow> lb_Hostname a < lb_Hostname b \<or> lb_Hostname a = lb_Hostname b \<and>
     (lb_IP a < lb_IP b \<or> lb_IP a = lb_IP b \<and> LoadBalancerIngress.more a < LoadBalancerIngress.more b)"

definition less_eq_LoadBalancerIngress_ext :: "'a LoadBalancerIngress_scheme \<Rightarrow> 'a LoadBalancerIngress_scheme \<Rightarrow> bool" where
  "a \<le> b \<longleftrightarrow> a < b \<or> a = (b :: 'a LoadBalancerIngress_scheme)"

instance
proof
  fix x y :: "'a LoadBalancerIngress_scheme"
  have "x = y" if "lb_Hostname x = lb_Hostname y" "lb_IP x = lb_IP y" "LoadBalancerIngress.more x = LoadBalancerIngress.more y"
    using that by simp
  then show "x \<le> y \<or> y \<le> x"
    unfolding less_LoadBalancerIngress_ext_def less_eq_LoadBalancerIngress_ext_def by (metis linorder_neqE)
qed (auto simp: less_LoadBalancerIngress_ext_def less_eq_LoadBalancerIngress_ext_def intro: order.strict_trans)

end

lemma less_LoadBalancerIngress: "lessLoadBalancerIngress = (<)"
  by (auto simp: fun_eq_iff lessLoadBalancerIngress_def strings_Compare_def less_LoadBalancerIngress_ext_def)

lemma lb_sort_is_sort: "lb_sort xs = sort xs"
  unfolding less_LoadBalancerIngress using SliceStable_sort_key [of "\<lambda>x. x" xs] by simp

lemma lb_sort_eq_iff: "lb_sort xs = lb_sort ys \<longleftrightarrow> mset xs = mset ys"
  unfolding lb_sort_is_sort by (metis mset_sort properties_for_sort sorted_sort)

lemma lb_sort_idem [simp]: "lb_sort (lb_sort xs) = lb_sort xs"
  by (simp add: lb_sort_eq_iff)

lemma ingressSliceEqual_iff: "ingressSliceEqual xs ys \<longleftrightarrow> xs = ys"
  by (induction xs ys rule: ingressSliceEqual.induct) auto

definition ing_key :: "ManbaIngress \<Rightarrow> string \<times> string" where
  "ing_key ing = (meta_Namespace (ing_Meta ing), meta_Name (ing_Meta ing))"

section \<open>The contract of the API server\<close>

text \<open>
  The statuses of the networking ingresses: \<open>Get\<close> finds those that exist, a successful \<open>UpdateStatus\<close> sets
  one status and a failed one none. \<open>accepting\<close> servers do not refuse updates of existing ingresses.
\<close>

locale kube_status =
  fixes K :: "'k kube" and view :: "'k \<Rightarrow> string \<times> string \<rightharpoonup> LoadBalancerIngress list"
  assumes get_found: "view k (ns, n) = Some st \<Longrightarrow> \<exists>i. k_Ingresses_Get K k ns n = Ok i \<and> ning_Namespace i = ns \<and> ning_Name i = n"
    and get_missing: "view k (ns, n) = None \<Longrightarrow> \<exists>e. k_Ingresses_Get K k ns n = Err e"
    and updated: "k_Ingresses_UpdateStatus K i k = (k', Ok u) \<Longrightarrow> view k' = (view k)((ning_Namespace i, ning_Name i) \<mapsto> ning_Status i)"
    and refused: "k_Ingresses_UpdateStatus K i k = (k', r) \<Longrightarrow> \<not> is_Ok r \<Longrightarrow> view k' = view k"

locale accepting_kube = kube_status +
  assumes accepts: "view k (ning_Namespace i, ning_Name i) \<noteq> None \<Longrightarrow> is_Ok (snd (k_Ingresses_UpdateStatus K i k))"
begin

lemma view_runUpdate:
  "view (fst (runUpdate K new False ing k)) =
     (if view k (ing_key ing) \<noteq> None \<and> mset (ing_Status ing) \<noteq> mset new then (view k)(ing_key ing \<mapsto> lb_sort new) else view k)"
proof (cases "view k (ing_key ing)")
  case None
  with get_missing [of k "fst (ing_key ing)" "snd (ing_key ing)"] show ?thesis
    by (auto simp: runUpdate_def Let_def ing_key_def)
next
  case (Some st)
  then obtain i where i: "k_Ingresses_Get K k (fst (ing_key ing)) (snd (ing_key ing)) = Ok i" "(ning_Namespace i, ning_Name i) = ing_key ing"
    using get_found [of k "fst (ing_key ing)" "snd (ing_key ing)"] by auto
  let ?i = "i\<lparr>ning_Status := lb_sort new\<rparr>"
  obtain k' u where u: "k_Ingresses_UpdateStatus K ?i k = (k', Ok u)"
    using accepts [of k ?i] Some i(2) by (cases "k_Ingresses_UpdateStatus K ?i k"; cases "snd (k_Ingresses_UpdateStatus K ?i k)") auto
  from updated [OF u] i(2) have "view k' = (view k)(ing_key ing \<mapsto> lb_sort new)" by simp
  then show ?thesis
    using Some i(1) u by (auto simp: runUpdate_def Let_def ingressSliceEqual_iff lb_sort_eq_iff ing_key_def)
qed

lemma view_fold_runUpdate:
  "view (fold (\<lambda>ing k. fst (runUpdate K new False ing k)) ings k) key =
     (if view k key \<noteq> None \<and> (\<exists>ing\<in>set ings. ing_key ing = key \<and> mset (ing_Status ing) \<noteq> mset new) then Some (lb_sort new) else view k key)"
  by (induction ings arbitrary: k) (auto simp: view_runUpdate)

lemma view_updateStatus:
  assumes "\<And>xs. mset (ord xs) = mset xs"
  shows "view (updateStatus K ord ings new k) key =
     (if view k key \<noteq> None \<and> (\<exists>ing\<in>set ings. ing_key ing = key \<and> mset (ing_Status ing) \<noteq> mset new)
      then Some (lb_sort new) else view k key)"
proof -
  have "set (ord xs) = set xs" for xs using assms by (metis set_mset_mset)
  then show ?thesis
    unfolding updateStatus_def Let_def view_fold_runUpdate
    by (auto simp: to_update_def ingressSliceEqual_iff lb_sort_eq_iff)
qed

end

section \<open>A reference API server\<close>

text \<open>The statuses of the networking ingresses and the number of updates served.\<close>

record ref_kube_state =
  rk_status :: "string \<times> string \<rightharpoonup> LoadBalancerIngress list"
  rk_updates :: nat

definition ref_kube :: "Pod list \<Rightarrow> ref_kube_state kube" where
  "ref_kube pods = \<lparr>
     k_Services_Get = (\<lambda>k ns n. if ns = [] then Err (StatusNotFound ''services'' n) else Ok (sample_svc n)),
     k_Pods_Get = (\<lambda>k ns n. (Some (hd pods), None)),
     k_Pods_List = (\<lambda>k ns l. Ok pods),
     k_Nodes_Get = (\<lambda>k n. Ok [\<lparr>na_Type = NodeInternalIP, na_Address = n\<rparr>]),
     k_Ingresses_Get = (\<lambda>k ns n. case rk_status k (ns, n) of None \<Rightarrow> Err (StatusNotFound ''ingresses'' n)
       | Some st \<Rightarrow> Ok \<lparr>ning_Namespace = ns, ning_Name = n, ning_Status = st\<rparr>),
     k_Ingresses_UpdateStatus = (\<lambda>i k. (k\<lparr>rk_status := (rk_status k)((ning_Namespace i, ning_Name i) \<mapsto> ning_Status i), rk_updates := rk_updates k + 1\<rparr>, Ok ())),
     k_ConfigMaps_Get = (\<lambda>k ns n. Err (StatusNotFound ''configmaps'' n)),
     k_ConfigMaps_Update = (\<lambda>ns c k. k)\<rparr>"

interpretation refk: accepting_kube "ref_kube pods" rk_status for pods
  by unfold_locales (auto simp: ref_kube_def)

section \<open>The properties\<close>

text \<open>
  C23. \<open>updateStatus\<close> with an API server that accepts updates: the networking ingresses that have the name of a
  listed ingress whose addresses differ from the new ones, as multisets, get the new addresses in
  their order, and no other status changes, whatever order the work units run in.
\<close>

theorem updateStatus_exact:
  assumes "accepting_kube K view" and "\<And>xs. mset (ord xs) = mset xs"
  shows "view (updateStatus K ord ings new k) key =
     (if view k key \<noteq> None \<and> (\<exists>ing\<in>set ings. ing_key ing = key \<and> mset (ing_Status ing) \<noteq> mset new) then Some (lb_sort new) else view k key)"
  by (rule accepting_kube.view_updateStatus [OF assms])

definition sample_lb :: "string \<Rightarrow> LoadBalancerIngress" where
  "sample_lb ip = \<lparr>lb_IP = ip, lb_Hostname = []\<rparr>"

definition sample_kube_state :: ref_kube_state where
  "sample_kube_state = \<lparr>rk_status = [(''ns'', ''ing'') \<mapsto> []], rk_updates = 0\<rparr>"

theorem updateStatus_exact_witness:
  "rk_status (updateStatus (ref_kube []) rev [sample_ingress []] [sample_lb ''10.0.0.2'', sample_lb ''10.0.0.1''] sample_kube_state) (''ns'', ''ing'') =
     Some (lb_sort [sample_lb ''10.0.0.2'', sample_lb ''10.0.0.1''])"
  using updateStatus_exact [OF refk.accepting_kube_axioms, of rev "[]" "[sample_ingress []]" "[sample_lb ''10.0.0.2'', sample_lb ''10.0.0.1'']" sample_kube_state "(''ns'', ''ing'')"]
  by (simp add: sample_kube_state_def ing_key_def sample_ingress_def sample_meta_def)


text \<open>
  Without a status address the addresses come from the service with the empty namespace and name: the
  service the user asked to publish is never looked at, and when the API server reports an error for
  the empty name, no status is ever written.
\<close>

theorem publish_service_ignored:
  assumes "PublishStatusAddress s = []"
  shows "runningAddresses K (s\<lparr>PublishService := svc\<rparr>) k = runningAddresses K s k \<and>
    (k_Services_Get K k [] [] = Err err \<longrightarrow> status_sync K isIP s ord False ings k = (k, Err err))"
  using assms by (simp add: runningAddresses_def status_sync_def ParseNameNS_def cong: if_cong)

definition service_config :: "string \<Rightarrow> status_Config" where
  "service_config svc = \<lparr>PublishStatusAddress = [], PublishService = svc, ElectionID = [], UpdateStatusOnShutdown = False,
     status_pod = \<lparr>pi_Name = [], pi_Namespace = [], pi_NodeIP = [], pi_Labels = []\<rparr>\<rparr>"

theorem publish_service_ignored_witness:
  "runningAddresses (ref_kube []) ((service_config ''ns/a'')\<lparr>PublishService := ''ns/b''\<rparr>) sample_kube_state = runningAddresses (ref_kube []) (service_config ''ns/a'') sample_kube_state \<and>
   status_sync (ref_kube []) (\<lambda>_. True) (service_config ''ns/a'') id False [sample_ingress []] sample_kube_state = (sample_kube_state, Err (StatusNotFound ''services'' []))"
  using publish_service_ignored [of "service_config ''ns/a''" "ref_kube []" "''ns/b''" sample_kube_state "StatusNotFound ''services'' []"]
  by (simp add: service_config_def ref_kube_def)

section \<open>The addresses of the pods\<close>

lemma inSlice_iff [simp]: "inSlice v xs \<longleftrightarrow> v \<in> set xs"
  by (induction xs) auto

lemma pod_addresses_spec:
  "distinct addrs \<Longrightarrow> distinct (pod_addresses K k pods addrs) \<and>
     set (pod_addresses K k pods addrs) = set addrs \<union> {GetNodeIPOrName K k (pod_NodeName p) | p. p \<in> set pods \<and> pod_Phase p = PodRunning}"
  by (induction pods arbitrary: addrs) (auto simp: Let_def)

lemma first_address_not_Nil: "first_address ty as \<noteq> [] \<longleftrightarrow> (\<exists>a\<in>set as. na_Type a = ty \<and> na_Address a \<noteq> [])"
  by (induction as) auto

lemma first_address_in: "first_address ty as \<noteq> [] \<Longrightarrow> \<exists>a\<in>set as. na_Type a = ty \<and> na_Address a \<noteq> [] \<and> na_Address a = first_address ty as"
  by (induction as) (auto split: if_splits)

lemma GetNodeIPOrName_spec:
  assumes "k_Nodes_Get K k n = Ok as"
  shows "if \<exists>a\<in>set as. na_Type a = NodeExternalIP \<and> na_Address a \<noteq> []
    then \<exists>a\<in>set as. na_Type a = NodeExternalIP \<and> na_Address a \<noteq> [] \<and> na_Address a = GetNodeIPOrName K k n
    else if \<exists>a\<in>set as. na_Type a = NodeInternalIP \<and> na_Address a \<noteq> []
    then \<exists>a\<in>set as. na_Type a = NodeInternalIP \<and> na_Address a \<noteq> [] \<and> na_Address a = GetNodeIPOrName K k n
    else GetNodeIPOrName K k n = []"
proof -
  have "GetNodeIPOrName K k n = (if first_address NodeExternalIP as \<noteq> [] then first_address NodeExternalIP as else first_address NodeInternalIP as)"
    by (simp add: GetNodeIPOrName_def assms Let_def)
  then show ?thesis
    unfolding first_address_not_Nil [symmetric] using first_address_in [of NodeExternalIP as] first_address_in [of NodeInternalIP as] by simp
qed

text \<open>
  The addresses collected from the pods are those of the nodes of the running pods, each once. The
  address of a node is one of its external addresses if it has any that is not empty, otherwise an
  internal one, and the empty string when it has neither.
\<close>

theorem node_addresses_exact:
  "distinct (pod_addresses K k pods []) \<and>
   set (pod_addresses K k pods []) = {GetNodeIPOrName K k (pod_NodeName p) | p. p \<in> set pods \<and> pod_Phase p = PodRunning} \<and>
   (k_Nodes_Get K k n = Ok as \<longrightarrow>
      (if \<exists>a\<in>set as. na_Type a = NodeExternalIP \<and> na_Address a \<noteq> []
       then \<exists>a\<in>set as. na_Type a = NodeExternalIP \<and> na_Address a \<noteq> [] \<and> na_Address a = GetNodeIPOrName K k n
       else if \<exists>a\<in>set as. na_Type a = NodeInternalIP \<and> na_Address a \<noteq> []
       then \<exists>a\<in>set as. na_Type a = NodeInternalIP \<and> na_Address a \<noteq> [] \<and> na_Address a = GetNodeIPOrName K k n
       else GetNodeIPOrName K k n = []))"
  using pod_addresses_spec [of "[]" K k pods] GetNodeIPOrName_spec [of K k n as] by simp

definition sample_pods :: "Pod list" where
  "sample_pods = map (\<lambda>(n, ph). \<lparr>pod_Labels = [], pod_NodeName = n, pod_Phase = ph\<rparr>) [(''n1'', PodRunning), (''n1'', PodRunning), (''n2'', PodPending)]"

theorem node_addresses_exact_witness:
  "distinct (pod_addresses (ref_kube sample_pods) sample_kube_state sample_pods []) \<and>
   (\<exists>a\<in>set [\<lparr>na_Type = NodeInternalIP, na_Address = ''n1''\<rparr>]. na_Type a = NodeInternalIP \<and> na_Address a \<noteq> [] \<and>
     na_Address a = GetNodeIPOrName (ref_kube sample_pods) sample_kube_state ''n1'')"
  using node_addresses_exact [of "ref_kube sample_pods" sample_kube_state sample_pods "''n1''" "[\<lparr>na_Type = NodeInternalIP, na_Address = ''n1''\<rparr>]"]
  by (simp add: ref_kube_def)

end
