(* ===== verification/Election.thy ===== *)
theory Election
  imports Status
begin

text \<open>
  Leader election (\<open>pkg/ingress/election/election.go\<close>) and the configuration the controller gives it
  (\<open>NewManbaController\<close> of \<open>pkg/ingress/controller/controller.go\<close>). The locks and the electors of client-go are
  parameters; the locale \<open>leader_election\<close> states what they document: a candidate gets the lock if nobody holds
  it or the record carries its own identity, and is refused while another identity holds it.
\<close>

section \<open>The configuration of the election\<close>

record 'cb election_Config =
  ec_ElectionID :: string
  ec_ResourceName :: string
  ec_ResourceNamespace :: string
  ec_Callbacks :: 'cb

text \<open>Durations are nanoseconds.\<close>

definition lockType :: string where
  "lockType = ''configmaps''"

definition leaseDuration :: int where
  "leaseDuration = 30 * 10 ^ 9"

definition retryPeriod :: int where
  "retryPeriod = 2 * 10 ^ 9"

definition renewDeadline :: int where
  "renewDeadline = 10 * 10 ^ 9"

record ('lock, 'cb) LeaderElectionConfig =
  lec_Lock :: 'lock
  lec_LeaseDuration :: int
  lec_RenewDeadline :: int
  lec_RetryPeriod :: int
  lec_Callbacks :: 'cb
  lec_Name :: string

text \<open>
  \<open>New\<close> is \<open>resourcelock.New\<close> with the type of the lock, its namespace, its name and the identity; \<open>hostname\<close> is the
  result of \<open>os.Hostname\<close>. The recorder of events and the watch dog are only passed on.
\<close>

definition getLeaderElectionConfig ::
    "string result \<Rightarrow> (string \<Rightarrow> string \<Rightarrow> string \<Rightarrow> string \<Rightarrow> 'lock result) \<Rightarrow> 'cb election_Config \<Rightarrow> ('lock, 'cb) LeaderElectionConfig result" where
  "getLeaderElectionConfig hostname New config =
     rbind hostname (\<lambda>host.
     rbind (New lockType (ec_ResourceNamespace config) (ec_ResourceName config) (ec_ElectionID config)) (\<lambda>rl.
     Ok \<lparr>lec_Lock = rl, lec_LeaseDuration = leaseDuration, lec_RenewDeadline = renewDeadline, lec_RetryPeriod = retryPeriod,
       lec_Callbacks = ec_Callbacks config, lec_Name = ec_ResourceName config\<rparr>))"

definition NewElection ::
    "string result \<Rightarrow> (string \<Rightarrow> string \<Rightarrow> string \<Rightarrow> string \<Rightarrow> 'lock result) \<Rightarrow> (('lock, 'cb) LeaderElectionConfig \<Rightarrow> 'e result) \<Rightarrow>
     'cb election_Config \<Rightarrow> 'e result" where
  "NewElection hostname New NewLeaderElector config = rbind (getLeaderElectionConfig hostname New config) NewLeaderElector"

text \<open>What \<open>NewManbaController\<close> configures: \<open>fmt.Sprintf("%s-ingress-controller", cfg.ElectionID)\<close> names the lock.\<close>

definition controller_election :: "string \<Rightarrow> PodInfo \<Rightarrow> 'cb \<Rightarrow> 'cb election_Config" where
  "controller_election electionID pod callbacks =
     \<lparr>ec_ElectionID = electionID, ec_ResourceName = electionID @ ''-ingress-controller'', ec_ResourceNamespace = pi_Namespace pod,
      ec_Callbacks = callbacks\<rparr>"

section \<open>The contract of the election\<close>

text \<open>
  \<open>attempt\<close> is one try of a candidate to acquire or renew its lock; \<open>holder\<close> is the identity in a record whose lease
  has not run out.
\<close>

text \<open>A sequence of tries, each by one of the candidates.\<close>

fun attempts :: "('e \<Rightarrow> 's \<Rightarrow> bool \<times> 's) \<Rightarrow> 'e list \<Rightarrow> 's \<Rightarrow> bool list" where
  "attempts attempt [] s = []"
| "attempts attempt (e # es) s = fst (attempt e s) # attempts attempt es (snd (attempt e s))"

locale leader_election =
  fixes New :: "string \<Rightarrow> string \<Rightarrow> string \<Rightarrow> string \<Rightarrow> 'lock result"
    and NewLeaderElector :: "('lock, 'cb) LeaderElectionConfig \<Rightarrow> 'e result"
    and lock_of :: "'e \<Rightarrow> 'lock" and lock_name :: "'lock \<Rightarrow> string \<times> string" and lock_identity :: "'lock \<Rightarrow> string"
    and holder :: "'s \<Rightarrow> string \<times> string \<Rightarrow> string option" and attempt :: "'e \<Rightarrow> 's \<Rightarrow> bool \<times> 's"
  assumes New_ok: "\<exists>l. New ''configmaps'' ns name ident = Ok l \<and> lock_name l = (ns, name) \<and> lock_identity l = ident"
    and NewLeaderElector_ok: "\<lbrakk>0 < lec_RetryPeriod c; 12 * lec_RetryPeriod c < 10 * lec_RenewDeadline c;
        lec_RenewDeadline c < lec_LeaseDuration c\<rbrakk> \<Longrightarrow> \<exists>e. NewLeaderElector c = Ok e \<and> lock_of e = lec_Lock c"
    and attempt_free: "holder s (lock_name (lock_of e)) = None \<Longrightarrow> fst (attempt e s)"
    and attempt_own: "holder s (lock_name (lock_of e)) = Some (lock_identity (lock_of e)) \<Longrightarrow> fst (attempt e s)"
    and attempt_other: "\<lbrakk>holder s (lock_name (lock_of e)) = Some ident; ident \<noteq> lock_identity (lock_of e)\<rbrakk> \<Longrightarrow> \<not> fst (attempt e s)"
    and attempt_holder: "fst (attempt e s) \<Longrightarrow>
        holder (snd (attempt e s)) = (holder s)(lock_name (lock_of e) \<mapsto> lock_identity (lock_of e))"
begin

text \<open>Candidates for one lock with different identities do exclude each other.\<close>

lemma excludes:
  assumes "fst (attempt e s)" and "lock_name (lock_of e') = lock_name (lock_of e)" and "lock_identity (lock_of e') \<noteq> lock_identity (lock_of e)"
  shows "\<not> fst (attempt e' (snd (attempt e s)))"
  using attempt_other[of "snd (attempt e s)" e' "lock_identity (lock_of e)"] attempt_holder[OF assms(1)] assms(2,3) by simp

text \<open>The durations of the code are accepted, so an election fails only if the host has no name.\<close>

lemma NewElection_ok:
  "\<exists>e. NewElection (Ok host) New NewLeaderElector config = Ok e \<and> lock_name (lock_of e) = (ec_ResourceNamespace config, ec_ResourceName config)
     \<and> lock_identity (lock_of e) = ec_ElectionID config"
proof -
  obtain l where l: "New ''configmaps'' (ec_ResourceNamespace config) (ec_ResourceName config) (ec_ElectionID config) = Ok l"
    "lock_name l = (ec_ResourceNamespace config, ec_ResourceName config)" "lock_identity l = ec_ElectionID config"
    using New_ok by blast
  let ?c = "\<lparr>lec_Lock = l, lec_LeaseDuration = leaseDuration, lec_RenewDeadline = renewDeadline, lec_RetryPeriod = retryPeriod,
       lec_Callbacks = ec_Callbacks config, lec_Name = ec_ResourceName config\<rparr>"
  obtain e where "NewLeaderElector ?c = Ok e" "lock_of e = l"
    using NewLeaderElector_ok[of ?c] by (auto simp: leaseDuration_def renewDeadline_def retryPeriod_def)
  then show ?thesis
    using l by (auto simp: NewElection_def getLeaderElectionConfig_def lockType_def)
qed

text \<open>
  A state in which every lock that is held carries the identity from which its name is made; the candidates
  of the controllers keep it, and succeed in it.
\<close>

definition own_holders :: "'s \<Rightarrow> bool" where
  "own_holders s \<longleftrightarrow> (\<forall>ns electionID ident. holder s (ns, electionID @ ''-ingress-controller'') = Some ident \<longrightarrow> ident = electionID)"

definition controller_elector :: "'e \<Rightarrow> bool" where
  "controller_elector e \<longleftrightarrow> (\<exists>host electionID pod cb. NewElection (Ok host) New NewLeaderElector (controller_election electionID pod cb) = Ok e)"

lemma controller_elector_lock:
  assumes "controller_elector e"
  obtains ns where "lock_name (lock_of e) = (ns, lock_identity (lock_of e) @ ''-ingress-controller'')"
proof -
  obtain host electionID pod cb where "NewElection (Ok host) New NewLeaderElector (controller_election electionID pod cb) = Ok e"
    using assms by (auto simp: controller_elector_def)
  then have "lock_name (lock_of e) = (pi_Namespace pod, electionID @ ''-ingress-controller'')" "lock_identity (lock_of e) = electionID"
    using NewElection_ok[of host "controller_election electionID pod cb"] by (auto simp: controller_election_def)
  then show ?thesis using that by simp
qed

lemma attempt_step:
  assumes "controller_elector e" and "own_holders s"
  shows "fst (attempt e s)" and "own_holders (snd (attempt e s))"
proof -
  obtain ns where ns: "lock_name (lock_of e) = (ns, lock_identity (lock_of e) @ ''-ingress-controller'')"
    using assms(1) by (rule controller_elector_lock)
  show ok: "fst (attempt e s)"
    using attempt_free[of s e] attempt_own[of s e] assms(2)
    by (cases "holder s (lock_name (lock_of e))") (auto simp: ns own_holders_def)
  show "own_holders (snd (attempt e s))"
    using assms(2) by (auto simp: own_holders_def attempt_holder[OF ok] ns split: if_splits)
qed

lemma everybody_leads: "\<lbrakk>\<forall>e\<in>set es. controller_elector e; own_holders s\<rbrakk> \<Longrightarrow> False \<notin> set (attempts attempt es s)"
  by (induction es arbitrary: s) (auto dest: attempt_step)

end

section \<open>Reference locks\<close>

text \<open>A state maps a namespace and a name to the identity that holds the lock of that name.\<close>

definition ref_New :: "string \<Rightarrow> string \<Rightarrow> string \<Rightarrow> string \<Rightarrow> ((string \<times> string) \<times> string) result" where
  "ref_New ty ns name ident = (if ty = ''configmaps'' then Ok ((ns, name), ident) else Err (NewError ''Invalid lock-type''))"

definition ref_Elector :: "('lock, 'cb) LeaderElectionConfig \<Rightarrow> 'lock result" where
  "ref_Elector c =
     (if lec_LeaseDuration c \<le> lec_RenewDeadline c then Err (NewError ''leaseDuration must be greater than renewDeadline'')
      else if 10 * lec_RenewDeadline c \<le> 12 * lec_RetryPeriod c then Err (NewError ''renewDeadline must be greater than retryPeriod*JitterFactor'')
      else if lec_RetryPeriod c < 1 then Err (NewError ''retryPeriod must be greater than zero'')
      else Ok (lec_Lock c))"

definition ref_attempt :: "(string \<times> string) \<times> string \<Rightarrow> (string \<times> string \<rightharpoonup> string) \<Rightarrow> bool \<times> (string \<times> string \<rightharpoonup> string)" where
  "ref_attempt e s =
     (case s (fst e) of
        Some ident \<Rightarrow> if ident = snd e then (True, s) else (False, s)
      | None \<Rightarrow> (True, s(fst e \<mapsto> snd e)))"

interpretation ref_locks: leader_election ref_New ref_Elector id fst snd id ref_attempt
  by unfold_locales (auto simp: ref_New_def ref_Elector_def ref_attempt_def split: option.splits if_splits)

section \<open>The property\<close>

text \<open>
  C37. The election excludes nobody. The identity of a candidate and the name of its lock are both made from the
  election ID, so controllers compete for the same lock only under the same identity: in every sequence of
  tries of the controllers of a fleet each try succeeds, and all of them lead at once.
\<close>

theorem election_excludes_nobody:
  assumes "leader_election New NewLeaderElector lock_of lock_name lock_identity holder attempt"
    and "\<forall>e\<in>set es. \<exists>host electionID pod cb. NewElection (Ok host) New NewLeaderElector (controller_election electionID pod cb) = Ok e"
    and "holder s = Map.empty"
  shows "attempts attempt es s = replicate (length es) True"
proof -
  have "False \<notin> set (attempts attempt es s)"
    using leader_election.everybody_leads[OF assms(1), of es s] assms(2,3)
    by (simp add: leader_election.controller_elector_def[OF assms(1)] leader_election.own_holders_def[OF assms(1)])
  moreover have "length (attempts attempt es s) = length es"
    by (induction es arbitrary: s) auto
  ultimately show ?thesis
    by (metis (full_types) replicate_length_same)
qed

definition sample_pod_info :: PodInfo where
  "sample_pod_info = \<lparr>pi_Name = ''p'', pi_Namespace = ''ns'', pi_NodeIP = [], pi_Labels = []\<rparr>"

theorem election_excludes_nobody_witness:
  "NewElection (Ok ''node1'') ref_New ref_Elector (controller_election ''e'' sample_pod_info ()) = Ok ((''ns'', ''e-ingress-controller''), ''e'')
   \<and> attempts ref_attempt [((''ns'', ''e-ingress-controller''), ''e''), ((''ns'', ''e-ingress-controller''), ''e'')] Map.empty = [True, True]"
proof
  show e: "NewElection (Ok ''node1'') ref_New ref_Elector (controller_election ''e'' sample_pod_info ()) = Ok ((''ns'', ''e-ingress-controller''), ''e'')"
    by (simp add: NewElection_def getLeaderElectionConfig_def controller_election_def ref_New_def ref_Elector_def lockType_def
      leaseDuration_def renewDeadline_def retryPeriod_def sample_pod_info_def)
  let ?es = "[((''ns'', ''e-ingress-controller''), ''e''), ((''ns'', ''e-ingress-controller''), ''e'')]"
  have "\<forall>x\<in>set ?es. \<exists>host electionID pod cb. NewElection (Ok host) ref_New ref_Elector (controller_election electionID pod (cb :: unit)) = Ok x"
    using e by auto
  from election_excludes_nobody[OF ref_locks.leader_election_axioms this, of Map.empty]
  show "attempts ref_attempt ?es Map.empty = [True, True]"
    by (simp add: numeral_2_eq_2)
qed

end
