(* ===== verification/Informers.thy ===== *)
theory Informers
  imports Store Sync_Ingress
begin

text \<open>
  The event handlers of the informers (\<open>pkg/ingress/controller/event_handler.go\<close>) and their registration
  (\<open>pkg/cache/informer.go\<close>). A handler sends to the channel of updates; here it returns the events it sends.
  The properties relate the handlers to the store: a change for which no event is sent does not change
  what the parser reads, except in the cases the two counterexamples show.
\<close>

section \<open>Events and handlers\<close>

datatype EventType = CreateEvent | UpdateEvent | DeleteEvent | ConfigurationEvent

record ctrl_Event =
  evt_Type :: EventType
  evt_Obj :: k8s_obj
  evt_Old :: "k8s_obj option"

type_synonym ResourceEventHandler = "ObjectMeta \<Rightarrow> bool"

definition Resource_OnAdd :: "ResourceEventHandler \<Rightarrow> k8s_obj \<Rightarrow> ctrl_Event list" where
  "Resource_OnAdd isValid obj =
     (case Accessor obj of
        Ok object \<Rightarrow> if \<not> isValid object then [] else [\<lparr>evt_Type = CreateEvent, evt_Obj = obj, evt_Old = None\<rparr>]
      | _ \<Rightarrow> [])"

definition Resource_OnUpdate :: "ResourceEventHandler \<Rightarrow> k8s_obj \<Rightarrow> k8s_obj \<Rightarrow> ctrl_Event list" where
  "Resource_OnUpdate isValid old obj =
     (case Accessor old of
        Ok oldObj \<Rightarrow>
          (case Accessor obj of
             Ok curObj \<Rightarrow>
               let validOld = isValid oldObj; validCur = isValid curObj in
               if \<not> validCur \<and> \<not> validOld then []
               else [\<lparr>evt_Type = UpdateEvent, evt_Obj = obj, evt_Old = Some old\<rparr>]
           | _ \<Rightarrow> [])
      | _ \<Rightarrow> [])"

definition Resource_OnDelete :: "ResourceEventHandler \<Rightarrow> k8s_obj \<Rightarrow> ctrl_Event list" where
  "Resource_OnDelete isValid obj =
     (case Accessor obj of
        Ok object \<Rightarrow> if \<not> isValid object then [] else [\<lparr>evt_Type = DeleteEvent, evt_Obj = obj, evt_Old = None\<rparr>]
      | _ \<Rightarrow> [])"

definition Endpoints_OnAdd :: "k8s_obj \<Rightarrow> ctrl_Event list" where
  "Endpoints_OnAdd obj = [\<lparr>evt_Type = CreateEvent, evt_Obj = obj, evt_Old = None\<rparr>]"

definition Endpoints_OnDelete :: "k8s_obj \<Rightarrow> ctrl_Event list" where
  "Endpoints_OnDelete obj = [\<lparr>evt_Type = DeleteEvent, evt_Obj = obj, evt_Old = None\<rparr>]"

text \<open>The type assertions of this handler panic for other objects.\<close>

definition Endpoints_OnUpdate :: "k8s_obj \<Rightarrow> k8s_obj \<Rightarrow> ctrl_Event list result" where
  "Endpoints_OnUpdate old cur =
     rbind (as_Endpoints old) (\<lambda>oep. rbind (as_Endpoints cur) (\<lambda>ocur.
       Ok (if eps_Subsets ocur \<noteq> eps_Subsets oep then [\<lparr>evt_Type = UpdateEvent, evt_Obj = cur, evt_Old = None\<rparr>] else [])))"

section \<open>Registration\<close>

datatype handler = EndpointsEventHandler | ResourceHandler ResourceEventHandler

datatype informer = epInformer | svcInformer | secretInformer | manbaIngInformer | manbaClusterInformer

definition CreateInformers :: "string \<Rightarrow> (informer \<times> handler) list" where
  "CreateInformers ingressClass =
     (let reh = ResourceHandler (IngressClassValidatorFunc ingressClass) in
      [(epInformer, EndpointsEventHandler), (svcInformer, reh), (secretInformer, reh), (manbaIngInformer, reh), (manbaClusterInformer, reh)])"

text \<open>
  What an informer tells its handlers: an object was added, replaced or removed. For a removal it did
  not observe it delivers a tombstone with the last state it knows.
\<close>

datatype change = Added k8s_obj | Updated k8s_obj k8s_obj | Deleted k8s_obj | Vanished k8s_obj

fun notify :: "handler \<Rightarrow> change \<Rightarrow> ctrl_Event list result" where
  "notify (ResourceHandler v) (Added x) = Ok (Resource_OnAdd v x)"
| "notify (ResourceHandler v) (Updated x y) = Ok (Resource_OnUpdate v x y)"
| "notify (ResourceHandler v) (Deleted x) = Ok (Resource_OnDelete v x)"
| "notify (ResourceHandler v) (Vanished x) = Ok (Resource_OnDelete v (DeletedFinalStateUnknown (meta_key x) x))"
| "notify EndpointsEventHandler (Added x) = Ok (Endpoints_OnAdd x)"
| "notify EndpointsEventHandler (Updated x y) = Endpoints_OnUpdate x y"
| "notify EndpointsEventHandler (Deleted x) = Ok (Endpoints_OnDelete x)"
| "notify EndpointsEventHandler (Vanished x) = Ok (Endpoints_OnDelete (DeletedFinalStateUnknown (meta_key x) x))"

definition informer_events :: "string \<Rightarrow> informer \<Rightarrow> change \<Rightarrow> ctrl_Event list result" where
  "informer_events ingressClass i ch =
     (case map_of (CreateInformers ingressClass) i of None \<Rightarrow> Ok [] | Some h \<Rightarrow> notify h ch)"

lemma informer_events_simps [simp]:
  "informer_events cls epInformer ch = notify EndpointsEventHandler ch"
  "i \<noteq> epInformer \<Longrightarrow> informer_events cls i ch = notify (ResourceHandler (IngressClassValidatorFunc cls)) ch"
  by (cases i; simp add: informer_events_def CreateInformers_def Let_def)+

text \<open>The effect of a change on the contents of the cache, which the informer updates before it notifies.\<close>

fun applies :: "(string \<rightharpoonup> k8s_obj) \<Rightarrow> change \<Rightarrow> (string \<rightharpoonup> k8s_obj) \<Rightarrow> bool" where
  "applies m (Added x) m' \<longleftrightarrow> m (meta_key x) = None \<and> m' = m(meta_key x \<mapsto> x)"
| "applies m (Updated x y) m' \<longleftrightarrow> m (meta_key x) = Some x \<and> meta_key y = meta_key x \<and> m' = m(meta_key x \<mapsto> y)"
| "applies m (Deleted x) m' \<longleftrightarrow> m (meta_key x) = Some x \<and> m' = m(meta_key x := None)"
| "applies m (Vanished x) m' \<longleftrightarrow> m (meta_key x) = Some x \<and> m' = m(meta_key x := None)"

section \<open>Silent changes of ingresses\<close>

lemma class_validators_agree: "IngressClassValidatorFuncFromObjectMeta = IngressClassValidatorFunc"
  by (simp add: fun_eq_iff IngressClassValidatorFunc_def IngressClassValidatorFuncFromObjectMeta_def)

text \<open>A resource handler that keeps silent has seen only objects of other classes.\<close>

definition concerns :: "(ObjectMeta \<Rightarrow> bool) \<Rightarrow> k8s_obj \<Rightarrow> bool" where
  "concerns v x \<longleftrightarrow> (case Accessor x of Ok om \<Rightarrow> v om | _ \<Rightarrow> False)"

lemma valid_ingress_concerns: "valid_ingress v x \<Longrightarrow> concerns v x"
  by (auto simp: valid_ingress_def concerns_def split: k8s_obj.splits)

lemma silent_Added: "notify (ResourceHandler v) (Added x) = Ok [] \<Longrightarrow> \<not> concerns v x"
  by (auto simp: concerns_def Resource_OnAdd_def split: result.splits if_splits)

lemma silent_Deleted: "notify (ResourceHandler v) (Deleted x) = Ok [] \<Longrightarrow> \<not> concerns v x"
  by (auto simp: concerns_def Resource_OnDelete_def split: result.splits if_splits)

lemma silent_Updated:
  "notify (ResourceHandler v) (Updated x y) = Ok [] \<Longrightarrow> is_Ok (Accessor x) \<Longrightarrow> is_Ok (Accessor y) \<Longrightarrow> \<not> concerns v x \<and> \<not> concerns v y"
  by (auto simp: concerns_def Resource_OnUpdate_def Let_def split: result.splits if_splits)

lemma ran_filter_upd:
  assumes "\<And>x. m k = Some x \<Longrightarrow> \<not> P x" and "\<And>y. z = Some y \<Longrightarrow> \<not> P y"
  shows "{x \<in> ran (m(k := z)). P x} = {x \<in> ran m. P x}"
  using assms by (fastforce simp: ran_def split: if_splits)

lemma silent_change_keeps_valid:
  assumes "applies m ch m'" and "notify (ResourceHandler v) ch = Ok []" and "\<forall>x. ch \<noteq> Vanished x"
    and "\<forall>x\<in>ran m \<union> ran m'. is_Ok (Accessor x)"
  shows "{x \<in> ran m'. concerns v x} = {x \<in> ran m. concerns v x}"
proof (cases ch)
  case (Added x)
  with assms silent_Added [of v x] show ?thesis by (auto intro!: ran_filter_upd)
next
  case (Updated x y)
  with assms(1) have "m (meta_key x) = Some x" "m' (meta_key x) = Some y" by simp_all
  with assms(4) have "is_Ok (Accessor x)" "is_Ok (Accessor y)" by (blast intro: ranI)+
  with Updated assms silent_Updated [of v x y] show ?thesis by (auto intro!: ran_filter_upd)
next
  case (Deleted x)
  with assms silent_Deleted [of v x] show ?thesis by (auto intro!: ran_filter_upd)
next
  case (Vanished x)
  with assms(3) show ?thesis by simp
qed

context informer_cache
begin

lemma objects: "x \<in> ran objs \<Longrightarrow> is_Ok (Accessor x)"
  using keyed by (fastforce simp: ran_def)

lemma mset_valid: "mset (store_ListManbaIngresses_loop v (cache_List c)) =
    image_mset (case_k8s_obj id undefined undefined undefined undefined undefined) (mset_set {x \<in> ran objs. valid_ingress v x})"
  by (simp add: mset_ListManbaIngresses_loop mset_List finite_ran)

end


section \<open>Silent changes of endpoints\<close>

text \<open>The parser reads the subsets of endpoints and nothing else of them.\<close>

definition same_endpoints :: "store \<Rightarrow> store \<Rightarrow> bool" where
  "same_endpoints st st' \<longleftrightarrow> ListServices st' = ListServices st \<and> GetManbaCluster st' = GetManbaCluster st \<and>
     ListManbaIngresses st' = ListManbaIngresses st \<and>
     (\<forall>ns n. rbind (GetEndpointsForService st' ns n) (\<lambda>e. Ok (eps_Subsets e)) = rbind (GetEndpointsForService st ns n) (\<lambda>e. Ok (eps_Subsets e)))"

lemma getEndpoints_cong:
  assumes "\<And>ns n. rbind (g' ns n) (\<lambda>e. Ok (eps_Subsets e)) = rbind (g ns n) (\<lambda>e. Ok (eps_Subsets e))"
  shows "getEndpoints s port proto g' = getEndpoints s port proto g"
  using assms [of "meta_Namespace (svc_Meta s)" "meta_Name (svc_Meta s)"]
  by (cases "g' (meta_Namespace (svc_Meta s)) (meta_Name (svc_Meta s))"; cases "g (meta_Namespace (svc_Meta s)) (meta_Name (svc_Meta s))")
    (simp_all add: getEndpoints_def)

lemma service_endpoints_cong:
  assumes "same_endpoints st st'"
  shows "service_endpoints st' p svcs servers = service_endpoints st p svcs servers"
proof (induction svcs arbitrary: servers)
  case (Cons svc svcs)
  have "getEndpoints s port proto (GetEndpointsForService st') = getEndpoints s port proto (GetEndpointsForService st)" for s port proto
    using assms by (intro getEndpoints_cong) (simp add: same_endpoints_def)
  with Cons show ?case by (simp split: option.split)
qed simp

lemma fill_services_cong:
  assumes "same_endpoints st st'"
  shows "fill_services E srt st' services heap = fill_services E srt st services heap"
proof -
  have "fillOverride E srt st' service heap = fillOverride E srt st service heap" for service heap
    using assms unfolding fillOverride_def getServiceEndpoints_def service_endpoints_cong [OF assms]
    by (simp only: same_endpoints_def)
  then show ?thesis by (induction services arbitrary: heap) auto
qed

lemma parseIngressRules_cong:
  assumes "GetManbaCluster st' = GetManbaCluster st"
  shows "parseIngressRules E st' ings = parseIngressRules E st ings"
proof -
  have "route_service st' = route_service st" by (intro ext) (unfold route_service_def assms, rule refl)
  then show ?thesis by (simp add: parseIngressRules_def parse_ingress_def parse_rule_def)
qed

lemma Build_cong: "same_endpoints st st' \<Longrightarrow> Build E srt st' ord1 ord2 = Build E srt st ord1 ord2"
  unfolding Build_def fill_services_cong [of st st'] using parseIngressRules_cong [of st' st] by (simp only: same_endpoints_def)

text \<open>
  C17. An update of endpoints for which the handler sends no event has the same subsets, and then the parser
  builds the same configuration as before.
\<close>

theorem silent_endpoints_update:
  assumes "informer_cache c m" and "informer_cache c' m'" and "applies m (Updated x y) m'"
    and "informer_events cls epInformer (Updated x y) = Ok []"
    and "f' = f\<lparr>Endpoints_Store := c'\<rparr>" and "Endpoints_Store f = c"
  shows "Build E srt (as_store (store_New f' mf valid)) ord1 ord2 = Build E srt (as_store (store_New f mf valid)) ord1 ord2"
proof (rule Build_cong)
  obtain a b where xy: "x = ObjEndpoints a" "y = ObjEndpoints b" "eps_Subsets b = eps_Subsets a"
    using assms(4) by (auto simp: Endpoints_OnUpdate_def go_simps split: if_splits)
  have "rbind (rbind (Ok (m' k)) (found_as as_Endpoints e)) (\<lambda>e. Ok (eps_Subsets e)) =
      rbind (rbind (Ok (m k)) (found_as as_Endpoints e)) (\<lambda>e. Ok (eps_Subsets e))" for k e
    using assms(3) xy by (auto simp: found_as_def)
  then show "same_endpoints (as_store (store_New f mf valid)) (as_store (store_New f' mf valid))"
    using informer_cache.get [OF assms(1)] informer_cache.get [OF assms(2)]
    by (simp add: same_endpoints_def as_store_def fun_eq_iff store_GetEndpointsForService_def store_GetByKey_def getStore_def kind_defs
      Let_def store_ListServices_def store_GetManbaCluster_def store_ListManbaIngresses_def store_New_def assms(5,6))
qed

section \<open>Samples\<close>

definition class_meta :: "string \<Rightarrow> string \<Rightarrow> ObjectMeta" where
  "class_meta cls name = (sample_meta name)\<lparr>meta_Annotations := [(ingressClassKey, cls)]\<rparr>"

definition class_ingress :: "string \<Rightarrow> ManbaHTTPRule list \<Rightarrow> ManbaIngress" where
  "class_ingress cls rules = (sample_ingress rules)\<lparr>ing_Meta := class_meta cls ''ing''\<rparr>"

definition sample_factory :: "Endpoints list \<Rightarrow> SharedInformerFactory" where
  "sample_factory eps = \<lparr>Secrets_Get = (\<lambda>ns name. Err (StatusNotFound ''secret'' name)), Services_List = (\<lambda>ns label. Ok [sample_svc ''s'']),
     Services_Store = list_cache [ObjService (sample_svc ''s'')], Endpoints_Store = list_cache (map ObjEndpoints eps)\<rparr>"

definition sample_manba :: "ManbaCluster list \<Rightarrow> ManbaIngress list \<Rightarrow> ManbaInformerFactory" where
  "sample_manba clusters ings = \<lparr>ManbaClusters_Store = list_cache (map ObjManbaCluster clusters), ManbaIngresses_Store = list_cache (map ObjManbaIngress ings)\<rparr>"

definition class_store :: "string \<Rightarrow> Endpoints list \<Rightarrow> ManbaCluster list \<Rightarrow> ManbaIngress list \<Rightarrow> store_struct" where
  "class_store cls eps clusters ings = store_New (sample_factory eps) (sample_manba clusters ings) (IngressClassValidatorFuncFromObjectMeta cls)"

definition renamed_eps :: "string list \<Rightarrow> Endpoints" where
  "renamed_eps ips = (sample_eps ips)\<lparr>eps_Meta := (sample_meta ''s'')\<lparr>meta_Labels := [(''rev'', ''2'')]\<rparr>\<rparr>"

text \<open>The caches of the samples keep the contract.\<close>

interpretation sample_eps_cache: informer_cache "list_cache [ObjEndpoints (sample_eps [''10.0.0.1''])]" "cache_objs [ObjEndpoints (sample_eps [''10.0.0.1''])]"
  by (rule list_cache_informer) (simp add: cacheable_def)

interpretation renamed_eps_cache: informer_cache "list_cache [ObjEndpoints (renamed_eps [''10.0.0.1''])]" "cache_objs [ObjEndpoints (renamed_eps [''10.0.0.1''])]"
  by (rule list_cache_informer) (simp add: cacheable_def)

interpretation cluster_cache: informer_cache "list_cache [ObjManbaCluster (sample_crd ''a'')]" "cache_objs [ObjManbaCluster (sample_crd ''a'')]"
  by (rule list_cache_informer) (simp add: cacheable_def)

interpretation ingress_cache: informer_cache "list_cache [ObjManbaIngress (class_ingress cls rules)]" "cache_objs [ObjManbaIngress (class_ingress cls rules)]" for cls rules
  by (rule list_cache_informer) (simp add: cacheable_def)

lemmas key_defs = meta_key_def object_key_def cache_objs_def sample_meta_def class_meta_def class_ingress_def sample_ingress_def
  sample_eps_def renamed_eps_def sample_crd_def

theorem silent_endpoints_update_witness:
  "Build sample_enums SliceStable (as_store (store_New (sample_factory [renamed_eps [''10.0.0.1'']]) (sample_manba [sample_crd ''a''] [sample_ingress [path_rule ''/a'' ''a'']]) (IngressClassValidatorFuncFromObjectMeta ''manba''))) id id =
   Build sample_enums SliceStable (as_store (store_New (sample_factory [sample_eps [''10.0.0.1'']]) (sample_manba [sample_crd ''a''] [sample_ingress [path_rule ''/a'' ''a'']]) (IngressClassValidatorFuncFromObjectMeta ''manba''))) id id"
  by (rule silent_endpoints_update [OF sample_eps_cache.informer_cache_axioms renamed_eps_cache.informer_cache_axioms,
      where x = "ObjEndpoints (sample_eps [''10.0.0.1''])" and y = "ObjEndpoints (renamed_eps [''10.0.0.1''])" and cls = "''manba''"])
    (simp_all add: key_defs fun_eq_iff Endpoints_OnUpdate_def sample_factory_def)


lemma sample_metas [simp]: "mc_Meta (sample_crd name) = sample_meta name" "eps_Meta (sample_eps ips) = sample_meta ''s''"
    "meta_Namespace (sample_meta name) = ''ns''" "meta_Name (sample_meta name) = name"
  by (simp_all add: sample_crd_def sample_eps_def sample_meta_def)

theorem store_Get_exact_witness:
  "(store_GetManbaCluster (class_store ''manba'' [sample_eps [''10.0.0.1'']] [sample_crd ''a''] []) ''ns'' ''a'' = Ok (sample_crd ''a'')) =
     (ObjManbaCluster (sample_crd ''a'') \<in> ran (cache_objs [ObjManbaCluster (sample_crd ''a'')]) \<and>
      meta_Namespace (mc_Meta (sample_crd ''a'')) = ''ns'' \<and> meta_Name (mc_Meta (sample_crd ''a'')) = ''a'')"
  by (rule conjunct1 [OF store_Get_exact [where y = "sample_eps []" and endpoints = "cache_objs [ObjEndpoints (sample_eps [''10.0.0.1''])]"]])
    (auto simp: class_store_def store_New_def sample_manba_def sample_factory_def cluster_cache.informer_cache_axioms
      sample_eps_cache.informer_cache_axioms named_objects_def ran_cache_objs)

section \<open>Changes that go unnoticed\<close>


text \<open>
  A deletion that the informer did not observe arrives as a tombstone, which has no metadata: the
  handler drops it, although the ingress is gone.
\<close>

theorem vanished_ingress_unnoticed:
  "informer_events ''manba'' manbaIngInformer (Vanished (ObjManbaIngress (sample_ingress []))) = Ok [] \<and>
   store_ListManbaIngresses (class_store ''manba'' [] [] [sample_ingress []]) = [sample_ingress []] \<and>
   store_ListManbaIngresses (class_store ''manba'' [] [] []) = []"
  by (simp add: Resource_OnDelete_def class_store_def store_New_def store_ListManbaIngresses_eq sample_manba_def
    list_cache_def IngressClassValidatorFuncFromObjectMeta_def go_index_def validIngress_def DefaultIngressClass_def sample_ingress_def sample_meta_def)

end
