(* ===== verification/Lifecycle.thy ===== *)
theory Lifecycle
  imports Task_Queue Election Informers
begin

text \<open>
  Making, starting and stopping the controller: \<open>NewManbaController\<close>, the loop of \<open>Start\<close> and \<open>Stop\<close> of
  \<open>pkg/ingress/controller/controller.go\<close>, and the callbacks of \<open>NewStatusSyncer\<close>. The statements of the loop and of \<open>Stop\<close> interleave with the
  goroutine that \<open>Stop\<close> starts, so they are steps on the fields of the controller they touch.
\<close>

section \<open>The configuration\<close>

record controller_Config =
  cfg_ElectionID :: string
  cfg_IngressClass :: string
  cfg_ResyncPeriod :: int
  cfg_SyncRateLimit :: string
  cfg_Concurrency :: int
  cfg_PublishService :: string
  cfg_PublishStatusAddress :: string
  cfg_UpdateStatus :: bool

text \<open>The configuration \<open>NewManbaController\<close> gives the status syncer, if there is one.\<close>

definition controller_status :: "controller_Config \<Rightarrow> PodInfo \<Rightarrow> status_Config option" where
  "controller_status cfg pod =
     (if cfg_UpdateStatus cfg then
        Some \<lparr>PublishStatusAddress = cfg_PublishStatusAddress cfg, PublishService = cfg_PublishService cfg, ElectionID = cfg_ElectionID cfg,
          UpdateStatusOnShutdown = False, status_pod = pod\<rparr>
      else None)"

section \<open>Start and Stop\<close>

text \<open>
  A task is an object of an event, or the empty ingress that forces a synchronisation. The channel of
  updates holds values of any type; \<open>None\<close> is one that is no event.
\<close>

datatype task = Forced | Task k8s_obj

record ('q, 'k) controller =
  c_syncQueue :: "'q Queue"
  c_updateCh :: "ctrl_Event option list"
  c_stopClosed :: bool
  c_isShuttingDown :: bool
  c_spawned :: bool
  c_kube :: 'k

text \<open>
  \<open>NewManbaController\<close>, with the pod information that decides where the lock lives. \<open>glog.Fatalf\<close> ends the process
  like the error does in \<open>main\<close>. The callbacks of the election are those of the status syncer, if there is
  one; its configuration stands for them.
\<close>

definition NewManbaController ::
    "'k kube \<Rightarrow> (string \<Rightarrow> string) \<Rightarrow> string result \<Rightarrow> (string \<Rightarrow> string \<Rightarrow> string \<Rightarrow> string \<Rightarrow> 'lock result) \<Rightarrow>
     (('lock, status_Config option) LeaderElectionConfig \<Rightarrow> 'e result) \<Rightarrow> 'q \<Rightarrow> controller_Config \<Rightarrow> ctrl_Event option list \<Rightarrow> 'k \<Rightarrow>
     (('q, 'k) controller \<times> status_Config option \<times> 'e) result" where
  "NewManbaController K Getenv hostname New NewLeaderElector q cfg updateCh k =
     (let m = \<lparr>c_syncQueue = NewTaskQueue q, c_updateCh = updateCh, c_stopClosed = False, c_isShuttingDown = False, c_spawned = False, c_kube = k\<rparr> in
      rbind (wrap_err ''unexpected error obtaining pod information'' (GetPodDetails K k Getenv)) (\<lambda>pod.
      let syncStatus = controller_status cfg pod in
      rbind (NewElection hostname New NewLeaderElector (controller_election (cfg_ElectionID cfg) pod syncStatus)) (\<lambda>elector.
      Ok (m, syncStatus, elector))))"

text \<open>
  What happens when this controller starts to lead: with a status syncer its callback forces a synchronisation,
  and then enqueues a dummy object for the status once per minute; the keys of that queue are the
  objects.
\<close>

definition OnStartedLeading :: "('t, 'q) workqueue \<Rightarrow> (task \<Rightarrow> 't result) \<Rightarrow> int \<Rightarrow> status_Config option \<Rightarrow> ('q, 'k) controller \<Rightarrow> ('q, 'k) controller" where
  "OnStartedLeading W fn now callbacks m =
     (case callbacks of None \<Rightarrow> m | Some s \<Rightarrow> m\<lparr>c_syncQueue := Enqueue W fn now Forced (c_syncQueue m)\<rparr>)"

definition status_keyfunc :: "string \<Rightarrow> string result" where
  "status_keyfunc input = Ok input"

definition status_poll :: "(string, 'q) workqueue \<Rightarrow> int \<Rightarrow> 'q Queue \<Rightarrow> 'q Queue" where
  "status_poll W now t = Enqueue W status_keyfunc now ''sync status'' t"

definition Start_init :: "('t, 'q) workqueue \<Rightarrow> (task \<Rightarrow> 't result) \<Rightarrow> int \<Rightarrow> ('q, 'k) controller \<Rightarrow> ('q, 'k) controller" where
  "Start_init W fn now m = m\<lparr>c_syncQueue := Enqueue W fn now Forced (c_syncQueue m)\<rparr>"

text \<open>The two branches of the \<open>select\<close>. A \<open>break\<close> in a branch leaves the \<open>select\<close>, and the loop goes on.\<close>

definition select_event :: "('t, 'q) workqueue \<Rightarrow> (task \<Rightarrow> 't result) \<Rightarrow> int \<Rightarrow> ctrl_Event option \<Rightarrow> ('q, 'k) controller \<Rightarrow> ('q, 'k) controller" where
  "select_event W fn now event m =
     (if c_isShuttingDown m then m
      else (case event of Some evt \<Rightarrow> m\<lparr>c_syncQueue := Enqueue W fn now (Task (evt_Obj evt)) (c_syncQueue m)\<rparr> | None \<Rightarrow> m))"

definition select_stop :: "('q, 'k) controller \<Rightarrow> ('q, 'k) controller" where
  "select_stop m = m"

definition controller_Stop ::
    "('t, 'q) workqueue \<Rightarrow> (bool \<Rightarrow> 'k \<Rightarrow> 'k) option \<Rightarrow> bool \<Rightarrow> ('q, 'k) controller \<Rightarrow> ('q, 'k) controller \<times> unit result" where
  "controller_Stop W status_shutdown isLeader m =
     (let m = m\<lparr>c_isShuttingDown := True\<rparr> in
      if IsShuttingDown W (c_syncQueue m) then (m, Err (NewError ''shutdown already in progress''))
      else if c_stopClosed m then (m, Panic ''close of closed channel'')
      else
        let m = m\<lparr>c_stopClosed := True, c_spawned := True\<rparr> in
        (case status_shutdown of
           None \<Rightarrow> (m, Ok ())
         | Some sd \<Rightarrow> (m\<lparr>c_kube := sd isLeader (c_kube m)\<rparr>, Ok ())))"

text \<open>The goroutine \<open>Stop\<close> starts.\<close>

definition spawned_Shutdown :: "('t, 'q) workqueue \<Rightarrow> ('q, 'k) controller \<Rightarrow> ('q, 'k) controller" where
  "spawned_Shutdown W m = m\<lparr>c_syncQueue := queue_Shutdown W (c_syncQueue m), c_spawned := False\<rparr>"

text \<open>A ring channel of 1024 elements drops its oldest element when it is full.\<close>

definition ring_send :: "'a \<Rightarrow> 'a list \<Rightarrow> 'a list" where
  "ring_send x ch = (if length ch < 1024 then ch @ [x] else tl ch @ [x])"

text \<open>
  One iteration of the loop: it takes the next event, which a handler may have sent meanwhile, or it sees the
  closed channel.
\<close>

inductive loop_step :: "('t, 'q) workqueue \<Rightarrow> (task \<Rightarrow> 't result) \<Rightarrow> ('q, 'k) controller \<Rightarrow> ('q, 'k) controller \<Rightarrow> bool" for W fn where
  loop_event: "c_updateCh m = event # rest \<Longrightarrow> loop_step W fn m (select_event W fn now event (m\<lparr>c_updateCh := rest\<rparr>))"
| loop_stop: "c_stopClosed m \<Longrightarrow> loop_step W fn m (select_stop m)"
| loop_send: "loop_step W fn m (m\<lparr>c_updateCh := ring_send event (c_updateCh m)\<rparr>)"

inductive_simps loop_step_iff: "loop_step W fn m m'"

section \<open>The properties\<close>

text \<open>
  \<open>Stop\<close> succeeds on a running controller. Called again it reports that the shutdown is in progress once
  the goroutine it started has run; before that it closes the channel a second time and panics.
\<close>

theorem Stop_twice:
  assumes "work_queue W waiting" and "\<not> IsShuttingDown W (c_syncQueue m)" and "\<not> c_stopClosed m"
  shows "\<exists>m1. controller_Stop W sd leader m = (m1, Ok ()) \<and>
    snd (controller_Stop W sd leader (spawned_Shutdown W m1)) = Err (NewError ''shutdown already in progress'') \<and>
    snd (controller_Stop W sd leader m1) = Panic ''close of closed channel''"
proof -
  let ?m = "m\<lparr>c_isShuttingDown := True, c_stopClosed := True, c_spawned := True\<rparr>"
  let ?m1 = "case sd of None \<Rightarrow> ?m | Some f \<Rightarrow> ?m\<lparr>c_kube := f leader (c_kube m)\<rparr>"
  have "controller_Stop W sd leader m = (?m1, Ok ())" using assms(2,3) by (simp add: controller_Stop_def split: option.split)
  moreover have "IsShuttingDown W (c_syncQueue (spawned_Shutdown W m1))" for m1 :: "('b, 'c) controller"
    using work_queue.closed(1) [OF assms(1)] by (simp add: spawned_Shutdown_def queue_Shutdown_def IsShuttingDown_def)
  moreover have "c_stopClosed ?m1" "\<not> IsShuttingDown W (c_syncQueue ?m1)" using assms(2) by (simp_all split: option.split)
  ultimately show ?thesis by (intro exI [of _ ?m1]) (simp add: controller_Stop_def IsShuttingDown_def)
qed


definition fresh_controller :: "(string ref_wq, unit) controller" where
  "fresh_controller = \<lparr>c_syncQueue = NewTaskQueue rq_empty, c_updateCh = [], c_stopClosed = False, c_isShuttingDown = False, c_spawned = False, c_kube = ()\<rparr>"

lemma fresh_controller_open: "\<not> IsShuttingDown ref_workqueue (c_syncQueue fresh_controller)" "\<not> c_stopClosed fresh_controller"
  by (simp_all add: fresh_controller_def IsShuttingDown_def NewTaskQueue_def rq_empty_def ref_workqueue_def)

theorem Stop_twice_witness:
  "\<exists>m1. controller_Stop ref_workqueue None True fresh_controller = (m1, Ok ()) \<and>
    snd (controller_Stop ref_workqueue None True (spawned_Shutdown ref_workqueue m1)) = Err (NewError ''shutdown already in progress'') \<and>
    snd (controller_Stop ref_workqueue None True m1) = Panic ''close of closed channel''"
  by (rule Stop_twice [OF refq.work_queue_axioms fresh_controller_open])


end
