(* ===== verification/Control_Loop.thy ===== *)
theory Control_Loop
  imports Lifecycle
begin

text \<open>
  The control loop as a whole. Informers change the caches and notify the loop of \<open>Start\<close> through the ring channel, the
  loop enqueues, and the worker of the queue calls \<open>syncManbaIngress\<close>, which reads the caches and brings the
  gateway to the configuration they describe. All of this interleaves; a change may come while a call is running,
  the ring may drop events, and the queue drops elements older than the last successful call. The property is
  that of a control loop: when it has come to rest, the gateway is in the state that the caches describe. It is
  proved in the locale \<open>control_loop\<close> for a queue with its contract and a synchronisation with the contract that
  \<open>Sync_Ingress\<close> provides.
\<close>

section \<open>The loop\<close>

text \<open>
  \<open>pl_caches\<close> is what the informers have seen, \<open>pl_pending\<close> the notifications their handlers have still to deliver,
  \<open>pl_events\<close> the ring channel, \<open>pl_world\<close> the gateway with the hash of the configuration applied last. \<open>pl_stale\<close>,
  which the program does not have, says that the caches have changed since the running call of \<open>sync\<close> began.
\<close>

record ('k, 'q, 'o, 'c, 'w) plant =
  pl_queue :: "('k, 'q) qsys"
  pl_caches :: 'c
  pl_pending :: "'o list"
  pl_events :: "'o list"
  pl_stale :: bool
  pl_world :: 'w

text \<open>
  The steps: the caches change and the handlers will be told; a handler sends its event; the loop takes an event
  and enqueues it; the queue and its worker move; the worker starts a call; the call ends. A call reads the
  caches one object after the other: as long as they stay the same it sees what they hold, otherwise it may see
  anything. The step \<open>changes\<close> comes with a notification whose object has a key. A change that no handler reports is no
  step: \<open>silent_ingress_change\<close> and \<open>silent_endpoints_update\<close> of \<open>Informers\<close> say which of those the configuration does
  not depend on, and \<open>cluster_change_unnoticed\<close> and \<open>vanished_ingress_unnoticed\<close> which it does.
\<close>

inductive plant_step ::
    "('k, 'q) workqueue \<Rightarrow> ('o \<Rightarrow> 'k result) \<Rightarrow> ('c \<Rightarrow> 'w \<Rightarrow> bool \<Rightarrow> 'w \<Rightarrow> bool) \<Rightarrow> ('k, 'q, 'o, 'c, 'w) plant \<Rightarrow> ('k, 'q, 'o, 'c, 'w) plant \<Rightarrow> bool"
  for W fn sync s where
  changes: "is_Ok (fn obj) \<Longrightarrow> plant_step W fn sync s (s\<lparr>pl_caches := c, pl_pending := pl_pending s @ [obj], pl_stale := True\<rparr>)"
| notified: "pl_pending s = obj # rest \<Longrightarrow> plant_step W fn sync s (s\<lparr>pl_pending := rest, pl_events := ring_send obj (pl_events s)\<rparr>)"
| delivered: "pl_events s = obj # rest \<Longrightarrow> plant_step W fn sync s
    (s\<lparr>pl_queue := (pl_queue s)\<lparr>sys_queue := Enqueue W fn (sys_now (pl_queue s)) obj (sys_queue (pl_queue s))\<rparr>, pl_events := rest\<rparr>)"
| queue_moves: "queue_step W fn (pl_queue s) l q \<Longrightarrow> (\<And>e ts. l \<noteq> Started e ts) \<Longrightarrow> (\<And>e ts ok. l \<noteq> Ended e ts ok) \<Longrightarrow>
    plant_step W fn sync s (s\<lparr>pl_queue := q\<rparr>)"
| sync_starts: "queue_step W fn (pl_queue s) (Started e ts) q \<Longrightarrow> plant_step W fn sync s (s\<lparr>pl_queue := q, pl_stale := False\<rparr>)"
| sync_ends: "queue_step W fn (pl_queue s) (Ended e ts ok) q \<Longrightarrow> (\<not> pl_stale s \<Longrightarrow> c = pl_caches s) \<Longrightarrow> sync c (pl_world s) ok w \<Longrightarrow>
    plant_step W fn sync s (s\<lparr>pl_queue := q, pl_world := w\<rparr>)"

abbreviation plant_open :: "('k, 'q) workqueue \<Rightarrow> ('k, 'q, 'o, 'c, 'w) plant \<Rightarrow> bool" where
  "plant_open W s \<equiv> \<not> IsShuttingDown W (sys_queue (pl_queue s))"

abbreviation under_way :: "('k, 'q, 'o, 'c, 'w) plant \<Rightarrow> bool" where
  "under_way s \<equiv> pl_pending s \<noteq> [] \<or> pl_events s \<noteq> []"

text \<open>The loop is at rest when no notification, event or element is left, so that the worker is not in a call either.\<close>

definition plant_rests :: "('q \<Rightarrow> 'k Element set) \<Rightarrow> ('k, 'q, 'o, 'c, 'w) plant \<Rightarrow> bool" where
  "plant_rests waiting s \<longleftrightarrow> pl_pending s = [] \<and> pl_events s = [] \<and> held waiting (pl_queue s) = {}"

text \<open>The start of the controller: the caches are synced, \<open>Start\<close> has forced the first task, the gateway is as it was found.\<close>

definition plant_start :: "('k, 'q) workqueue \<Rightarrow> ('o \<Rightarrow> 'k result) \<Rightarrow> 'q \<Rightarrow> int \<Rightarrow> 'c \<Rightarrow> 'o \<Rightarrow> 'w \<Rightarrow> ('k, 'q, 'o, 'c, 'w) plant" where
  "plant_start W fn q now c forced w =
     \<lparr>pl_queue = (queue_init q now)\<lparr>sys_queue := Enqueue W fn now forced (NewTaskQueue q)\<rparr>, pl_caches = c, pl_pending = [], pl_events = [],
      pl_stale = False, pl_world = w\<rparr>"

lemma ring_send_simps: "ring_send x ch \<noteq> []" "set (ring_send x ch) \<subseteq> insert x (set ch)"
  by (auto simp: ring_send_def dest: list.set_sel(2)) (metis list.set_sel(2) tl_Nil)

section \<open>At rest means in sync\<close>

text \<open>
  The contract of a call: its success establishes what the caches describe, and it keeps what it relies on of the
  gateway and the hash, whether it succeeds or fails.
\<close>

locale control_loop = work_queue W waiting
  for W :: "('k, 'q) workqueue" and waiting :: "'q \<Rightarrow> 'k Element set" +
  fixes fn :: "'o \<Rightarrow> 'k result" and sync :: "'c \<Rightarrow> 'w \<Rightarrow> bool \<Rightarrow> 'w \<Rightarrow> bool" and holds :: "'c \<Rightarrow> 'w \<Rightarrow> bool" and good :: "'w \<Rightarrow> bool"
  assumes sync_holds: "sync c w True w' \<Longrightarrow> good w \<Longrightarrow> holds c w'" and sync_good: "sync c w ok w' \<Longrightarrow> good w \<Longrightarrow> good w'"
begin

text \<open>
  The invariant. While a call runs on caches that have changed meanwhile, something newer than its start is on its
  way. As long as the gateway is not in sync, something that the worker will not skip is on its way.
\<close>

definition loop_inv :: "('k, 'q, 'o, 'c, 'w) plant \<Rightarrow> bool" where
  "loop_inv s \<longleftrightarrow> (let q = pl_queue s in
     (\<forall>obj \<in> set (pl_pending s) \<union> set (pl_events s). is_Ok (fn obj)) \<and> lastSync (sys_queue q) \<le> sys_now q \<and> good (pl_world s) \<and>
     (\<forall>e ts. sys_pc q = Syncing e ts \<longrightarrow> ts \<le> sys_now q \<and>
        (pl_stale s \<longrightarrow> under_way s \<or> (\<exists>e\<in>waiting (queue (sys_queue q)). ts \<le> Timestamp e))) \<and>
     (\<not> holds (pl_caches s) (pl_world s) \<longrightarrow> under_way s \<or> (\<exists>e\<in>held waiting q. lastSync (sys_queue q) \<le> Timestamp e)))"

lemma loop_invD:
  assumes "loop_inv s"
  shows "obj \<in> set (pl_pending s) \<Longrightarrow> is_Ok (fn obj)" and "obj \<in> set (pl_events s) \<Longrightarrow> is_Ok (fn obj)"
    and "lastSync (sys_queue (pl_queue s)) \<le> sys_now (pl_queue s)" and "good (pl_world s)"
    and "sys_pc (pl_queue s) = Syncing e ts \<Longrightarrow> ts \<le> sys_now (pl_queue s)"
    and "sys_pc (pl_queue s) = Syncing e ts \<Longrightarrow> pl_stale s \<Longrightarrow> under_way s \<or> (\<exists>e\<in>waiting (queue (sys_queue (pl_queue s))). ts \<le> Timestamp e)"
    and "\<not> holds (pl_caches s) (pl_world s) \<Longrightarrow> under_way s \<or> (\<exists>e\<in>held waiting (pl_queue s). lastSync (sys_queue (pl_queue s)) \<le> Timestamp e)"
  using assms by (auto simp: loop_inv_def Let_def)

lemma loop_invI:
  assumes "\<And>obj. obj \<in> set (pl_pending s) \<Longrightarrow> is_Ok (fn obj)" and "\<And>obj. obj \<in> set (pl_events s) \<Longrightarrow> is_Ok (fn obj)"
    and "lastSync (sys_queue (pl_queue s)) \<le> sys_now (pl_queue s)" and "good (pl_world s)"
    and "\<And>e ts. sys_pc (pl_queue s) = Syncing e ts \<Longrightarrow> ts \<le> sys_now (pl_queue s)"
    and "\<And>e ts. sys_pc (pl_queue s) = Syncing e ts \<Longrightarrow> pl_stale s \<Longrightarrow> under_way s \<or> (\<exists>e\<in>waiting (queue (sys_queue (pl_queue s))). ts \<le> Timestamp e)"
    and "\<not> holds (pl_caches s) (pl_world s) \<Longrightarrow> under_way s \<or> (\<exists>e\<in>held waiting (pl_queue s). lastSync (sys_queue (pl_queue s)) \<le> Timestamp e)"
  shows "loop_inv s"
  using assms by (auto simp: loop_inv_def Let_def)

text \<open>The moves of the queue between two calls: time goes on, and what the last successful call does not cover stays.\<close>

lemma queue_keeps:
  assumes "queue_step W fn q l q'" and "\<And>e ts. l \<noteq> Started e ts" and "\<And>e ts ok. l \<noteq> Ended e ts ok" and "\<not> IsShuttingDown W (sys_queue q')"
  shows "lastSync (sys_queue q') = lastSync (sys_queue q) \<and> sys_now q \<le> sys_now q' \<and>
    (\<forall>e ts. sys_pc q' = Syncing e ts \<longrightarrow> sys_pc q = Syncing e ts \<and> waiting (queue (sys_queue q)) \<subseteq> waiting (queue (sys_queue q'))) \<and>
    (\<forall>e\<in>held waiting q. lastSync (sys_queue q) \<le> Timestamp e \<longrightarrow> e \<in> held waiting q')"
  using assms(1)
proof cases
  case (enqueue obj)
  have "\<not> IsShuttingDown W (sys_queue q)" by (rule step_open [OF assms(1,4)])
  then have "waiting (queue (sys_queue q)) \<subseteq> waiting (queue (Enqueue W fn (sys_now q) obj (sys_queue q)))"
    by (auto simp: Enqueue_def add IsShuttingDown_def split: result.splits)
  moreover have "lastSync (Enqueue W fn (sys_now q) obj (sys_queue q)) = lastSync (sys_queue q)"
    by (auto simp: Enqueue_def split: result.splits)
  ultimately show ?thesis using enqueue by (auto simp: held_def split: worker_pc.splits)
next
  case (get item q1)
  then show ?thesis using taken [of "queue (sys_queue q)" item q1] by (auto simp: held_def)
next
  case (quit q1)
  then have "IsShuttingDown W (sys_queue q')"
    using ended [of "queue (sys_queue q)" q1] open_same(6) [of "queue (sys_queue q)" None q1]
    by (auto simp: worker_quit_def IsShuttingDown_def)
  with assms(4) show ?thesis by simp
next
  case shutdown
  with assms(4) show ?thesis by (simp add: IsShuttingDown_def queue_Shutdown_def closed)
next
  case (skip item)
  then show ?thesis by (auto simp: held_def worker_skip_def worker_skips_def waiting_same)
qed (use assms(2,3) in \<open>auto simp: held_def waiting_same split: worker_pc.splits\<close>)

lemma delivered_inv:
  assumes "loop_inv s" and "pl_events s = obj # rest" and "plant_open W s"
  shows "loop_inv (s\<lparr>pl_queue := (pl_queue s)\<lparr>sys_queue := Enqueue W fn (sys_now (pl_queue s)) obj (sys_queue (pl_queue s))\<rparr>, pl_events := rest\<rparr>)"
proof -
  note inv = loop_invD[OF assms(1)]
  obtain key where key: "fn obj = Ok key" using inv(2)[of obj] assms(2) by (cases "fn obj") auto
  let ?e = "\<lparr>Key = key, Timestamp = sys_now (pl_queue s)\<rparr>"
  have q: "Enqueue W fn (sys_now (pl_queue s)) obj (sys_queue (pl_queue s)) = (sys_queue (pl_queue s))\<lparr>queue := wq_Add W ?e (queue (sys_queue (pl_queue s)))\<rparr>"
    "waiting (wq_Add W ?e (queue (sys_queue (pl_queue s)))) = insert ?e (waiting (queue (sys_queue (pl_queue s))))"
    using assms(3) by (simp_all add: Enqueue_def key add IsShuttingDown_def)
  show ?thesis
    using inv(1-5) assms(2) by (intro loop_invI) (auto simp: q held_def)
qed

lemma queue_moves_inv:
  assumes "loop_inv s" and "queue_step W fn (pl_queue s) l q" and "\<And>e ts. l \<noteq> Started e ts" and "\<And>e ts ok. l \<noteq> Ended e ts ok"
    and "\<not> IsShuttingDown W (sys_queue q)"
  shows "loop_inv (s\<lparr>pl_queue := q\<rparr>)"
proof -
  note inv = loop_invD[OF assms(1)] and keep = queue_keeps[OF assms(2-5)]
  show ?thesis
  proof (rule loop_invI)
    show "under_way (s\<lparr>pl_queue := q\<rparr>) \<or> (\<exists>e\<in>waiting (queue (sys_queue (pl_queue (s\<lparr>pl_queue := q\<rparr>)))). ts \<le> Timestamp e)"
      if "sys_pc (pl_queue (s\<lparr>pl_queue := q\<rparr>)) = Syncing e ts" and "pl_stale (s\<lparr>pl_queue := q\<rparr>)" for e ts
      using that inv(6)[of e ts] keep by (simp, blast)
    show "ts \<le> sys_now (pl_queue (s\<lparr>pl_queue := q\<rparr>))" if "sys_pc (pl_queue (s\<lparr>pl_queue := q\<rparr>)) = Syncing e ts" for e ts
      using that inv(5)[of e ts] keep by simp
    show "under_way (s\<lparr>pl_queue := q\<rparr>) \<or> (\<exists>e\<in>held waiting (pl_queue (s\<lparr>pl_queue := q\<rparr>)). lastSync (sys_queue (pl_queue (s\<lparr>pl_queue := q\<rparr>))) \<le> Timestamp e)"
      if "\<not> holds (pl_caches (s\<lparr>pl_queue := q\<rparr>)) (pl_world (s\<lparr>pl_queue := q\<rparr>))"
      using that inv(7) keep by (simp, blast)
  qed (use inv(1-4) keep in auto)
qed

lemma sync_ends_inv:
  assumes "loop_inv s" and "queue_step W fn (pl_queue s) (Ended e ts ok) q" and "\<not> pl_stale s \<Longrightarrow> c = pl_caches s"
    and "sync c (pl_world s) ok w" and "plant_open W s"
  shows "loop_inv (s\<lparr>pl_queue := q, pl_world := w\<rparr>)"
proof -
  note inv = loop_invD[OF assms(1)]
  from assms(2) obtain res where q: "sys_pc (pl_queue s) = Syncing e ts" "\<not> is_Panic res" "ok = is_Ok res"
      "q = (pl_queue s)\<lparr>sys_queue := worker_synced W e ts (sys_now (pl_queue s)) res (sys_queue (pl_queue s)), sys_pc := Idle\<rparr>"
    by cases (auto simp: enqueue_label_def split: if_splits result.splits)
  have w: "good w" using sync_good assms(4) inv(4) by blast
  show ?thesis
  proof (cases res)
    case (Ok u)
    then have "holds c w" using sync_holds assms(4) inv(4) q(3) by simp
    then show ?thesis
      using inv(1-3) inv(5,6)[OF q(1)] w assms(3) by (intro loop_invI) (auto simp: q(4) Ok held_def worker_synced_def waiting_same)
  next
    case (Err err)
    then have "waiting (queue (sys_queue q)) = insert \<lparr>Key = Key e, Timestamp = sys_now (pl_queue s)\<rparr> (waiting (queue (sys_queue (pl_queue s))))"
      "lastSync (sys_queue q) = lastSync (sys_queue (pl_queue s))" "sys_now q = sys_now (pl_queue s)" "sys_pc q = Idle"
      using assms(5) by (simp_all add: q(4) worker_synced_def waiting_same rate IsShuttingDown_def)
    then show ?thesis using inv(1-3) w by (intro loop_invI) (auto simp: held_def)
  qed (use q in simp)
qed

lemma plant_open_back: "plant_step W fn sync s s' \<Longrightarrow> plant_open W s' \<Longrightarrow> plant_open W s"
  by (erule plant_step.cases) (auto simp: Enqueue_def IsShuttingDown_def open_same split: if_splits result.splits dest: step_open)

lemma step_loop_inv:
  assumes "plant_step W fn sync s s'" and "plant_open W s'" and "loop_inv s"
  shows "loop_inv s'"
  using assms(1)
proof cases
  case (changes obj c)
  then show ?thesis using loop_invD[OF assms(3)] by (intro loop_invI) auto
next
  case (notified obj rest)
  then show ?thesis
    using loop_invD[OF assms(3)] ring_send_simps[of obj "pl_events s"] by (intro loop_invI) (auto dest!: subsetD)
next
  case (delivered obj rest)
  then show ?thesis using delivered_inv[OF assms(3)] plant_open_back[OF assms(1,2)] by simp
next
  case (queue_moves l q)
  then show ?thesis using queue_moves_inv[OF assms(3)] assms(2) by simp
next
  case (sync_starts e ts q)
  from sync_starts(2) have "sys_pc (pl_queue s) = Got e" "ts = sys_now (pl_queue s)" "q = (pl_queue s)\<lparr>sys_pc := Syncing e ts\<rparr>"
    by (cases; simp add: enqueue_label_def split: if_splits result.splits)+
  then show ?thesis using loop_invD(1-4,7)[OF assms(3)] unfolding sync_starts(1) by (intro loop_invI) (simp_all add: held_def)
next
  case (sync_ends e ts ok q c w)
  show ?thesis unfolding sync_ends(1)
    by (rule sync_ends_inv[OF assms(3) sync_ends(2-4) plant_open_back[OF assms(1,2)]])
qed

lemma start_inv:
  assumes "plant_open W (plant_start W fn q now c forced w)" and "good w" and "is_Ok (fn forced)" and "0 \<le> now"
  shows "loop_inv (plant_start W fn q now c forced w)"
proof -
  obtain key where "fn forced = Ok key" using assms(3) by (cases "fn forced") auto
  moreover have "\<not> wq_ShuttingDown W q"
    using assms(1) by (auto simp: plant_start_def Enqueue_def IsShuttingDown_def NewTaskQueue_def open_same split: if_splits result.splits)
  ultimately show ?thesis
    using assms(2,4) by (intro loop_invI) (auto simp: plant_start_def queue_init_def Enqueue_def IsShuttingDown_def NewTaskQueue_def held_def add)
qed

lemma at_rest:
  assumes "(plant_step W fn sync)\<^sup>*\<^sup>* (plant_start W fn q now c forced w) s" and "good w" and "is_Ok (fn forced)" and "0 \<le> now"
    and "plant_open W s" and "plant_rests waiting s"
  shows "holds (pl_caches s) (pl_world s)"
proof -
  have "plant_open W s \<Longrightarrow> loop_inv s" if "(plant_step W fn sync)\<^sup>*\<^sup>* (plant_start W fn q now c forced w) s" for s
    using that
  proof (induction rule: rtranclp_induct)
    case base
    then show ?case using start_inv assms(2-4) by blast
  next
    case (step s s')
    then show ?case using step_loop_inv plant_open_back by blast
  qed
  from loop_invD(7)[OF this[OF assms(1,5)]] assms(6) show ?thesis by (auto simp: plant_rests_def)
qed

end

section \<open>The synchronisation keeps the contract\<close>

text \<open>
  The gateway holds a configuration: its contents are those of the configuration with the IDs some call of
  \<open>setTargetsIDs\<close> gave it, without what the validators reject.
\<close>

definition realises :: "'w codecs \<Rightarrow> ('db, obj) memdb \<Rightarrow> ('n \<Rightarrow> 'n \<times> uint64) \<Rightarrow> validators \<Rightarrow> ('g \<Rightarrow> string \<Rightarrow> string \<rightharpoonup> wire) \<Rightarrow> ManbaRawState \<Rightarrow> 'g \<Rightarrow> bool" where
  "realises C D N V view t g \<longleftrightarrow> (\<exists>raw current n n' targetRaw. state_Get C D raw = Ok current \<and> setTargetsIDs C D N t current n = Ok (n', targetRaw) \<and>
     same_contents (view g) (raw_contents (filterInvalidations V targetRaw)))"

definition in_sync :: "'w codecs \<Rightarrow> ('db, obj) memdb \<Rightarrow> ('n \<Rightarrow> 'n \<times> uint64) \<Rightarrow> validators \<Rightarrow> ('g \<Rightarrow> string \<Rightarrow> string \<rightharpoonup> wire) \<Rightarrow>
    pb_enums \<Rightarrow> sort_Slice \<Rightarrow> store \<Rightarrow> 'h \<times> 'g \<Rightarrow> bool" where
  "in_sync C D N V view E sort_Slice st w \<longleftrightarrow> (\<exists>ord1 ord2 p. iteration ord1 \<and> iteration ord2 \<and> Build E sort_Slice st ord1 ord2 = Ok p \<and>
     realises C D N V view (toStable p) (snd w))"

text \<open>The hash of the running configuration is right: the gateway holds every configuration with that hash.\<close>

definition hash_right :: "'w codecs \<Rightarrow> ('db, obj) memdb \<Rightarrow> ('n \<Rightarrow> 'n \<times> uint64) \<Rightarrow> validators \<Rightarrow> ('g \<Rightarrow> string \<Rightarrow> string \<rightharpoonup> wire) \<Rightarrow>
    (ManbaRawState \<Rightarrow> 'h result) \<Rightarrow> 'h \<times> 'g \<Rightarrow> bool" where
  "hash_right C D N V view hash_of w \<longleftrightarrow> (\<forall>t. hash_of t = Ok (fst w) \<longrightarrow> realises C D N V view t (snd w))"

text \<open>
  A call of \<open>syncManbaIngress\<close> on an open queue. When the hash has changed, the gateway lists what it stores, with usable
  IDs, the generator yields unused ones, and no cluster lists an address twice. A call that fails has changed nothing, or
  none has succeeded before: \<open>OnUpdate\<close> keeps the old hash when it fails (\<open>OnUpdate_remembers\<close>), so that after a
  failure half-way the hash would be wrong.
\<close>

definition sync_call ::
    "'w codecs \<Rightarrow> ('db, obj) memdb \<Rightarrow> ('j, 'l, 'd) json_lib \<Rightarrow> ('n \<Rightarrow> 'n \<times> uint64) \<Rightarrow> validators \<Rightarrow> 'g client \<Rightarrow> ('g \<Rightarrow> string \<Rightarrow> string \<rightharpoonup> wire) \<Rightarrow> int \<Rightarrow>
     (ManbaRawState \<Rightarrow> 'h result) \<Rightarrow> pb_enums \<Rightarrow> sort_Slice \<Rightarrow> store \<Rightarrow> 'h \<times> 'g \<Rightarrow> bool \<Rightarrow> 'h \<times> 'g \<Rightarrow> bool" where
  "sync_call C D J N V client view concurrency hash_of E sort_Slice st w ok w' \<longleftrightarrow> (\<exists>ord1 ord2 n res.
     iteration ord1 \<and> iteration ord2 \<and> ok = is_Ok res \<and>
     syncManbaIngress C D J N V client concurrency hash_of (Build E sort_Slice st ord1 ord2) False (fst w) (snd w) n (fst w') (snd w') res \<and>
     (\<forall>p raw. Build E sort_Slice st ord1 ord2 = Ok p \<longrightarrow> hash_of (toStable p) \<noteq> Ok (fst w) \<longrightarrow> dump_Get client (snd w) = Ok raw \<longrightarrow>
        view (snd w) = raw_contents raw \<and> current_ok raw \<and> fresh_IDs N n (toStable p) raw \<and>
        (\<forall>c\<in>set (ps_Clusters p). distinct (map (\<lambda>s. Server_Addr (pServer s)) (pCluster_Servers c)))) \<and>
     (\<not> ok \<longrightarrow> snd w' = snd w \<or> (\<forall>t. hash_of t \<noteq> Ok (fst w))))"

text \<open>No two configurations have one hash, as one expects of SHA-256.\<close>

definition collision_free :: "(ManbaRawState \<Rightarrow> 'h result) \<Rightarrow> bool" where
  "collision_free hash_of \<longleftrightarrow> (\<forall>a b h. hash_of a = Ok h \<longrightarrow> hash_of b = Ok h \<longrightarrow> a = b)"

lemma update_target_dump: "update_target C D N V client p g n = Ok x \<Longrightarrow> \<exists>raw. dump_Get client g = Ok raw"
  by (cases "dump_Get client g") (auto simp: update_target_def)

lemma onUpdate_dump: "onUpdate C D J N V client concurrency p g n g' (Ok ()) \<Longrightarrow> \<exists>raw. dump_Get client g = Ok raw"
  by (erule onUpdate.cases) (auto dest: update_target_dump)

lemma sync_call_updates:
  assumes "manba_db D rows okd C" and "gateway_spec client view" and "concurrency + 12 < 2 ^ 32"
    and "sync_call C D J N V client view concurrency hash_of E sort_Slice st w True w'"
  obtains ord1 ord2 p where "iteration ord1" "iteration ord2" "Build E sort_Slice st ord1 ord2 = Ok p" "hash_of (toStable p) = Ok (fst w')"
    and "w' = w \<or> realises C D N V view (toStable p) (snd w')"
proof -
  obtain ord1 ord2 n res where ord: "iteration ord1" "iteration ord2" and "is_Ok res"
      "syncManbaIngress C D J N V client concurrency hash_of (Build E sort_Slice st ord1 ord2) False (fst w) (snd w) n (fst w') (snd w') res"
      and per: "\<And>p raw. Build E sort_Slice st ord1 ord2 = Ok p \<Longrightarrow> hash_of (toStable p) \<noteq> Ok (fst w) \<Longrightarrow> dump_Get client (snd w) = Ok raw \<Longrightarrow>
        view (snd w) = raw_contents raw \<and> current_ok raw \<and> fresh_IDs N n (toStable p) raw \<and>
        (\<forall>c\<in>set (ps_Clusters p). distinct (map (\<lambda>s. Server_Addr (pServer s)) (pCluster_Servers c)))"
    using assms(4) unfolding sync_call_def by (metis (no_types, lifting))
  then obtain p where p: "Build E sort_Slice st ord1 ord2 = Ok p" "OnUpdate C D J N V client concurrency hash_of p (fst w) (snd w) n (fst w') (snd w') (Ok ())"
    by (cases res) (auto elim: syncManbaIngress.cases)
  from p(2) show thesis
  proof cases
    case skipped
    then show ?thesis using that ord p(1) by (simp add: prod_eq_iff)
  next
    case updated
    obtain raw where raw: "dump_Get client (snd w) = Ok raw" using onUpdate_dump [OF updated(3)] by blast
    have "hash_of (toStable p) \<noteq> Ok (fst w)" using updated(1,2) by simp
    note per = per [OF p(1) this raw]
    have "target_ok (toStable p)" by (rule parsed_target_ok [OF Build_parsed_ok [OF p(1) ord]]) (use per in blast)
    from onUpdate_gateway [OF assms(1,2) raw _ _ this _ assms(3) updated(3)] per
    have "realises C D N V view (toStable p) (snd w')" unfolding realises_def by blast
    then show ?thesis using that ord p(1) updated by blast
  qed
qed

lemma sync_contract:
  assumes "work_queue W waiting" and "manba_db D rows okd C" and "gateway_spec client view" and "concurrency + 12 < 2 ^ 32" and "collision_free hash_of"
  shows "control_loop W waiting (sync_call C D J N V client view concurrency hash_of E sort_Slice) (in_sync C D N V view E sort_Slice) (hash_right C D N V view hash_of)"
proof (intro control_loop.intro control_loop_axioms.intro assms(1))
  fix c w w' ok
  let ?sync = "sync_call C D J N V client view concurrency hash_of E sort_Slice c w"
  assume good: "hash_right C D N V view hash_of w"
  have ends: "in_sync C D N V view E sort_Slice c w' \<and> hash_right C D N V view hash_of w'" if sync: "?sync True w'"
  proof -
    obtain ord1 ord2 p where p: "iteration ord1" "iteration ord2" "Build E sort_Slice c ord1 ord2 = Ok p" "hash_of (toStable p) = Ok (fst w')"
        "w' = w \<or> realises C D N V view (toStable p) (snd w')"
      by (rule sync_call_updates [OF assms(2-4) sync])
    then have "realises C D N V view (toStable p) (snd w')" using good by (auto simp: hash_right_def)
    with p assms(5) show ?thesis unfolding in_sync_def hash_right_def collision_free_def by blast
  qed
  then show "?sync True w' \<Longrightarrow> in_sync C D N V view E sort_Slice c w'" by blast
  show "hash_right C D N V view hash_of w'" if "?sync ok w'"
  proof (cases ok)
    case False
    then have "fst w' = fst w" "snd w' = snd w \<or> (\<forall>t. hash_of t \<noteq> Ok (fst w))"
      using that by (auto simp: sync_call_def elim!: syncManbaIngress.cases OnUpdate.cases)
    with good show ?thesis by (auto simp: hash_right_def)
  qed (use ends that in simp)
qed

section \<open>On the reference queue and gateway\<close>

text \<open>The key of a task, as \<open>defaultKeyFunc\<close> makes it of the namespace and the name, which the forced task lacks.\<close>

definition task_key :: "task \<Rightarrow> string result" where
  "task_key = defaultKeyFunc (\<lambda>t. case t of Forced \<Rightarrow> Ok [] | Task x \<Rightarrow> rbind (Accessor x) (\<lambda>meta. Ok (object_key meta)))"

definition sample_hash :: "ManbaRawState \<Rightarrow> ManbaRawState option result" where
  "sample_hash raw = Ok (Some raw)"

lemma sample_hash_ok: "collision_free sample_hash" "sample_hash t \<noteq> Ok None"
  by (auto simp: collision_free_def sample_hash_def)

interpretation ref_loop: control_loop ref_workqueue rq_waiting task_key
  "sync_call tagged_codecs refdb ref_json sample_next sample_validators ref_client ref_view 3 sample_hash sample_enums SliceStable"
  "in_sync tagged_codecs refdb sample_next sample_validators ref_view sample_enums SliceStable"
  "hash_right tagged_codecs refdb sample_next sample_validators ref_view sample_hash"
  by (rule sync_contract [OF refq.work_queue_axioms ref.manba_db_axioms refgw.gateway_spec_axioms _ sample_hash_ok(1)]) simp


text \<open>The first task is taken and its call succeeds.\<close>

definition sample_q0 :: "(string, string ref_wq) qsys" where
  "sample_q0 = (queue_init rq_empty 5)\<lparr>sys_queue := Enqueue ref_workqueue task_key 5 Forced (NewTaskQueue rq_empty)\<rparr>"

lemma sample_loop_queue:
  obtains q1 q2 q3 where "queue_step ref_workqueue task_key sample_q0 Internal q1"
    and "queue_step ref_workqueue task_key q1 (Started \<lparr>Key = [], Timestamp = 5\<rparr> 5) q2"
    and "queue_step ref_workqueue task_key q2 (Ended \<lparr>Key = [], Timestamp = 5\<rparr> 5 True) q3"
    and "\<not> IsShuttingDown ref_workqueue (sys_queue q3)" "held rq_waiting q3 = {}"
proof -
  have "Option.bind (queue_move ref_workqueue task_key Take sample_q0) (\<lambda>(l1, q1).
      Option.bind (queue_move ref_workqueue task_key Decide q1) (\<lambda>(l2, q2).
      map_option (\<lambda>(l3, q3). ([l1, l2, l3], IsShuttingDown ref_workqueue (sys_queue q3), held rq_waiting q3 = {}))
        (queue_move ref_workqueue task_key (Finish (Ok ())) q2))) =
      Some ([Internal, Started \<lparr>Key = [], Timestamp = 5\<rparr> 5, Ended \<lparr>Key = [], Timestamp = 5\<rparr> 5 True], False, True)"
    by code_simp
  then show thesis
    by (auto simp: bind_eq_Some_conv simp del: queue_move.simps dest!: queue_move_step intro: that)
qed

definition sample_plant :: "(string, string ref_wq, task, store, ManbaRawState option \<times> wire list) plant" where
  "sample_plant = plant_start ref_workqueue task_key rq_empty 5 two_rules Forced (None, raw_msgs sample_raw)"

abbreviation sample_call :: "store \<Rightarrow> ManbaRawState option \<times> wire list \<Rightarrow> bool \<Rightarrow> ManbaRawState option \<times> wire list \<Rightarrow> bool" where
  "sample_call \<equiv> sync_call tagged_codecs refdb ref_json sample_next sample_validators ref_client ref_view 3 sample_hash sample_enums SliceStable"

lemma sample_plant_run:
  obtains s where "(plant_step ref_workqueue task_key sample_call)\<^sup>*\<^sup>* sample_plant s" "plant_open ref_workqueue s" "plant_rests rq_waiting s"
    and "pl_caches s = two_rules" "fst (pl_world s) \<noteq> None"
proof -
  obtain p g' where p: "Build sample_enums SliceStable two_rules id id = Ok p"
      "\<forall>c\<in>set (ps_Clusters p). distinct (map (\<lambda>s. Server_Addr (pServer s)) (pCluster_Servers c))"
      "fresh_IDs sample_next 0 (toStable p) sample_dump"
      "onUpdate tagged_codecs refdb ref_json sample_next sample_validators ref_client 3 p (raw_msgs sample_raw) 0 g' (Ok ())"
    by (rule two_rules_update)
  have "syncManbaIngress tagged_codecs refdb ref_json sample_next sample_validators ref_client 3 sample_hash
      (Build sample_enums SliceStable two_rules id id) False None (raw_msgs sample_raw) 0 (Some (toStable p)) g' (Ok ())"
    by (rule syncManbaIngress.built [OF _ p(1)]) (auto intro!: OnUpdate.updated p(4) simp: sample_hash_def)
  then have call: "sample_call two_rules (None, raw_msgs sample_raw) True (Some (toStable p), g')"
    using p iteration_id sample_dump_Get sample_dump_view sample_dump_ok(1) unfolding sync_call_def
    by (intro exI [of _ id] exI [of _ 0] exI [of _ "Ok ()"]) simp
  obtain q1 q2 q3 where q: "queue_step ref_workqueue task_key sample_q0 Internal q1"
      "queue_step ref_workqueue task_key q1 (Started \<lparr>Key = [], Timestamp = 5\<rparr> 5) q2"
      "queue_step ref_workqueue task_key q2 (Ended \<lparr>Key = [], Timestamp = 5\<rparr> 5 True) q3"
      "\<not> IsShuttingDown ref_workqueue (sys_queue q3)" "held rq_waiting q3 = {}"
    by (rule sample_loop_queue)
  let ?s1 = "sample_plant\<lparr>pl_queue := q1\<rparr>" and ?s2 = "sample_plant\<lparr>pl_queue := q2\<rparr>" and ?s3 = "sample_plant\<lparr>pl_queue := q3, pl_world := (Some (toStable p), g')\<rparr>"
  have s0: "pl_queue sample_plant = sample_q0" "pl_caches sample_plant = two_rules" "pl_world sample_plant = (None, raw_msgs sample_raw)" "\<not> pl_stale sample_plant"
    "pl_pending sample_plant = []" "pl_events sample_plant = []"
    by (simp_all add: sample_plant_def plant_start_def sample_q0_def)
  have 1: "plant_step ref_workqueue task_key sample_call sample_plant ?s1"
    by (rule plant_step.queue_moves [where l = Internal]) (use q(1) s0(1) in simp_all)
  have "plant_step ref_workqueue task_key sample_call ?s1 (?s1\<lparr>pl_queue := q2, pl_stale := False\<rparr>)"
    by (rule plant_step.sync_starts) (use q(2) in simp)
  then have 2: "plant_step ref_workqueue task_key sample_call ?s1 ?s2" by (simp add: sample_plant_def plant_start_def)
  have "plant_step ref_workqueue task_key sample_call ?s2 (?s2\<lparr>pl_queue := q3, pl_world := (Some (toStable p), g')\<rparr>)"
    by (rule plant_step.sync_ends [where c = two_rules and ok = True]) (use q(3) s0 call in simp_all)
  then have 3: "plant_step ref_workqueue task_key sample_call ?s2 ?s3" by simp
  have run: "(plant_step ref_workqueue task_key sample_call)\<^sup>*\<^sup>* sample_plant ?s3"
    using 1 2 3 by (meson rtranclp.rtrancl_into_rtrancl rtranclp.rtrancl_refl)
  show thesis using that [OF run] s0 q(4,5) by (simp add: plant_rests_def)
qed


end
