(* ===== verification/Loop_Liveness.thy ===== *)
theory Loop_Liveness
  imports Control_Loop
begin

text \<open>
  The control loop comes to rest. \<open>Control_Loop\<close> says what holds once the loop is at rest; here that it gets there when
  the caches stop changing and calls succeed: the work that is left is bounded, no state with work left is stuck,
  and from every state that the controller can be in there is a way to a state of rest. It takes a queue that makes
  progress (\<open>progressing_queue\<close>) and a gateway that accepts what it is told (\<open>accepting_client\<close>).
\<close>

section \<open>Settling\<close>

text \<open>
  The steps in which the loop works off what it has: a handler sends, the loop enqueues, the worker takes an
  element, skips it, or starts and finishes a call with success. Between them time passes and delayed elements
  become ready.
\<close>

inductive works ::
    "('k, 'q) workqueue \<Rightarrow> ('o \<Rightarrow> 'k result) \<Rightarrow> ('c \<Rightarrow> 'w \<Rightarrow> bool \<Rightarrow> 'w \<Rightarrow> bool) \<Rightarrow> ('k, 'q, 'o, 'c, 'w) plant \<Rightarrow> ('k, 'q, 'o, 'c, 'w) plant \<Rightarrow> bool"
  for W fn sync s where
  notify: "pl_pending s = obj # rest \<Longrightarrow> works W fn sync s (s\<lparr>pl_pending := rest, pl_events := ring_send obj (pl_events s)\<rparr>)"
| deliver: "pl_events s = obj # rest \<Longrightarrow> works W fn sync s
    (s\<lparr>pl_queue := (pl_queue s)\<lparr>sys_queue := Enqueue W fn (sys_now (pl_queue s)) obj (sys_queue (pl_queue s))\<rparr>, pl_events := rest\<rparr>)"
| take: "sys_pc (pl_queue s) = Idle \<Longrightarrow> wq_Get W (queue (sys_queue (pl_queue s))) = Some (Some item, q) \<Longrightarrow>
    works W fn sync s (s\<lparr>pl_queue := (pl_queue s)\<lparr>sys_queue := (sys_queue (pl_queue s))\<lparr>queue := q\<rparr>, sys_pc := Got item\<rparr>\<rparr>)"
| skip: "sys_pc (pl_queue s) = Got item \<Longrightarrow> worker_skips (sys_queue (pl_queue s)) item \<Longrightarrow>
    works W fn sync s (s\<lparr>pl_queue := (pl_queue s)\<lparr>sys_queue := worker_skip W item (sys_queue (pl_queue s)), sys_pc := Idle\<rparr>\<rparr>)"
| start: "sys_pc (pl_queue s) = Got item \<Longrightarrow> \<not> worker_skips (sys_queue (pl_queue s)) item \<Longrightarrow>
    works W fn sync s (s\<lparr>pl_queue := (pl_queue s)\<lparr>sys_pc := Syncing item (sys_now (pl_queue s))\<rparr>, pl_stale := False\<rparr>)"
| succeed: "sys_pc (pl_queue s) = Syncing item ts \<Longrightarrow> (\<not> pl_stale s \<Longrightarrow> c = pl_caches s) \<Longrightarrow> sync c (pl_world s) True w \<Longrightarrow>
    works W fn sync s (s\<lparr>pl_queue := (pl_queue s)\<lparr>sys_queue := worker_synced W item ts (sys_now (pl_queue s)) (Ok ()) (sys_queue (pl_queue s)),
      sys_pc := Idle\<rparr>, pl_world := w\<rparr>)"

definition made_ready :: "('k, 'q) workqueue \<Rightarrow> ('k, 'q, 'o, 'c, 'w) plant \<Rightarrow> ('k, 'q, 'o, 'c, 'w) plant" where
  "made_ready W s = s\<lparr>pl_queue := (pl_queue s)\<lparr>sys_queue := (sys_queue (pl_queue s))\<lparr>queue := wq_ready W (queue (sys_queue (pl_queue s)))\<rparr>\<rparr>\<rparr>"

text \<open>The states the loop comes to by itself, with the number of steps of work.\<close>

inductive settles ::
    "('k, 'q) workqueue \<Rightarrow> ('o \<Rightarrow> 'k result) \<Rightarrow> ('c \<Rightarrow> 'w \<Rightarrow> bool \<Rightarrow> 'w \<Rightarrow> bool) \<Rightarrow> ('k, 'q, 'o, 'c, 'w) plant \<Rightarrow> nat \<Rightarrow> ('k, 'q, 'o, 'c, 'w) plant \<Rightarrow> bool"
  for W fn sync s where
  still: "settles W fn sync s 0 s"
| work: "settles W fn sync s n s' \<Longrightarrow> works W fn sync s' s'' \<Longrightarrow> settles W fn sync s (Suc n) s''"
| ready: "settles W fn sync s n s' \<Longrightarrow> settles W fn sync s n (made_ready W s')"
| wait: "settles W fn sync s n s' \<Longrightarrow> sys_now (pl_queue s') \<le> now \<Longrightarrow> settles W fn sync s n (s'\<lparr>pl_queue := (pl_queue s')\<lparr>sys_now := now\<rparr>\<rparr>)"

text \<open>The work that is left: a notification takes at most five steps, an event four, an element three.\<close>

definition work_left :: "('q \<Rightarrow> nat) \<Rightarrow> ('k, 'q, 'o, 'c, 'w) plant \<Rightarrow> nat" where
  "work_left backlog s = 5 * length (pl_pending s) + 4 * length (pl_events s) + 3 * backlog (queue (sys_queue (pl_queue s))) +
     (case sys_pc (pl_queue s) of Got _ \<Rightarrow> 2 | Syncing _ _ \<Rightarrow> 1 | _ \<Rightarrow> 0)"

lemma works_plant_step: "works W fn sync s s' \<Longrightarrow> plant_step W fn sync s s'"
proof (induction rule: works.induct)
  case (succeed item ts c w)
  have "queue_step W fn (pl_queue s) (Ended item ts (is_Ok (Ok ()))) ((pl_queue s)\<lparr>sys_queue := worker_synced W item ts (sys_now (pl_queue s)) (Ok ()) (sys_queue (pl_queue s)), sys_pc := Idle\<rparr>)"
    using succeed(1) by (intro queue_step.finish) simp_all
  then show ?case using succeed by (intro plant_step.sync_ends [where ok = True and e = item and ts = ts and c = c]) simp_all
qed (force intro: plant_step.intros queue_step.intros)+

lemma settles_plant_step: "settles W fn sync s n s' \<Longrightarrow> (plant_step W fn sync)\<^sup>*\<^sup>* s s'"
proof (induction rule: settles.induct)
  case (ready n s')
  have "plant_step W fn sync s' (made_ready W s')"
    unfolding made_ready_def by (rule plant_step.queue_moves [OF queue_step.becomes_ready]) simp_all
  with ready show ?case by simp
next
  case (wait n s' now)
  then have "plant_step W fn sync s' (s'\<lparr>pl_queue := (pl_queue s')\<lparr>sys_now := now\<rparr>\<rparr>)"
    by (intro plant_step.queue_moves [OF queue_step.time_passes]) simp_all
  with wait show ?case by simp
qed (auto dest: works_plant_step)

lemma settles_caches: "settles W fn sync s n s' \<Longrightarrow> pl_caches s' = pl_caches s"
  by (induction rule: settles.induct) (auto simp: made_ready_def elim!: works.cases)

section \<open>A queue that makes progress\<close>

text \<open>
  What client-go documents beyond \<open>work_queue\<close>: \<open>busy\<close> are the elements that were taken and are not done, and \<open>backlog\<close>
  bounds how often \<open>Get\<close> can return without a further \<open>Add\<close>. When nothing is busy and something waits, \<open>Get\<close> returns as
  soon as the delays are over. \<open>valid\<close> is the invariant of the queue.
\<close>

locale progressing_queue = work_queue W waiting
  for W :: "('k, 'q) workqueue" and waiting :: "'q \<Rightarrow> 'k Element set" +
  fixes valid :: "'q \<Rightarrow> bool" and busy :: "'q \<Rightarrow> 'k Element set" and backlog :: "'q \<Rightarrow> nat"
  assumes valid_same: "valid q \<Longrightarrow> valid (wq_Add W e q)" "valid q \<Longrightarrow> valid (wq_AddRateLimited W e q)" "valid q \<Longrightarrow> e \<in> busy q \<Longrightarrow> valid (wq_Done W e q)"
      "valid q \<Longrightarrow> valid (wq_Forget W e q)" "valid q \<Longrightarrow> valid (wq_ready W q)" "valid q \<Longrightarrow> valid (wq_ShutDown W q)"
      "valid q \<Longrightarrow> wq_Get W q = Some (r, q') \<Longrightarrow> valid q'"
    and busy_same: "busy (wq_Add W e q) = busy q" "busy (wq_AddRateLimited W e q) = busy q" "busy (wq_Forget W e q) = busy q"
      "busy (wq_ready W q) = busy q" "busy (wq_ShutDown W q) = busy q" "wq_Get W q = Some (None, q') \<Longrightarrow> busy q' = busy q"
    and busy_taken: "wq_Get W q = Some (Some e, q') \<Longrightarrow> busy q' = insert e (busy q)"
    and busy_done: "busy (wq_Done W e q) = busy q - {e}"
    and backlog_le: "backlog (wq_Add W e q) \<le> Suc (backlog q)" "backlog (wq_Done W e q) \<le> backlog q" "backlog (wq_Forget W e q) \<le> backlog q"
      "backlog (wq_ready W q) \<le> backlog q"
    and backlog_taken: "valid q \<Longrightarrow> wq_Get W q = Some (Some e, q') \<Longrightarrow> backlog q' < backlog q"
    and served: "valid q \<Longrightarrow> \<not> wq_ShuttingDown W q \<Longrightarrow> busy q = {} \<Longrightarrow> waiting q \<noteq> {} \<Longrightarrow> \<exists>e q'. wq_Get W (wq_ready W q) = Some (Some e, q')"
begin

text \<open>The worker has done what it took, and only the end of the queue makes it return.\<close>

definition worker_ok :: "('k, 'q) qsys \<Rightarrow> bool" where
  "worker_ok q \<longleftrightarrow> valid (queue (sys_queue q)) \<and> (case sys_pc q of
       Idle \<Rightarrow> busy (queue (sys_queue q)) = {}
     | Got e \<Rightarrow> busy (queue (sys_queue q)) = {e}
     | Syncing e ts \<Rightarrow> busy (queue (sys_queue q)) = {e}
     | Returned \<Rightarrow> busy (queue (sys_queue q)) = {} \<and> IsShuttingDown W (sys_queue q))"

lemma enqueue_keeps: "busy (queue (Enqueue W fn now obj t)) = busy (queue t)" "valid (queue t) \<Longrightarrow> valid (queue (Enqueue W fn now obj t))"
    "backlog (queue (Enqueue W fn now obj t)) \<le> Suc (backlog (queue t))" "IsShuttingDown W (Enqueue W fn now obj t) = IsShuttingDown W t"
  by (auto simp: Enqueue_def busy_same valid_same backlog_le IsShuttingDown_def open_same le_SucI split: result.splits)

lemma step_worker_ok: "queue_step W fn q l q' \<Longrightarrow> worker_ok q \<Longrightarrow> worker_ok q'"
proof (induction rule: queue_step.induct)
  case (enqueue s obj)
  then show ?case by (auto simp: worker_ok_def enqueue_keeps split: worker_pc.splits)
next
  case (get s item q)
  then show ?case by (auto simp: worker_ok_def valid_same(7) busy_taken)
next
  case (quit s q)
  then show ?case using ended open_same(6) by (auto simp: worker_ok_def worker_quit_def valid_same(7) busy_same(6) IsShuttingDown_def)
next
  case (finish s item ts res)
  then show ?case by (cases res) (auto simp: worker_ok_def worker_synced_def valid_same busy_same busy_done Let_def)
qed (auto simp: worker_ok_def worker_skip_def queue_Shutdown_def valid_same busy_same busy_done IsShuttingDown_def open_same closed split: worker_pc.splits)

lemma plant_worker_ok: "plant_step W fn sync s s' \<Longrightarrow> worker_ok (pl_queue s) \<Longrightarrow> worker_ok (pl_queue s')"
proof (induction rule: plant_step.induct)
  case (delivered obj rest)
  then show ?case by (auto simp: worker_ok_def enqueue_keeps split: worker_pc.splits)
qed (auto dest: step_worker_ok)

lemma plants_worker_ok: "(plant_step W fn sync)\<^sup>*\<^sup>* s s' \<Longrightarrow> worker_ok (pl_queue s) \<Longrightarrow> worker_ok (pl_queue s')"
  by (induction rule: rtranclp_induct) (auto dest: plant_worker_ok)

lemma start_worker_ok: "valid q \<Longrightarrow> busy q = {} \<Longrightarrow> worker_ok (pl_queue (plant_start W fn q now c forced w))"
  by (simp add: worker_ok_def plant_start_def queue_init_def enqueue_keeps NewTaskQueue_def)

lemma works_open: "works W fn sync s s' \<Longrightarrow> plant_open W s' \<longleftrightarrow> plant_open W s"
  by (induction rule: works.induct)
    (auto simp: enqueue_keeps(4)[unfolded IsShuttingDown_def] worker_skip_def worker_synced_def Let_def IsShuttingDown_def open_same dest: open_same(6))

text \<open>Work is used up.\<close>

lemma works_less: "works W fn sync s s' \<Longrightarrow> worker_ok (pl_queue s) \<Longrightarrow> work_left backlog s' < work_left backlog s"
proof (induction rule: works.induct)
  case (notify obj rest)
  have "length (ring_send obj (pl_events s)) \<le> Suc (length (pl_events s))" by (simp add: ring_send_def)
  then show ?case using notify by (simp add: work_left_def)
next
  case (deliver obj rest)
  then show ?case using enqueue_keeps(3)[of fn "sys_now (pl_queue s)" obj "sys_queue (pl_queue s)"] by (simp add: work_left_def)
next
  case (take item q)
  then have "backlog q < backlog (queue (sys_queue (pl_queue s)))" using backlog_taken by (simp add: worker_ok_def)
  then show ?case using take by (simp add: work_left_def)
next
  case (skip item)
  have "backlog (queue (worker_skip W item (sys_queue (pl_queue s)))) \<le> backlog (queue (sys_queue (pl_queue s)))"
    unfolding worker_skip_def using backlog_le(2,3) order_trans by fastforce
  then show ?case using skip by (simp add: work_left_def)
next
  case (succeed item ts c w)
  have "backlog (queue (worker_synced W item ts (sys_now (pl_queue s)) (Ok ()) (sys_queue (pl_queue s)))) \<le> backlog (queue (sys_queue (pl_queue s)))"
    unfolding worker_synced_def using backlog_le(2,3) order_trans by fastforce
  then show ?case using succeed by (simp add: work_left_def)
qed (simp add: work_left_def)

lemma settles_ok:
  assumes "settles W fn sync s n s'" and "worker_ok (pl_queue s)"
  shows "worker_ok (pl_queue s')" and "n + work_left backlog s' \<le> work_left backlog s" and "plant_open W s' \<longleftrightarrow> plant_open W s"
proof -
  show ok: "worker_ok (pl_queue s')" using plants_worker_ok[OF settles_plant_step] assms by blast
  show "n + work_left backlog s' \<le> work_left backlog s" using assms
  proof (induction rule: settles.induct)
    case (work n s' s'')
    then show ?case using works_less[OF work(2)] plants_worker_ok[OF settles_plant_step[OF work(1)]] by fastforce
  next
    case (ready n s')
    then show ?case using backlog_le(4)[of "queue (sys_queue (pl_queue s'))"] by (simp add: work_left_def made_ready_def)
  qed (simp_all add: work_left_def)
  show "plant_open W s' \<longleftrightarrow> plant_open W s"
    using assms(1) by (induction rule: settles.induct) (auto simp: works_open[unfolded IsShuttingDown_def] made_ready_def IsShuttingDown_def open_same)
qed

text \<open>And as long as the loop is not at rest, there is a step to do, if only after a delay.\<close>

lemma not_stuck:
  assumes "worker_ok (pl_queue s)" and "plant_open W s" and "\<not> plant_rests waiting s" and "sync (pl_caches s) (pl_world s) True w"
  shows "\<exists>s'. works W fn sync (made_ready W s) s' \<and> pl_world s' \<in> {pl_world s, w}"
proof -
  note step = works.intros[where s = "made_ready W s" and W = W and fn = fn and sync = sync]
  have by_step: ?thesis if "works W fn sync (made_ready W s) s'" "pl_world s' \<in> {pl_world s, w}" for s' using that by blast
  consider obj rest where "pl_pending s = obj # rest" | obj rest where "pl_events s = obj # rest" | "\<not> under_way s"
    by (cases "pl_pending s"; cases "pl_events s") auto
  then show ?thesis
  proof cases
    case 1
    then show ?thesis by (intro by_step[OF step(1)]) (auto simp: made_ready_def)
  next
    case 2
    then show ?thesis by (intro by_step[OF step(2)]) (auto simp: made_ready_def)
  next
    case rest: 3
    show ?thesis
    proof (cases "sys_pc (pl_queue s)")
      case Idle
      then have "waiting (queue (sys_queue (pl_queue s))) \<noteq> {}" using rest assms(3) by (simp add: plant_rests_def held_def)
      then obtain e q where "wq_Get W (wq_ready W (queue (sys_queue (pl_queue s)))) = Some (Some e, q)"
        using served[of "queue (sys_queue (pl_queue s))"] assms(1,2) Idle by (auto simp: worker_ok_def IsShuttingDown_def)
      then show ?thesis using Idle by (intro by_step[OF step(3)]) (auto simp: made_ready_def)
    next
      case (Got item)
      then show ?thesis
        by (cases "worker_skips (sys_queue (pl_queue (made_ready W s))) item")
          (intro by_step[OF step(4)] by_step[OF step(5)]; simp add: made_ready_def)+
    next
      case (Syncing item ts)
      then show ?thesis using assms(4) by (intro by_step[OF step(6)]) (auto simp: made_ready_def)
    qed (use assms(1,2) in \<open>simp add: worker_ok_def\<close>)
  qed
qed

text \<open>So the loop comes to rest, if calls can succeed on the caches as they are.\<close>

lemma comes_to_rest:
  assumes "worker_ok (pl_queue s)" and "plant_open W s" and "able (pl_world s)"
    and "\<And>w. able w \<Longrightarrow> \<exists>w'. sync (pl_caches s) w True w' \<and> able w'"
  shows "\<exists>n s'. settles W fn sync s n s' \<and> plant_rests waiting s'"
proof -
  have "\<exists>n s'. settles W fn sync s n s' \<and> plant_rests waiting s'" if "settles W fn sync s m s1" "able (pl_world s1)" for m s1
    using that
  proof (induction "work_left backlog s1" arbitrary: m s1 rule: less_induct)
    case less
    note ok = settles_ok[OF less.prems(1) assms(1)]
    show ?case
    proof (cases "plant_rests waiting s1")
      case False
      obtain w where w: "sync (pl_caches s1) (pl_world s1) True w" "able w"
        using assms(4)[OF less.prems(2)] settles_caches[OF less.prems(1)] by auto
      obtain s2 where s2: "works W fn sync (made_ready W s1) s2" "pl_world s2 \<in> {pl_world s1, w}"
        using not_stuck[where sync = sync, OF ok(1) _ False w(1)] ok(3) assms(2) by blast
      note run = settles.ready[OF less.prems(1)]
      have "work_left backlog s2 < work_left backlog (made_ready W s1)" by (rule works_less[OF s2(1) settles_ok(1)[OF run assms(1)]])
      also have "\<dots> \<le> work_left backlog s1" using backlog_le(4) by (simp add: work_left_def made_ready_def)
      finally show ?thesis using less.hyps settles.work[OF run s2(1)] s2(2) w(2) less.prems(2) by auto
    qed (use less.prems(1) in blast)
  qed
  from this[OF settles.still assms(3)] show ?thesis .
qed

end

section \<open>At rest and in sync\<close>

locale live_loop = control_loop W waiting fn sync holds good + progressing_queue W waiting valid busy backlog
  for W :: "('k, 'q) workqueue" and waiting :: "'q \<Rightarrow> 'k Element set" and fn :: "'o \<Rightarrow> 'k result" and sync :: "'c \<Rightarrow> 'w \<Rightarrow> bool \<Rightarrow> 'w \<Rightarrow> bool"
    and holds :: "'c \<Rightarrow> 'w \<Rightarrow> bool" and good :: "'w \<Rightarrow> bool" and valid :: "'q \<Rightarrow> bool" and busy :: "'q \<Rightarrow> 'k Element set" and backlog :: "'q \<Rightarrow> nat"
begin

lemma settles_in_sync:
  assumes "(plant_step W fn sync)\<^sup>*\<^sup>* (plant_start W fn q now c forced w) s" and "good w" and "is_Ok (fn forced)" and "0 \<le> now"
    and "valid q" "busy q = {}" and "plant_open W s" and "able (pl_world s)" and "\<And>w. able w \<Longrightarrow> \<exists>w'. sync (pl_caches s) w True w' \<and> able w'"
  shows "\<exists>n s'. settles W fn sync s n s' \<and> plant_rests waiting s' \<and> pl_caches s' = pl_caches s \<and> holds (pl_caches s) (pl_world s')"
    and "settles W fn sync s n s' \<Longrightarrow> n \<le> work_left backlog s"
    and "settles W fn sync s n s' \<Longrightarrow> plant_rests waiting s' \<or> (\<nexists>w. sync (pl_caches s') (pl_world s') True w) \<or> (\<exists>s''. works W fn sync (made_ready W s') s'')"
proof -
  have ok: "worker_ok (pl_queue s)" by (rule plants_worker_ok[OF assms(1) start_worker_ok[OF assms(5,6)]])
  obtain n s' where s': "settles W fn sync s n s'" "plant_rests waiting s'" using comes_to_rest[where sync = sync and able = able, OF ok assms(7-9)] by blast
  have "plant_open W s'" using settles_ok(3)[OF s'(1) ok] assms(7) by simp
  from at_rest[OF rtranclp_trans[OF assms(1) settles_plant_step[OF s'(1)]] assms(2-4) this s'(2)] s' settles_caches[OF s'(1)]
  show "\<exists>n s'. settles W fn sync s n s' \<and> plant_rests waiting s' \<and> pl_caches s' = pl_caches s \<and> holds (pl_caches s) (pl_world s')" by auto
next
  have ok: "worker_ok (pl_queue s)" by (rule plants_worker_ok[OF assms(1) start_worker_ok[OF assms(5,6)]])
  assume st: "settles W fn sync s n s'"
  note ok' = settles_ok[OF st ok]
  show "n \<le> work_left backlog s" using ok'(2) by simp
  show "plant_rests waiting s' \<or> (\<nexists>w. sync (pl_caches s') (pl_world s') True w) \<or> (\<exists>s''. works W fn sync (made_ready W s') s'')"
    using not_stuck[OF ok'(1), where sync = sync] ok'(3) assms(7) by blast
qed

end

section \<open>The reference queue makes progress\<close>

definition rq_valid :: "'k ref_wq \<Rightarrow> bool" where
  "rq_valid q \<longleftrightarrow> distinct (rq_queue q) \<and> set (rq_queue q) \<inter> set (rq_processing q) = {} \<and> set (rq_queue q) \<subseteq> set (rq_dirty q) \<and> set (rq_dirty q) \<subseteq> set (rq_queue q) \<union> set (rq_processing q)"

definition rq_backlog :: "'k ref_wq \<Rightarrow> nat" where
  "rq_backlog q = length (rq_dirty q) + length (rq_delayed q)"

lemma rq_add_keeps:
  "rq_valid q \<Longrightarrow> rq_valid (rq_add e q)" "rq_processing (rq_add e q) = rq_processing q" "rq_delayed (rq_add e q) = rq_delayed q"
  "rq_backlog (rq_add e q) \<le> Suc (rq_backlog q)"
  by (auto simp: rq_add_def rq_valid_def rq_backlog_def Let_def)

lemma rq_fold_keeps:
  "rq_valid q \<Longrightarrow> rq_valid (fold rq_add es q)" "rq_processing (fold rq_add es q) = rq_processing q" "rq_delayed (fold rq_add es q) = rq_delayed q"
  "rq_backlog (fold rq_add es q) \<le> length es + rq_backlog q"
proof (induction es arbitrary: q)
  case (Cons e es)
  { case 4 then show ?case using Cons(4)[of "rq_add e q"] rq_add_keeps(4)[of e q] by simp }
qed (auto simp: rq_add_keeps)

lemma rq_ready_keeps:
  "rq_valid q \<Longrightarrow> rq_valid (rq_ready q)" "rq_processing (rq_ready q) = rq_processing q" "rq_backlog (rq_ready q) \<le> rq_backlog q"
  "\<not> rq_down q \<Longrightarrow> rq_delayed (rq_ready q) = []"
  using rq_fold_keeps(4)[of "rq_delayed q" "q\<lparr>rq_delayed := []\<rparr>"]
  by (auto simp: rq_ready_def rq_fold_keeps rq_backlog_def intro!: rq_fold_keeps(1)) (auto simp: rq_valid_def)

interpretation refp: progressing_queue ref_workqueue rq_waiting rq_valid "\<lambda>q. set (rq_processing q)" rq_backlog
proof unfold_locales
  fix q q' :: "'a ref_wq" and e :: "'a Element"
  show "\<exists>e q'. wq_Get ref_workqueue (wq_ready ref_workqueue q) = Some (Some e, q')"
    if "rq_valid q" "\<not> wq_ShuttingDown ref_workqueue q" "set (rq_processing q) = {}" "rq_waiting q \<noteq> {}"
  proof -
    have "rq_waiting (rq_ready q) = rq_waiting q" using refq.waiting_same(3)[of q] by (simp add: ref_workqueue_def)
    then have "rq_queue (rq_ready q) \<noteq> []"
      using that rq_ready_keeps(1,2,4)[of q] by (auto simp: rq_waiting_def rq_valid_def ref_workqueue_def)
    then show ?thesis by (auto simp: ref_workqueue_def rq_get_def neq_Nil_conv)
  qed
  show "rq_backlog q' < rq_backlog q" if "rq_valid q" "wq_Get ref_workqueue q = Some (Some e, q')"
    using that by (auto simp: ref_workqueue_def rq_get_def rq_backlog_def rq_valid_def length_removeAll_less split: list.splits if_splits)
qed (auto simp: ref_workqueue_def rq_add_keeps rq_ready_keeps,
    auto simp: rq_valid_def rq_backlog_def rq_get_def rq_done_def Let_def split: list.splits if_splits)

section \<open>The gateway lets calls succeed\<close>

lemma sync_call_again:
  assumes "iteration ord1" "iteration ord2" and "Build E sort_Slice st ord1 ord2 = Ok p" and "hash_of (toStable p) = Ok (fst w)"
  shows "sync_call C D J N V client view concurrency hash_of E sort_Slice st w True w"
proof -
  have "syncManbaIngress C D J N V client concurrency hash_of (Build E sort_Slice st ord1 ord2) False (fst w) (snd w) n (fst w) (snd w) (Ok ())" for n
    using assms(3,4) by (auto intro!: syncManbaIngress.built OnUpdate.skipped)
  with assms show ?thesis unfolding sync_call_def by (intro exI[of _ ord1] exI[of _ ord2] exI exI[of _ "Ok ()"]) (auto)
qed

lemma sync_call_succeeds:
  assumes "manba_db D rows ok C" and "accepting_client client" and "0 < k" "k + 12 < 2 ^ 32" and "\<And>a b. is_Ok (Solver_Diff J a b)"
    and "iteration ord1" "iteration ord2" and "Build E sort_Slice st ord1 ord2 = Ok p" and "hash_of (toStable p) = Ok shaSum"
    and "\<forall>c\<in>set (ps_Clusters p). distinct (map (\<lambda>s. Server_Addr (pServer s)) (pCluster_Servers c))"
    and "dump_Get client (snd w) = Ok raw" and "view (snd w) = raw_contents raw" and "current_ok raw" and "fresh_IDs N n (toStable p) raw"
  shows "\<exists>w'. sync_call C D J N V client view (int k) hash_of E sort_Slice st w True w' \<and> hash_of (toStable p) = Ok (fst w')"
proof (cases "shaSum = fst w")
  case True
  then have "hash_of (toStable p) = Ok (fst w)" using assms(9) by simp
  from sync_call_again[where hash_of = hash_of, OF assms(6-8) this] this show ?thesis by blast
next
  case False
  have t: "target_ok (toStable p)" by (rule parsed_target_ok[OF Build_parsed_ok[OF assms(8,6,7)] assms(10)])
  obtain g' where g': "onUpdate C D J N V client (int k) p (snd w) n g' (Ok ())"
    using onUpdate_returns[OF assms(1,2,11,13) t assms(14,3,4), of J V] assms(5) by blast
  have "syncManbaIngress C D J N V client (int k) hash_of (Build E sort_Slice st ord1 ord2) False (fst w) (snd w) n shaSum g' (Ok ())"
    using assms(8,9) False g' by (auto intro!: syncManbaIngress.built OnUpdate.updated)
  then have "sync_call C D J N V client view (int k) hash_of E sort_Slice st w True (shaSum, g')"
    unfolding sync_call_def using assms(6-14)
    by (intro exI[of _ ord1] exI[of _ ord2] exI[of _ n] exI[of _ "Ok ()"]) auto
  then show ?thesis using assms(9) by auto
qed


interpretation ref_live: live_loop ref_workqueue rq_waiting task_key sample_call
  "in_sync tagged_codecs refdb sample_next sample_validators ref_view sample_enums SliceStable"
  "hash_right tagged_codecs refdb sample_next sample_validators ref_view sample_hash" rq_valid "\<lambda>q. set (rq_processing q)" rq_backlog
  by unfold_locales

lemma task_key_ok: "is_Ok (task_key Forced)" "rq_valid rq_empty" "set (rq_processing rq_empty) = {}" "is_Ok (sample_hash t)"
  by (simp_all add: task_key_def defaultKeyFunc_def rq_valid_def rq_empty_def sample_hash_def)


end
