(* ===== verification/Admission.thy ===== *)
theory Admission
  imports Informers
begin

text \<open>
  The admission webhook (\<open>pkg/admission/validator.go\<close>, \<open>pkg/admission/server.go\<close>): it refuses an ingress that names a
  cluster or subset the informer does not know, or a condition that is no regular expression. The
  compiler of regular expressions and the decoder of the request are parameters. The main property
  relates it to the parser: of an admitted ingress the parser drops no route.
\<close>

section \<open>The validator\<close>

definition match_isValid :: "(string \<Rightarrow> bool) \<Rightarrow> (string \<times> string) list \<Rightarrow> bool" where
  "match_isValid compiles data = list_all (\<lambda>(k, v). compiles v) data"

definition isManbaHTTPRouteMatchValid :: "(string \<Rightarrow> bool) \<Rightarrow> ManbaHTTPRouteMatch option \<Rightarrow> bool" where
  "isManbaHTTPRouteMatchValid compiles m =
     (case m of
        None \<Rightarrow> True
      | Some m \<Rightarrow> match_isValid compiles (rm_PathValue m) \<and> match_isValid compiles (rm_Query m) \<and> match_isValid compiles (rm_JSONBody m) \<and>
          match_isValid compiles (rm_Header m) \<and> match_isValid compiles (rm_FormData m) \<and> match_isValid compiles (rm_Cookie m))"

fun IsNotFound :: "go_error \<Rightarrow> bool" where
  "IsNotFound (StatusNotFound kind name) = True"
| "IsNotFound _ = False"

definition isClusterExist :: "cache_Store \<Rightarrow> string \<Rightarrow> ManbaHTTPRouteCluster \<Rightarrow> bool result" where
  "isClusterExist clusters namespace cluster =
     (case ManbaClusterLister_Get clusters namespace (rc_Name cluster) of
        Err err \<Rightarrow> if IsNotFound err then Ok False else Err err
      | Panic m \<Rightarrow> Panic m
      | Ok cls \<Rightarrow> Ok (fold (\<lambda>subSet exist. if rc_Subset cluster = ss_Name subSet then True else exist) (mc_Subsets cls) False))"

text \<open>The first loop collects the clusters; \<open>None\<close> is its early return.\<close>

fun route_clusters :: "(string \<Rightarrow> bool) \<Rightarrow> ManbaHTTPRoute list \<Rightarrow> ManbaHTTPRouteCluster list \<Rightarrow> ManbaHTTPRouteCluster list option" where
  "route_clusters compiles [] clusters = Some clusters"
| "route_clusters compiles (route # routes) clusters =
     (let clusters = clusters @ [route_Cluster route] in
      if \<not> isManbaHTTPRouteMatchValid compiles (route_Match route) then None else route_clusters compiles routes clusters)"

fun rule_clusters :: "(string \<Rightarrow> bool) \<Rightarrow> ManbaHTTPRule list \<Rightarrow> ManbaHTTPRouteCluster list \<Rightarrow> ManbaHTTPRouteCluster list option" where
  "rule_clusters compiles [] clusters = Some clusters"
| "rule_clusters compiles (rule # rules) clusters =
     (case route_clusters compiles (rule_Route rule) clusters of
        None \<Rightarrow> None
      | Some clusters \<Rightarrow> rule_clusters compiles rules
          ((clusters @ map routing_Cluster (rule_Mirror rule)) @ map routing_Cluster (rule_Split rule)))"

fun clusters_exist :: "cache_Store \<Rightarrow> string \<Rightarrow> ManbaHTTPRouteCluster list \<Rightarrow> (bool \<times> string) result" where
  "clusters_exist c ns [] = Ok (True, [])"
| "clusters_exist c ns (cluster # clusters) =
     rbind (isClusterExist c ns cluster) (\<lambda>exist.
       if \<not> exist then Ok (False, ''manba cluster '' @ ns @ ''/'' @ rc_Name cluster @ '' not found'')
       else clusters_exist c ns clusters)"

definition ValidateManbaIngress :: "(string \<Rightarrow> bool) \<Rightarrow> cache_Store \<Rightarrow> ManbaIngress \<Rightarrow> (bool \<times> string) result" where
  "ValidateManbaIngress compiles c ingress =
     (case rule_clusters compiles (spec_HTTP (ing_Spec ingress)) [] of
        None \<Rightarrow> Ok (False, ''manba http route match value must conform to the regular expression rule'')
      | Some clusters \<Rightarrow> clusters_exist c (meta_Namespace (ing_Meta ingress)) clusters)"

section \<open>The server\<close>

record GroupVersionResource =
  gvr_Group :: string
  gvr_Version :: string
  gvr_Resource :: string

definition manbaIngressResource :: GroupVersionResource where
  "manbaIngressResource = \<lparr>gvr_Group = ''configuration.manba.io'', gvr_Version = ''v1beta1'', gvr_Resource = ''manbaingresses''\<rparr>"

record admission_Request =
  req_Resource :: GroupVersionResource
  req_Object_Raw :: string

datatype admission_Response = Errored nat go_error | Denied string | Allowed string

definition Handle ::
    "(string \<Rightarrow> ManbaIngress result) \<Rightarrow> (ManbaIngress \<Rightarrow> (bool \<times> string) result) \<Rightarrow> admission_Request \<Rightarrow> admission_Response result" where
  "Handle decode validate req =
     (if req_Resource req = manbaIngressResource then
        (case decode (req_Object_Raw req) of
           Err err \<Rightarrow> Ok (Errored 500 err)
         | Panic m \<Rightarrow> Panic m
         | Ok ingress \<Rightarrow>
             (case validate ingress of
                Err err \<Rightarrow> Ok (Errored 500 err)
              | Panic m \<Rightarrow> Panic m
              | Ok (valid, msg) \<Rightarrow>
                  if \<not> valid then Ok (Denied msg)
                  else Ok (Allowed ''The resource definition conforms to the specification'')))
      else Ok (Allowed ''unknown resource type''))"

definition parseListen :: "string \<Rightarrow> (string \<times> int) result" where
  "parseListen listen =
     (case split_on (CHR '':'') listen of
        [host, portStr] \<Rightarrow>
          (case Atoi portStr of
             (port, Some atoiErr) \<Rightarrow> Err atoiErr
           | (port, None) \<Rightarrow> Ok (host, port))
      | _ \<Rightarrow> Err (NewError ''listen address must conform to <ip:port>''))"

section \<open>What is accepted\<close>

definition cluster_known :: "(string \<rightharpoonup> k8s_obj) \<Rightarrow> string \<Rightarrow> ManbaHTTPRouteCluster \<Rightarrow> bool" where
  "cluster_known objs ns cl \<longleftrightarrow> (\<exists>c. objs (ns @ ''/'' @ rc_Name cl) = Some (ObjManbaCluster c) \<and>
     (\<exists>ss\<in>set (mc_Subsets c). ss_Name ss = rc_Subset cl))"

definition clusters_only :: "(string \<rightharpoonup> k8s_obj) \<Rightarrow> bool" where
  "clusters_only objs \<longleftrightarrow> (\<forall>k x. objs k = Some x \<longrightarrow> (\<exists>c. x = ObjManbaCluster c))"

definition named_clusters :: "ManbaHTTPRule \<Rightarrow> ManbaHTTPRouteCluster list" where
  "named_clusters rule = map route_Cluster (rule_Route rule) @ map routing_Cluster (rule_Mirror rule) @ map routing_Cluster (rule_Split rule)"

definition matches_compile :: "(string \<Rightarrow> bool) \<Rightarrow> ManbaHTTPRule \<Rightarrow> bool" where
  "matches_compile compiles rule \<longleftrightarrow> list_all (\<lambda>r. isManbaHTTPRouteMatchValid compiles (route_Match r)) (rule_Route rule)"

lemma route_clusters_eq:
  "route_clusters compiles routes cs =
     (if list_all (\<lambda>r. isManbaHTTPRouteMatchValid compiles (route_Match r)) routes then Some (cs @ map route_Cluster routes) else None)"
  by (induction routes arbitrary: cs) auto

lemma rule_clusters_eq:
  "rule_clusters compiles rules cs =
     (if list_all (matches_compile compiles) rules then Some (cs @ concat (map named_clusters rules)) else None)"
  by (induction rules arbitrary: cs) (auto simp: route_clusters_eq matches_compile_def named_clusters_def)

lemma fold_exist: "fold (\<lambda>ss e. if P ss then True else e) xs b \<longleftrightarrow> b \<or> (\<exists>ss\<in>set xs. P ss)"
  by (induction xs arbitrary: b) auto

context informer_cache
begin

lemma isClusterExist_eq:
  assumes "clusters_only objs"
  shows "isClusterExist c ns cl = Ok (cluster_known objs ns cl)"
proof (cases "objs (ns @ ''/'' @ rc_Name cl)")
  case None
  then show ?thesis by (simp add: isClusterExist_def ManbaClusterLister_Get_def get found_as_def cluster_known_def)
next
  case (Some x)
  with assms obtain k where k: "x = ObjManbaCluster k" by (auto simp: clusters_only_def)
  show ?thesis
    using Some k fold_exist [of "\<lambda>ss. rc_Subset cl = ss_Name ss" "mc_Subsets k" False]
    by (auto simp: isClusterExist_def ManbaClusterLister_Get_def get found_as_def cluster_known_def) metis
qed

lemma clusters_exist_ok: "clusters_only objs \<Longrightarrow> \<exists>ok msg. clusters_exist c ns cls = Ok (ok, msg) \<and> (ok \<longleftrightarrow> list_all (cluster_known objs ns) cls)"
  by (induction cls) (auto simp: isClusterExist_eq)

lemma ValidateManbaIngress_ok:
  assumes "clusters_only objs"
  shows "\<exists>ok msg. ValidateManbaIngress compiles c ing = Ok (ok, msg) \<and> (ok \<longleftrightarrow>
    (\<forall>rule\<in>set (spec_HTTP (ing_Spec ing)). matches_compile compiles rule \<and>
       list_all (cluster_known objs (meta_Namespace (ing_Meta ing))) (named_clusters rule)))"
  using clusters_exist_ok [OF assms, of "meta_Namespace (ing_Meta ing)" "concat (map named_clusters (spec_HTTP (ing_Spec ing)))"]
  by (auto simp: ValidateManbaIngress_def rule_clusters_eq list_all_iff)

end

text \<open>
  C24. The webhook answers every request for an ingress that decodes, and allows it if and only if every
  condition of every route compiles and every cluster a route, mirror or split names exists in its
  namespace with the subset named.
\<close>

theorem Handle_exact:
  assumes "informer_cache c objs" and "clusters_only objs" and "req_Resource req = manbaIngressResource" and "decode (req_Object_Raw req) = Ok ing"
  shows "\<exists>resp. Handle decode (ValidateManbaIngress compiles c) req = Ok resp \<and>
    ((\<exists>msg. resp = Allowed msg) \<longleftrightarrow> (\<forall>rule\<in>set (spec_HTTP (ing_Spec ing)). matches_compile compiles rule \<and>
       list_all (cluster_known objs (meta_Namespace (ing_Meta ing))) (named_clusters rule))) \<and>
    ((\<exists>msg. resp = Allowed msg) \<or> (\<exists>msg. resp = Denied msg))"
  using informer_cache.ValidateManbaIngress_ok [OF assms(1,2), of compiles ing] assms(3,4) by (auto simp: Handle_def)

section \<open>Admitted ingresses and the parser\<close>

text \<open>The services of the parser only grow, and a route whose cluster is known gets its service.\<close>

definition service_names :: "services \<Rightarrow> string set" where
  "service_names svcs = dom (map_of svcs)"

lemma service_names_update [simp]: "service_names (AList.update k v svcs) = insert k (service_names svcs)"
  by (auto simp: service_names_def update_conv')

lemma route_service_names:
  assumes "route_service st ing apis route svcs = Ok svcs'"
  shows "service_names svcs \<subseteq> service_names svcs'"
  using assms by (auto simp: route_service_def Let_def go_simps split: option.splits result.splits)

text \<open>A store that has the clusters of the cache.\<close>

definition route_known :: "store \<Rightarrow> string \<Rightarrow> ManbaHTTPRoute \<Rightarrow> bool" where
  "route_known st ns route \<longleftrightarrow> (\<exists>c. GetManbaCluster st ns (rc_Name (route_Cluster route)) = Ok c \<and>
     (\<exists>ss\<in>set (mc_Subsets c). ss_Name ss = rc_Subset (route_Cluster route)))"

lemma getClusterSubset_found: "\<exists>ss\<in>set list. ss_Name ss = name \<Longrightarrow> \<exists>ss. getClusterSubset list name = Ok ss"
  by (induction list) auto

definition service_of :: "ManbaIngress \<Rightarrow> ManbaHTTPRoute \<Rightarrow> string" where
  "service_of ing route = cluster_name (meta_Namespace (ing_Meta ing)) (route_Cluster route)"

lemma route_service_known:
  assumes "route_service st ing apis route svcs = Ok svcs'" and "route_known st (meta_Namespace (ing_Meta ing)) route"
  shows "service_of ing route \<in> service_names svcs'"
proof -
  from assms(2) obtain c ss where "GetManbaCluster st (meta_Namespace (ing_Meta ing)) (rc_Name (route_Cluster route)) = Ok c"
      "getClusterSubset (mc_Subsets c) (rc_Subset (route_Cluster route)) = Ok ss"
    using getClusterSubset_found unfolding route_known_def by metis
  with assms(1) show ?thesis by (auto simp: route_service_def Let_def service_of_def split: option.splits)
qed

lemma route_service_total:
  assumes "\<And>ns n m. GetManbaCluster st ns n \<noteq> Panic m"
  shows "\<exists>svcs'. route_service st ing apis route svcs = Ok svcs'"
  using assms by (auto simp: route_service_def Let_def split: option.splits result.splits)

lemma parse_rule_names:
  assumes "parse_rule E st ing i (j, rule) hs = Ok hs'"
  shows "service_names (snd (snd hs)) \<subseteq> service_names (snd (snd hs'))"
    and "route \<in> set (rule_Route rule) \<Longrightarrow> route_known st (meta_Namespace (ing_Meta ing)) route \<Longrightarrow> service_of ing route \<in> service_names (snd (snd hs'))"
proof -
  obtain heap apis svcs heap' apis' svcs' where hs: "hs = (heap, apis, svcs)" "hs' = (heap', apis', svcs')" by (cases hs, cases hs') auto
  let ?apis = "apis @ [length heap..<length heap + length (rule_APIs E ing i j rule)]"
  have fold: "rfold (route_service st ing ?apis) (rule_Route rule) svcs = Ok svcs'"
    using assms by (auto simp: parse_rule_def hs Let_def go_simps)
  have "service_names svcs \<subseteq> service_names svcs'"
    by (rule rfold_invariant [OF fold, where P = "\<lambda>s. service_names svcs \<subseteq> service_names s"]) (auto dest: route_service_names)
  then show "service_names (snd (snd hs)) \<subseteq> service_names (snd (snd hs'))" by (simp add: hs)
  assume "route \<in> set (rule_Route rule)" "route_known st (meta_Namespace (ing_Meta ing)) route"
  then have "service_of ing route \<in> service_names svcs'"
    by (intro rfold_establishes [OF fold, where P = "\<lambda>s. service_of ing route \<in> service_names s"]) (auto dest: route_service_known route_service_names)
  then show "service_of ing route \<in> service_names (snd (snd hs'))" by (simp add: hs)
qed

lemma parse_ingress_names:
  assumes "parse_ingress E st (i, ing) hs = Ok hs'"
  shows "service_names (snd hs) \<subseteq> service_names (snd hs')"
    and "rule \<in> set (spec_HTTP (ing_Spec ing)) \<Longrightarrow> route \<in> set (rule_Route rule) \<Longrightarrow>
      route_known st (meta_Namespace (ing_Meta ing)) route \<Longrightarrow> service_of ing route \<in> service_names (snd hs')"
proof -
  obtain heap svcs heap' svcs' apis' where hs: "hs = (heap, svcs)" "hs' = (heap', svcs')"
      and fold: "rfold (parse_rule E st ing i) (enumerate 0 (spec_HTTP (ing_Spec ing))) (heap, [], svcs) = Ok (heap', apis', svcs')"
    using assms by (cases hs, cases hs') (auto simp: parse_ingress_def go_simps)
  have "service_names svcs \<subseteq> service_names (snd (snd (heap', apis', svcs')))"
    by (rule rfold_invariant [OF fold, where P = "\<lambda>s. service_names svcs \<subseteq> service_names (snd (snd s))"])
      (use parse_rule_names(1) in fastforce)+
  then show "service_names (snd hs) \<subseteq> service_names (snd hs')" by (simp add: hs)
  assume r: "rule \<in> set (spec_HTTP (ing_Spec ing))" "route \<in> set (rule_Route rule)" "route_known st (meta_Namespace (ing_Meta ing)) route"
  obtain j where "(j, rule) \<in> set (enumerate 0 (spec_HTTP (ing_Spec ing)))" using in_enumerate [OF r(1)] by blast
  then have "service_of ing route \<in> service_names (snd (snd (heap', apis', svcs')))"
    by (rule rfold_establishes [OF fold, where P = "\<lambda>s. service_of ing route \<in> service_names (snd (snd s))"])
      (use parse_rule_names r in fastforce)+
  then show "service_of ing route \<in> service_names (snd hs')" by (simp add: hs)
qed

lemma parseIngressRules_names:
  assumes "parseIngressRules E st ings = Ok (heap, svcs)" and "ing \<in> set ings" and "rule \<in> set (spec_HTTP (ing_Spec ing))"
    and "route \<in> set (rule_Route rule)" and "route_known st (meta_Namespace (ing_Meta ing)) route"
  shows "service_of ing route \<in> service_names svcs"
proof -
  let ?is = "SliceStable (\<lambda>i j. meta_CreationTimestamp (ing_Meta i) < meta_CreationTimestamp (ing_Meta j)) ings"
  obtain i where "(i, ing) \<in> set (enumerate 0 ?is)" using in_enumerate [of ing ?is] assms(2) by auto
  then have "service_of ing route \<in> service_names (snd (heap, svcs))"
    by (rule rfold_establishes [OF assms(1) [unfolded parseIngressRules_def], where P = "\<lambda>s. service_of ing route \<in> service_names (snd s)"])
      (use parse_ingress_names assms(3-5) in fastforce)+
  then show ?thesis by simp
qed

lemma parseIngressRules_total:
  assumes "\<And>ns n m. GetManbaCluster st ns n \<noteq> Panic m"
  shows "\<exists>heap svcs. parseIngressRules E st ings = Ok (heap, svcs)"
proof -
  have 1: "\<exists>s'. parse_rule E st ing i x s = Ok s'" for ing i x s
    unfolding parse_rule_def Let_def
    by (cases x; cases s; simp only: case_prod_conv) (intro rbind_total rfold_total ballI allI route_service_total assms; blast)
  have 2: "\<exists>s'. parse_ingress E st x s = Ok s'" for x s
    unfolding parse_ingress_def by (cases x; cases s; simp only: case_prod_conv) (intro rbind_total rfold_total ballI allI 1; auto)
  have "\<exists>s'. parseIngressRules E st ings = Ok s'" unfolding parseIngressRules_def by (intro rfold_total ballI allI 2)
  then show ?thesis by auto
qed

context informer_cache
begin

lemma known_route:
  assumes "ManbaClusters_Store (manbaFactory s) = c" and "cluster_known objs ns (route_Cluster route)"
  shows "route_known (as_store s) ns route"
  using assms by (auto simp: route_known_def as_store_def cluster_known_def store_GetManbaCluster_iff get)

lemma GetManbaCluster_no_panic:
  assumes "ManbaClusters_Store (manbaFactory s) = c" and "clusters_only objs"
  shows "GetManbaCluster (as_store s) ns n \<noteq> Panic m"
proof (cases "objs (ns @ ''/'' @ n)")
  case None
  with assms(1) show ?thesis
    by (simp add: as_store_def store_GetManbaCluster_def store_GetByKey_def getStore_def kind_defs get found_as_def)
next
  case (Some x)
  with assms(2) obtain k where "x = ObjManbaCluster k" by (auto simp: clusters_only_def)
  with Some assms(1) show ?thesis
    by (simp add: as_store_def store_GetManbaCluster_def store_GetByKey_def getStore_def kind_defs get found_as_def)
qed

end

lemma valid_match_compiles:
  assumes "slice_sort srt" and "isManbaHTTPRouteMatchValid compiles m" and "v \<in> set (ToManbaValidations E srt m)" and "q \<in> set (Val_Rules v)"
  shows "compiles (Rule_Expression q)"
proof (cases m)
  case None
  with assms(3) show ?thesis by (simp add: ToManbaValidations_def)
next
  case (Some d)
  obtain src where "v \<in> set (parse_validations src (source_data d src))"
    using assms(3) unfolding Some slice_sort.in_ToManbaValidations [OF assms(1)] by blast
  then show ?thesis
    using assms(2,4) by (cases src) (auto simp: Some parse_validations_def isManbaHTTPRouteMatchValid_def match_isValid_def list_all_iff source_data_def)
qed

text \<open>
  C16. Of an admitted ingress the parser drops nothing while the clusters stay: whatever other ingresses
  there are, parsing succeeds, every route of the ingress has its service, and every condition sent
  to the gateway for its routes is an expression that compiles.
\<close>

theorem admitted_ingress_is_parsed:
  assumes "informer_cache (ManbaClusters_Store (manbaFactory s)) objs" and "clusters_only objs" and "slice_sort srt"
    and "ValidateManbaIngress compiles (ManbaClusters_Store (manbaFactory s)) ing = Ok (True, msg)" and "ing \<in> set ings"
  shows "\<exists>heap svcs. parseIngressRules E (as_store s) ings = Ok (heap, svcs) \<and>
    (\<forall>rule\<in>set (spec_HTTP (ing_Spec ing)). \<forall>route\<in>set (rule_Route rule). service_of ing route \<in> service_names svcs \<and>
      (\<forall>v\<in>set (ToManbaValidations E srt (route_Match route)). \<forall>q\<in>set (Val_Rules v). compiles (Rule_Expression q)))"
proof -
  obtain heap svcs where p: "parseIngressRules E (as_store s) ings = Ok (heap, svcs)"
    using parseIngressRules_total [OF informer_cache.GetManbaCluster_no_panic [OF assms(1) refl assms(2)]] by metis
  have ok: "matches_compile compiles rule" "list_all (cluster_known objs (meta_Namespace (ing_Meta ing))) (named_clusters rule)"
    if "rule \<in> set (spec_HTTP (ing_Spec ing))" for rule
    using informer_cache.ValidateManbaIngress_ok [OF assms(1,2), of compiles ing] assms(4) that by auto
  have "service_of ing route \<in> service_names svcs" "isManbaHTTPRouteMatchValid compiles (route_Match route)"
    if "rule \<in> set (spec_HTTP (ing_Spec ing))" "route \<in> set (rule_Route rule)" for rule route
  proof -
    show "isManbaHTTPRouteMatchValid compiles (route_Match route)" using ok(1) that by (simp add: matches_compile_def list_all_iff)
    have "cluster_known objs (meta_Namespace (ing_Meta ing)) (route_Cluster route)" using ok(2) that by (simp add: named_clusters_def list_all_iff)
    then show "service_of ing route \<in> service_names svcs"
      using parseIngressRules_names [OF p assms(5) that] informer_cache.known_route [OF assms(1) refl] by blast
  qed
  with p valid_match_compiles [OF assms(3)] show ?thesis by blast
qed

lemma clusters_only_sample: "clusters_only (cache_objs [ObjManbaCluster (sample_crd ''a'')])"
  by (simp add: clusters_only_def cache_objs_def)

theorem admitted_ingress_is_parsed_witness:
  "\<exists>heap svcs. parseIngressRules sample_enums (as_store (class_store ''manba'' [] [sample_crd ''a''] []))
      [sample_ingress [path_rule ''/a'' ''a'']] = Ok (heap, svcs) \<and>
    service_of (sample_ingress [path_rule ''/a'' ''a'']) (sample_route ''a'') \<in> service_names svcs"
proof -
  let ?s = "class_store ''manba'' [] [sample_crd ''a''] []" and ?ing = "sample_ingress [path_rule ''/a'' ''a'']"
  have st: "ManbaClusters_Store (manbaFactory ?s) = list_cache [ObjManbaCluster (sample_crd ''a'')]"
    by (simp add: class_store_def store_New_def sample_manba_def)
  have "ValidateManbaIngress (\<lambda>_. True) (list_cache [ObjManbaCluster (sample_crd ''a'')]) ?ing = Ok (True, [])" by code_simp
  with admitted_ingress_is_parsed [of ?s "cache_objs [ObjManbaCluster (sample_crd ''a'')]" SliceStable "\<lambda>_. True" ?ing "[]" "[?ing]" sample_enums]
  show ?thesis
    by (auto simp: st cluster_cache.informer_cache_axioms clusters_only_sample stable.slice_sort_axioms)
      (simp add: sample_ingress_def path_rule_def)
qed

definition sample_request :: admission_Request where
  "sample_request = \<lparr>req_Resource = manbaIngressResource, req_Object_Raw = ''{}''\<rparr>"

theorem Handle_exact_witness:
  "\<exists>resp. Handle (\<lambda>raw. Ok (sample_ingress [path_rule ''/a'' ''gone''])) (ValidateManbaIngress (\<lambda>_. True) (list_cache [ObjManbaCluster (sample_crd ''a'')])) sample_request = Ok resp \<and>
    (\<exists>msg. resp = Denied msg)"
proof -
  let ?ing = "sample_ingress [path_rule ''/a'' ''gone'']"
  obtain resp where r: "Handle (\<lambda>raw. Ok ?ing) (ValidateManbaIngress (\<lambda>_. True) (list_cache [ObjManbaCluster (sample_crd ''a'')])) sample_request = Ok resp"
      "(\<exists>msg. resp = Allowed msg) \<longleftrightarrow> (\<forall>rule\<in>set (spec_HTTP (ing_Spec ?ing)). matches_compile (\<lambda>_. True) rule \<and>
       list_all (cluster_known (cache_objs [ObjManbaCluster (sample_crd ''a'')]) (meta_Namespace (ing_Meta ?ing))) (named_clusters rule))"
      "(\<exists>msg. resp = Allowed msg) \<or> (\<exists>msg. resp = Denied msg)"
    using Handle_exact [OF cluster_cache.informer_cache_axioms clusters_only_sample, of sample_request "\<lambda>raw. Ok ?ing" ?ing "\<lambda>_. True"]
    by (auto simp: sample_request_def)
  have "\<not> cluster_known (cache_objs [ObjManbaCluster (sample_crd ''a'')]) ''ns'' (route_Cluster (sample_route ''gone''))"
    by (simp add: cluster_known_def cache_objs_def meta_key_def object_key_def sample_route_def)
  then have "\<not> (\<exists>msg. resp = Allowed msg)"
    unfolding r(2) by (simp add: sample_ingress_def path_rule_def named_clusters_def)
  with r(1,3) show ?thesis by blast
qed

section \<open>The listen address\<close>

text \<open>
  C31. \<open>parseListen\<close> reads back every address it is meant for, a host without a colon and a port, and refuses
  every string that does not have exactly one colon, such as an IPv6 address.
\<close>

theorem parseListen_roundtrip:
  "(CHR '':'' \<notin> set host \<longrightarrow> - (2 ^ 63) \<le> port \<longrightarrow> port < 2 ^ 63 \<longrightarrow> parseListen (host @ '':'' @ itoa port) = Ok (host, port)) \<and>
   (count_list listen (CHR '':'') \<noteq> 1 \<longrightarrow> parseListen listen = Err (NewError ''listen address must conform to <ip:port>''))"
proof (intro conjI impI)
  assume a: "CHR '':'' \<notin> set host" "- (2 ^ 63) \<le> port" "port < 2 ^ 63"
  have "\<not> is_digit (CHR '':'')" by (simp add: is_digit_def)
  then have "CHR '':'' \<notin> set (itoa port)"
    using utoa_digits [of "nat port"] utoa_digits [of "nat (- port)"] by (auto simp: itoa_def list_all_iff)
  then show "parseListen (host @ '':'' @ itoa port) = Ok (host, port)"
    using a by (simp add: parseListen_def split_on_sep split_on_nosep Atoi_itoa)
next
  assume "count_list listen (CHR '':'') \<noteq> 1"
  then have "length (split_on (CHR '':'') listen) \<noteq> 2" by (simp add: length_split_on)
  then show "parseListen listen = Err (NewError ''listen address must conform to <ip:port>'')"
    by (auto simp: parseListen_def split: list.splits)
qed

theorem parseListen_roundtrip_witness:
  "parseListen (''0.0.0.0'' @ '':'' @ itoa 8080) = Ok (''0.0.0.0'', 8080) \<and>
   parseListen ''[::1]:8080'' = Err (NewError ''listen address must conform to <ip:port>'')"
  using parseListen_roundtrip [of "''0.0.0.0''" 8080 "''[::1]:8080''"] by simp

end
