(* ===== verification/Command.thy ===== *)
theory Command
  imports Lifecycle Admission "HOL-Library.Monad_Syntax"
begin

text \<open>
  The command (\<open>cmd/flag.go\<close>, \<open>cmd/main.go\<close>): the flags and how they are read, the connection to Kubernetes with
  its retries, everything \<open>main\<close> insists on before it starts the controller, and the handler of SIGTERM. The
  flag library, the clients and the admission manager are parameters. Durations are nanoseconds and a float is
  its text.
\<close>

section \<open>Flags\<close>

record cmd_Config =
  AdmissionWebhookListen :: string
  AdmissionWebhookCertDir :: string
  ManbaAPIServer :: string
  ManbaAPIServerTimeout :: int
  ManbaWorkspace :: string
  ManbaConcurrency :: int
  WatchNamespace :: string
  IngressClass :: string
  cmd_ElectionID :: string
  SyncPeriod :: int
  SyncRateLimit :: string
  APIServerHost :: string
  KubeConfigFilePath :: string
  cmd_PublishService :: string
  cmd_PublishStatusAddress :: string
  cmd_UpdateStatus :: bool
  EnableProfiling :: bool

datatype flag_value = FString string | FDuration int | FInt int | FFloat string | FBool bool

text \<open>The declared flags with their defaults; the election ID defaults to a fresh UUID.\<close>

definition flagSet :: "string \<Rightarrow> (string \<times> flag_value) list" where
  "flagSet uuid =
     [(''admission-webhook-listen'', FString ''off''),
      (''admission-webhook-cert-dir'', FString ''/admission-webhook''),
      (''manba-api-server-addr'', FString ''''),
      (''manba-api-server-timeout'', FDuration (10 * 10 ^ 9)),
      (''manba-workspace'', FString ''''),
      (''manba-concurrency'', FInt 10),
      (''watch-namespace'', FString ''''),
      (''ingress-class'', FString DefaultIngressClass),
      (''election-id'', FString uuid),
      (''sync-period'', FDuration (600 * 10 ^ 9)),
      (''sync-rate-limit'', FFloat ''0.3''),
      (''publish-service'', FString ''''),
      (''publish-status-address'', FString ''''),
      (''update-status'', FBool True),
      (''profiling'', FBool True),
      (''apiserver-host'', FString ''''),
      (''kubeconfig'', FString '''')]"

text \<open>
  \<open>viper\<close> gives the value of a key: that of the flag, the environment or the default. A read at another type than
  the value has is \<open>None\<close>.
\<close>

definition GetString :: "(string \<rightharpoonup> flag_value) \<Rightarrow> string \<Rightarrow> string option" where
  "GetString viper key = (case viper key of Some (FString s) \<Rightarrow> Some s | _ \<Rightarrow> None)"

definition GetDuration :: "(string \<rightharpoonup> flag_value) \<Rightarrow> string \<Rightarrow> int option" where
  "GetDuration viper key = (case viper key of Some (FDuration d) \<Rightarrow> Some d | _ \<Rightarrow> None)"

definition GetInt :: "(string \<rightharpoonup> flag_value) \<Rightarrow> string \<Rightarrow> int option" where
  "GetInt viper key = (case viper key of Some (FInt i) \<Rightarrow> Some i | _ \<Rightarrow> None)"

definition GetFloat64 :: "(string \<rightharpoonup> flag_value) \<Rightarrow> string \<Rightarrow> string option" where
  "GetFloat64 viper key = (case viper key of Some (FFloat f) \<Rightarrow> Some f | _ \<Rightarrow> None)"

definition GetBool :: "(string \<rightharpoonup> flag_value) \<Rightarrow> string \<Rightarrow> bool option" where
  "GetBool viper key = (case viper key of Some (FBool b) \<Rightarrow> Some b | _ \<Rightarrow> None)"

lemmas flag_getters = GetString_def GetDuration_def GetInt_def GetFloat64_def GetBool_def

definition parseFlags :: "(string \<rightharpoonup> flag_value) \<Rightarrow> cmd_Config option" where
  "parseFlags viper = do {
     listen \<leftarrow> GetString viper ''admission-webhook-listen'';
     certDir \<leftarrow> GetString viper ''admission-webhook-cert-dir'';
     server \<leftarrow> GetString viper ''manba-api-server-addr'';
     workspace \<leftarrow> GetString viper ''manba-workspace'';
     timeout \<leftarrow> GetDuration viper ''manba-api-server-timeout'';
     concurrency \<leftarrow> GetInt viper ''manba-concurrency'';
     watchNamespace \<leftarrow> GetString viper ''watch-namespace'';
     ingressClass \<leftarrow> GetString viper ''ingress-class'';
     electionID \<leftarrow> GetString viper ''election-id'';
     syncPeriod \<leftarrow> GetDuration viper ''sync-period'';
     rateLimit \<leftarrow> GetFloat64 viper ''sync-rate-limit'';
     apiserverHost \<leftarrow> GetString viper ''apiserver-host'';
     kubeconfig \<leftarrow> GetString viper ''kubeconfig'';
     publishService \<leftarrow> GetString viper ''publish-service'';
     publishStatusAddress \<leftarrow> GetString viper ''publish-status-address'';
     updateStatus \<leftarrow> GetBool viper ''update-status'';
     profiling \<leftarrow> GetBool viper ''profiling'';
     Some \<lparr>AdmissionWebhookListen = listen, AdmissionWebhookCertDir = certDir, ManbaAPIServer = server, ManbaAPIServerTimeout = timeout,
       ManbaWorkspace = workspace, ManbaConcurrency = concurrency, WatchNamespace = watchNamespace, IngressClass = ingressClass,
       cmd_ElectionID = electionID, SyncPeriod = syncPeriod, SyncRateLimit = rateLimit, APIServerHost = apiserverHost,
       KubeConfigFilePath = kubeconfig, cmd_PublishService = publishService, cmd_PublishStatusAddress = publishStatusAddress,
       cmd_UpdateStatus = updateStatus, EnableProfiling = profiling\<rparr> }"

definition controllerConfigFromCLIConfig :: "cmd_Config \<Rightarrow> controller_Config" where
  "controllerConfigFromCLIConfig cfg = \<lparr>cfg_ElectionID = cmd_ElectionID cfg, cfg_IngressClass = IngressClass cfg, cfg_ResyncPeriod = SyncPeriod cfg,
     cfg_SyncRateLimit = SyncRateLimit cfg, cfg_Concurrency = ManbaConcurrency cfg, cfg_PublishService = cmd_PublishService cfg,
     cfg_PublishStatusAddress = cmd_PublishStatusAddress cfg, cfg_UpdateStatus = cmd_UpdateStatus cfg\<rparr>"

section \<open>The connection to Kubernetes\<close>

text \<open>
  \<open>wait.ExponentialBackoff\<close> is a parameter: it calls a condition on the variables of the closure until it is
  done, fails, or has been called \<open>Steps\<close> times. The law is its documentation.
\<close>

locale backoff =
  fixes ExponentialBackoff :: "nat \<Rightarrow> ('s \<Rightarrow> bool \<times> go_error option \<times> 's) \<Rightarrow> 's \<Rightarrow> go_error option \<times> 's" and ErrWaitTimeout :: go_error
  assumes no_steps: "ExponentialBackoff 0 cond s = (Some ErrWaitTimeout, s)"
    and one_step: "ExponentialBackoff (Suc n) cond s =
      (case cond s of (done, err, s') \<Rightarrow> if err \<noteq> None \<or> done then (err, s') else ExponentialBackoff n cond s')"

text \<open>The variables of the closure: \<open>v\<close>, \<open>lastErr\<close>, \<open>retries\<close>, and the state of the world that the requests change.\<close>

record ('v, 'w) discovery =
  disc_v :: "'v option"
  lastErr :: "go_error option"
  retries :: nat
  world :: 'w

definition discover_version :: "('w \<Rightarrow> (go_error + 'v) \<times> 'w) \<Rightarrow> ('v, 'w) discovery \<Rightarrow> bool \<times> go_error option \<times> ('v, 'w) discovery" where
  "discover_version ServerVersion s =
     (case ServerVersion (world s) of
        (Inr v, w) \<Rightarrow> (True, None, s\<lparr>disc_v := Some v, world := w\<rparr>)
      | (Inl err, w) \<Rightarrow> (False, None, s\<lparr>disc_v := None, lastErr := Some err, retries := retries s + 1, world := w\<rparr>))"

definition createApiserverClient ::
    "(nat \<Rightarrow> (('v, 'w) discovery \<Rightarrow> bool \<times> go_error option \<times> ('v, 'w) discovery) \<Rightarrow> ('v, 'w) discovery \<Rightarrow> go_error option \<times> ('v, 'w) discovery) \<Rightarrow>
     (string \<Rightarrow> string \<Rightarrow> 'r result) \<Rightarrow> ('r \<Rightarrow> 'c result) \<Rightarrow> ('c \<Rightarrow> 'w \<Rightarrow> (go_error + 'v) \<times> 'w) \<Rightarrow> string \<Rightarrow> string \<Rightarrow> 'w \<Rightarrow> ('r \<times> 'c) result" where
  "createApiserverClient ExponentialBackoff BuildConfigFromFlags NewForConfig ServerVersion apiserverHost kubeConfig w =
     rbind (BuildConfigFromFlags apiserverHost kubeConfig) (\<lambda>cfg.
     rbind (NewForConfig cfg) (\<lambda>client.
     let (err, s) = ExponentialBackoff 10 (discover_version (ServerVersion client)) \<lparr>disc_v = None, lastErr = None, retries = 0, world = w\<rparr> in
     if err \<noteq> None then Err (the (lastErr s))
     else (case disc_v s of None \<Rightarrow> Panic ''nil pointer dereference'' | Some v \<Rightarrow> Ok (cfg, client))))"

section \<open>main\<close>

text \<open>
  \<open>main\<close> up to the start of the controller; \<open>glog.Fatal\<close> ends the process with the error. \<open>kube\<close> is the client for
  Kubernetes that is made, \<open>get_service\<close> and \<open>get_namespace\<close> its requests, \<open>NewClient\<close> makes the client of the
  gateway, \<open>CreateInformers\<close> and the wait for their caches cannot fail (a timeout is only reported), \<open>make_controller\<close> is
  \<open>NewManbaController\<close> with its environment, and \<open>NewManager\<close> makes the manager of the admission server.
\<close>

definition admission_New :: "('r \<Rightarrow> string \<Rightarrow> int \<Rightarrow> string \<Rightarrow> 'a result) \<Rightarrow> 'r \<Rightarrow> string \<Rightarrow> string \<Rightarrow> 'a result" where
  "admission_New NewManager restConfig listen certDir =
     rbind (parseListen listen) (\<lambda>(host, port). NewManager restConfig host port certDir)"

definition main ::
    "(string \<Rightarrow> string \<Rightarrow> ('r \<times> 'c) result) \<Rightarrow> ('c \<Rightarrow> string \<Rightarrow> string \<Rightarrow> unit result) \<Rightarrow> ('c \<Rightarrow> string \<Rightarrow> unit result) \<Rightarrow>
     (int \<Rightarrow> string \<Rightarrow> 'g result) \<Rightarrow> ('c \<Rightarrow> 'g \<Rightarrow> controller_Config \<Rightarrow> 'm result) \<Rightarrow> ('r \<Rightarrow> string \<Rightarrow> int \<Rightarrow> string \<Rightarrow> 'a result) \<Rightarrow>
     cmd_Config \<Rightarrow> ('m \<times> 'a option) result" where
  "main create_client get_service get_namespace NewClient make_controller NewManager cfg =
     (if SyncPeriod cfg < 10 * 10 ^ 9 then Err (NewError ''resync period is too low'')
      else if ManbaConcurrency cfg < 1 then Err (NewError ''manba-admin-concurrency cannot be less than 1'')
      else if cmd_PublishService cfg = [] \<and> cmd_PublishStatusAddress cfg = [] then
        Err (NewError ''either --publish-service or --publish-status-address must be specified'')
      else
        rbind (wrap_err ''create k8s client failed'' (create_client (APIServerHost cfg) (KubeConfigFilePath cfg))) (\<lambda>(restCfg, kubeClient).
        rbind (if cmd_PublishService cfg \<noteq> [] then
                 rbind (ParseNameNS (cmd_PublishService cfg)) (\<lambda>(ns, name).
                   wrap_err ''unexpected error getting information about service'' (get_service kubeClient ns name))
               else Ok ()) (\<lambda>_.
        rbind (if WatchNamespace cfg \<noteq> [] then wrap_err ''no namespace with name found'' (get_namespace kubeClient (WatchNamespace cfg)) else Ok ()) (\<lambda>_.
        rbind (wrap_err ''create manba client failed'' (NewClient (ManbaAPIServerTimeout cfg) (ManbaAPIServer cfg))) (\<lambda>manbaCli.
        rbind (wrap_err ''create manba controller failed'' (make_controller kubeClient manbaCli (controllerConfigFromCLIConfig cfg))) (\<lambda>manbaController.
        rbind (if AdmissionWebhookListen cfg \<noteq> ''off'' then
                 rbind (wrap_err ''create admission server failed''
                   (admission_New NewManager restCfg (AdmissionWebhookListen cfg) (AdmissionWebhookCertDir cfg))) (\<lambda>server. Ok (Some server))
               else Ok None) (\<lambda>admissionServer.
        Ok (manbaController, admissionServer))))))))"

text \<open>
  On SIGTERM: the channel of the informers is closed, the controller is stopped, and the process exits with 1 if
  that failed. A panic ends the process too (with status 2).
\<close>

definition handleSigterm ::
    "('t, 'q) workqueue \<Rightarrow> (bool \<Rightarrow> 'k \<Rightarrow> 'k) option \<Rightarrow> bool \<Rightarrow> ('q, 'k) controller \<Rightarrow> ('q, 'k) controller \<times> int" where
  "handleSigterm W status_shutdown isLeader m =
     (case controller_Stop W status_shutdown isLeader m of
        (m', Ok _) \<Rightarrow> (m', 0)
      | (m', Err err) \<Rightarrow> (m', 1)
      | (m', Panic _) \<Rightarrow> (m', 2))"

section \<open>Reading the flags\<close>

fun same_kind :: "flag_value \<Rightarrow> flag_value \<Rightarrow> bool" where
  "same_kind (FString _) (FString _) = True"
| "same_kind (FDuration _) (FDuration _) = True"
| "same_kind (FInt _) (FInt _) = True"
| "same_kind (FFloat _) (FFloat _) = True"
| "same_kind (FBool _) (FBool _) = True"
| "same_kind _ _ = False"

lemma same_kind_iff [simp]:
  "same_kind v (FString a) \<longleftrightarrow> (\<exists>b. v = FString b)" "same_kind v (FDuration d) \<longleftrightarrow> (\<exists>b. v = FDuration b)"
  "same_kind v (FInt i) \<longleftrightarrow> (\<exists>b. v = FInt b)" "same_kind v (FFloat f) \<longleftrightarrow> (\<exists>b. v = FFloat b)" "same_kind v (FBool t) \<longleftrightarrow> (\<exists>b. v = FBool b)"
  by (cases v; simp)+

definition typed_flags :: "string \<Rightarrow> (string \<rightharpoonup> flag_value) \<Rightarrow> bool" where
  "typed_flags uuid viper \<longleftrightarrow> (\<forall>(name, default) \<in> set (flagSet uuid). \<exists>v. viper name = Some v \<and> same_kind v default)"


section \<open>Coming up\<close>

primrec ref_backoff :: "go_error \<Rightarrow> nat \<Rightarrow> ('s \<Rightarrow> bool \<times> go_error option \<times> 's) \<Rightarrow> 's \<Rightarrow> go_error option \<times> 's" where
  "ref_backoff timeout 0 cond s = (Some timeout, s)"
| "ref_backoff timeout (Suc n) cond s = (case cond s of (done, err, s') \<Rightarrow> if err \<noteq> None \<or> done then (err, s') else ref_backoff timeout n cond s')"

interpretation ref_wait: backoff "ref_backoff timeout" timeout for timeout
  by unfold_locales simp_all

text \<open>The answer to the request number \<open>i\<close> for the version of the server.\<close>

definition answer :: "('w \<Rightarrow> (go_error + 'v) \<times> 'w) \<Rightarrow> 'w \<Rightarrow> nat \<Rightarrow> go_error + 'v" where
  "answer ServerVersion w i = fst (ServerVersion (((\<lambda>w. snd (ServerVersion w)) ^^ i) w))"

lemma answer_simps [simp]: "answer SV w 0 = fst (SV w)" "answer SV w (Suc i) = answer SV (snd (SV w)) i"
  by (simp_all add: answer_def funpow_Suc_right del: funpow.simps(2))

locale version_backoff = backoff ExponentialBackoff ErrWaitTimeout
  for ExponentialBackoff :: "nat \<Rightarrow> (('v, 'w) discovery \<Rightarrow> bool \<times> go_error option \<times> ('v, 'w) discovery) \<Rightarrow> ('v, 'w) discovery \<Rightarrow>
      go_error option \<times> ('v, 'w) discovery" and ErrWaitTimeout
begin

lemma discovers:
  "ExponentialBackoff n (discover_version SV) s = (err, s') \<Longrightarrow>
   (if \<exists>i<n. \<not> isl (answer SV (world s) i) then err = None \<and> disc_v s' \<noteq> None
    else err = Some ErrWaitTimeout \<and> lastErr s' = (if n = 0 then lastErr s else Some (projl (answer SV (world s) (n - 1)))))"
proof (induction n arbitrary: s)
  case 0
  then show ?case by (simp add: no_steps)
next
  case (Suc n)
  have less: "(\<exists>i<Suc n. P i) \<longleftrightarrow> P 0 \<or> (\<exists>i<n. P (Suc i))" for P
    using less_Suc_eq_0_disj by auto
  show ?case
  proof (cases "SV (world s)")
    case (Pair a w)
    show ?thesis
    proof (cases a)
      case (Inl e)
      let ?s = "s\<lparr>disc_v := None, lastErr := Some e, retries := retries s + 1, world := w\<rparr>"
      have "discover_version SV s = (False, None, ?s)"
        by (simp add: discover_version_def Pair Inl)
      then have "ExponentialBackoff n (discover_version SV) ?s = (err, s')"
        using Suc.prems by (simp add: one_step)
      note IH = Suc.IH[OF this]
      have "(\<exists>i<Suc n. \<not> isl (answer SV (world s) i)) \<longleftrightarrow> (\<exists>i<n. \<not> isl (answer SV w i))"
        by (simp only: less) (simp add: Pair Inl)
      moreover have "answer SV (world s) n = (if n = 0 then Inl e else answer SV w (n - 1))"
        by (cases n) (simp_all add: Pair Inl)
      ultimately show ?thesis
        using IH by (simp del: not_None_eq)
    next
      case (Inr v)
      then show ?thesis using Suc.prems by (auto simp: less one_step discover_version_def Pair)
    qed
  qed
qed

lemma createApiserverClient_Ok:
  "createApiserverClient ExponentialBackoff BC NF SV host conf w = Ok (r, c) \<longleftrightarrow>
   BC host conf = Ok r \<and> NF r = Ok c \<and> (\<exists>i<10. \<not> isl (answer (SV c) w i))"
proof -
  have iff: "(case ExponentialBackoff 10 (discover_version (SV c)) s of (err, s) \<Rightarrow>
        if err \<noteq> None then Err (the (lastErr s)) else (case disc_v s of None \<Rightarrow> Panic m | Some v \<Rightarrow> Ok (r, c))) = Ok (r', c')
      \<longleftrightarrow> r = r' \<and> c = c' \<and> (\<exists>i<10. \<not> isl (answer (SV c) (world s) i))" for s m r c r' c'
    using discovers[of 10 "SV c" s] by (auto split: prod.splits option.splits if_splits)
  show ?thesis by (auto simp: createApiserverClient_def go_simps iff simp del: not_None_eq)
qed

lemma createApiserverClient_unreachable:
  assumes "BC host conf = Ok r" and "NF r = Ok c" and "\<forall>i<10. answer (SV c) w i = Inl (e i)"
  shows "createApiserverClient ExponentialBackoff BC NF SV host conf w = Err (e 9)"
proof -
  obtain err s where r: "ExponentialBackoff 10 (discover_version (SV c)) \<lparr>disc_v = None, lastErr = None, retries = 0, world = w\<rparr> = (err, s)"
    by fastforce
  show ?thesis
    using discovers[OF r] assms by (auto simp: createApiserverClient_def r)
qed

end

interpretation ref_version: version_backoff "ref_backoff timeout" timeout for timeout
  by unfold_locales

text \<open>The controller can be made when the pod is known and the host has a name; the election itself cannot fail.\<close>

lemma GetPodDetails_Ok:
  "(\<exists>pod. GetPodDetails K k Getenv = Ok pod) \<longleftrightarrow>
     Getenv ''POD_NAME'' \<noteq> [] \<and> Getenv ''POD_NAMESPACE'' \<noteq> [] \<and> fst (k_Pods_Get K k (Getenv ''POD_NAMESPACE'') (Getenv ''POD_NAME'')) \<noteq> None"
  by (auto simp: GetPodDetails_def Let_def split: option.splits)

lemma NewManbaController_Ok:
  assumes "leader_election New NLE lock_of lock_name lock_identity holder attempt"
  shows "(\<exists>m. NewManbaController K Getenv hostname New NLE q cfg ch k = Ok m) \<longleftrightarrow>
     Getenv ''POD_NAME'' \<noteq> [] \<and> Getenv ''POD_NAMESPACE'' \<noteq> [] \<and> fst (k_Pods_Get K k (Getenv ''POD_NAMESPACE'') (Getenv ''POD_NAME'')) \<noteq> None \<and>
     is_Ok hostname"
proof -
  have el: "(\<exists>e. NewElection hostname New NLE c = Ok e) \<longleftrightarrow> is_Ok hostname" for c
    using leader_election.NewElection_ok[OF assms, of _ c]
    by (cases hostname) (auto simp: NewElection_def getLeaderElectionConfig_def)
  show ?thesis
    using el GetPodDetails_Ok[of K k Getenv] by (auto simp: NewManbaController_def go_simps Let_def simp del: not_None_eq)
qed

lemma published_service_Ok:
  "rbind (ParseNameNS svc) (\<lambda>(ns, name). wrap_err msg (get ns name)) = Ok () \<longleftrightarrow>
     (\<exists>ns name. CHR ''/'' \<notin> set ns \<and> CHR ''/'' \<notin> set name \<and> svc = ns @ ''/'' @ name \<and> get ns name = Ok ())"
  using ParseNameNS_Ok_iff [of svc] by (auto simp: go_simps split: prod.splits)

lemma is_Ok_ex: "is_Ok m \<longleftrightarrow> (\<exists>x. m = Ok x)"
  by (cases m) auto

lemma admission_New_Ok:
  "(\<exists>a. admission_New NM rest listen dir = Ok a) \<longleftrightarrow> (\<exists>host port. parseListen listen = Ok (host, port) \<and> is_Ok (NM rest host port dir))"
  by (auto simp: admission_New_def go_simps is_Ok_ex split: prod.splits)

text \<open>A sequence of fallible calls comes to its end when each of them does; a guarded call when its guard fails or it does.\<close>

lemma rbind_ex_Ok: "(\<exists>y. rbind m f = Ok y) \<longleftrightarrow> (\<exists>x. m = Ok x \<and> (\<exists>y. f x = Ok y))"
  by (auto simp: go_simps)

lemma rbind_pair_ex_Ok: "(\<exists>y. rbind m (case_prod f) = Ok y) \<longleftrightarrow> (\<exists>a b. m = Ok (a, b) \<and> (\<exists>y. f a b = Ok y))"
  by (auto simp: go_simps)

lemma guarded_Ok:
  "(\<exists>x. (if c then m else Ok ()) = Ok x \<and> P) \<longleftrightarrow> (c \<longrightarrow> m = Ok ()) \<and> P"
  "(\<exists>x. (if c then rbind m' (\<lambda>s. Ok (Some s)) else Ok None) = Ok x \<and> (\<exists>z. Ok (g x) = Ok z)) \<longleftrightarrow> (c \<longrightarrow> (\<exists>x. m' = Ok x))"
  by (auto simp: go_simps)

lemma main_Ok:
  "(\<exists>m. main create_client get_service get_namespace NC mk NM cfg = Ok m) \<longleftrightarrow>
    10 * 10 ^ 9 \<le> SyncPeriod cfg \<and> 1 \<le> ManbaConcurrency cfg \<and> (cmd_PublishService cfg = [] \<longrightarrow> cmd_PublishStatusAddress cfg \<noteq> []) \<and>
    (\<exists>rest client. create_client (APIServerHost cfg) (KubeConfigFilePath cfg) = Ok (rest, client) \<and>
      (cmd_PublishService cfg \<noteq> [] \<longrightarrow> (\<exists>ns name. CHR ''/'' \<notin> set ns \<and> CHR ''/'' \<notin> set name \<and> cmd_PublishService cfg = ns @ ''/'' @ name \<and>
        get_service client ns name = Ok ())) \<and>
      (WatchNamespace cfg \<noteq> [] \<longrightarrow> get_namespace client (WatchNamespace cfg) = Ok ()) \<and>
      (\<exists>g. NC (ManbaAPIServerTimeout cfg) (ManbaAPIServer cfg) = Ok g \<and> (\<exists>m. mk client g (controllerConfigFromCLIConfig cfg) = Ok m)) \<and>
      (AdmissionWebhookListen cfg \<noteq> ''off'' \<longrightarrow> (\<exists>host port. parseListen (AdmissionWebhookListen cfg) = Ok (host, port) \<and>
        is_Ok (NM rest host port (AdmissionWebhookCertDir cfg)))))"
proof -
  let ?flags = "10 * 10 ^ 9 \<le> SyncPeriod cfg \<and> 1 \<le> ManbaConcurrency cfg \<and> (cmd_PublishService cfg = [] \<longrightarrow> cmd_PublishStatusAddress cfg \<noteq> [])"
  show ?thesis
  proof (cases ?flags)
    case True
    then have flags: "\<not> SyncPeriod cfg < 10 * 10 ^ 9" "\<not> ManbaConcurrency cfg < 1" "\<not> (cmd_PublishService cfg = [] \<and> cmd_PublishStatusAddress cfg = [])"
      by auto
    have "?flags = True" using True by simp
    then show ?thesis
      unfolding admission_New_Ok[symmetric] published_service_Ok[symmetric, where msg = "''unexpected error getting information about service''"]
        main_def if_not_P[OF flags(1)] if_not_P[OF flags(2)] if_not_P[OF flags(3)]
      by (simp only: rbind_pair_ex_Ok) (simp only: rbind_ex_Ok guarded_Ok wrap_err_Ok_iff, blast)
  qed (auto simp: main_def)
qed


section \<open>Witnesses\<close>

lemma sample_flags_typed: "typed_flags ''u'' (map_of (flagSet ''u''))"
  by (auto simp: typed_flags_def flagSet_def)


text \<open>The default flags with an address to publish, on a server that answers the fourth request.\<close>

definition sample_cmd :: cmd_Config where
  "sample_cmd = \<lparr>AdmissionWebhookListen = ''off'', AdmissionWebhookCertDir = ''/admission-webhook'', ManbaAPIServer = ''gw:9092'',
     ManbaAPIServerTimeout = 10 * 10 ^ 9, ManbaWorkspace = [], ManbaConcurrency = 10, WatchNamespace = [], IngressClass = ''manba'',
     cmd_ElectionID = ''e'', SyncPeriod = 600 * 10 ^ 9, SyncRateLimit = ''0.3'', APIServerHost = [], KubeConfigFilePath = [],
     cmd_PublishService = [], cmd_PublishStatusAddress = ''10.0.0.1'', cmd_UpdateStatus = True, EnableProfiling = True\<rparr>"

definition slow_server :: "unit \<Rightarrow> nat \<Rightarrow> (go_error + unit) \<times> nat" where
  "slow_server client n = (if n < 3 then Inl (NewError ''refused'') else Inr (), Suc n)"

lemma slow_server_answers: "answer (slow_server c) 0 3 = Inr ()"
  by (simp add: numeral_3_eq_3 slow_server_def)


end
