(* ===== verification/Http_Handlers.thy ===== *)
theory Http_Handlers
  imports Command "HOL-Library.Sublist"
begin

text \<open>
  The HTTP server of the command: \<open>registerHandlers\<close> of \<open>cmd/main.go\<close> and \<open>version\<close> of \<open>cmd/version.go\<close>, on the multiplexer of
  \<open>net/http\<close>. A pattern that ends in a slash stands for all paths below it, the longest one wins, and a registered
  path wins over all of them; a path that lacks only the final slash of a pattern is redirected.
\<close>

section \<open>The multiplexer\<close>

datatype handler = Healthz | Metrics | BuildInfo | StopHandler | PprofIndex | PprofCmdline | PprofProfile | PprofSymbol | PprofTrace

type_synonym mux = "(string \<times> handler) list"

definition mux_Handle :: "string \<Rightarrow> handler \<Rightarrow> mux \<Rightarrow> mux result" where
  "mux_Handle pattern h mux =
     (if pattern = [] then Panic ''http: invalid pattern''
      else if map_of mux pattern \<noteq> None then Panic ''http: multiple registrations''
      else Ok ((pattern, h) # mux))"

fun longest :: "string \<Rightarrow> mux \<Rightarrow> (string \<times> handler) option" where
  "longest path [] = None"
| "longest path ((pattern, h) # mux) =
     (let rest = longest path mux in
      if last pattern = CHR ''/'' \<and> prefix pattern path \<and> (case rest of None \<Rightarrow> True | Some (p, _) \<Rightarrow> length p < length pattern)
      then Some (pattern, h) else rest)"

datatype dispatch = Serve handler | RedirectTo string | NotFound

definition mux_dispatch :: "mux \<Rightarrow> string \<Rightarrow> dispatch" where
  "mux_dispatch mux path =
     (case map_of mux path of
        Some h \<Rightarrow> Serve h
      | None \<Rightarrow>
          if path \<noteq> [] \<and> last path \<noteq> CHR ''/'' \<and> map_of mux (path @ ''/'') \<noteq> None then RedirectTo (path @ ''/'')
          else (case longest path mux of Some (_, h) \<Rightarrow> Serve h | None \<Rightarrow> NotFound))"

section \<open>The handlers\<close>

definition pprof_handlers :: "(string \<times> handler) list" where
  "pprof_handlers = [(''/debug/pprof/'', PprofIndex), (''/debug/pprof/heap'', PprofIndex), (''/debug/pprof/mutex'', PprofIndex),
     (''/debug/pprof/goroutine'', PprofIndex), (''/debug/pprof/threadcreate'', PprofIndex), (''/debug/pprof/block'', PprofIndex),
     (''/debug/pprof/cmdline'', PprofCmdline), (''/debug/pprof/profile'', PprofProfile), (''/debug/pprof/symbol'', PprofSymbol),
     (''/debug/pprof/trace'', PprofTrace)]"

definition registerHandlers :: "bool \<Rightarrow> mux \<Rightarrow> mux result" where
  "registerHandlers enableProfiling mux =
     rbind (mux_Handle ''/healthz'' Healthz mux) (\<lambda>mux.
     rbind (mux_Handle ''/metrics'' Metrics mux) (\<lambda>mux.
     rbind (mux_Handle ''/build'' BuildInfo mux) (\<lambda>mux.
     rbind (mux_Handle ''/stop'' StopHandler mux) (\<lambda>mux.
     if enableProfiling then rfold (\<lambda>(pattern, h). mux_Handle pattern h) pprof_handlers mux else Ok mux))))"

text \<open>The text of \<open>version\<close>, with the variables that the build sets.\<close>

definition ruler :: string where
  "ruler = replicate 79 (CHR ''-'') @ [CHR 0x0A]"

definition version :: "string \<Rightarrow> string \<Rightarrow> string \<Rightarrow> string \<Rightarrow> string" where
  "version RELEASE COMMIT REPO go =
     ruler @ ''Manba Ingress controller'' @ [CHR 0x0A] @
     ''  Release:    '' @ RELEASE @ [CHR 0x0A] @
     ''  Build:      '' @ COMMIT @ [CHR 0x0A] @
     ''  Repository: '' @ REPO @ [CHR 0x0A] @
     ''  Go:         '' @ go @ [CHR 0x0A] @ ruler"

text \<open>
  What a request does: its status, its body, and whether the process sends itself SIGTERM, on which \<open>handleSigterm\<close> stops
  the controller. The bodies of metrics and profiles are those of the libraries; \<open>marshal\<close> is \<open>json.Marshal\<close> of a string.
\<close>

record response =
  resp_status :: int
  resp_body :: string
  resp_sigterm :: bool

fun serve :: "(handler \<Rightarrow> string) \<Rightarrow> (string \<Rightarrow> string) \<Rightarrow> string \<Rightarrow> handler \<Rightarrow> response" where
  "serve lib marshal ver Healthz = \<lparr>resp_status = 200, resp_body = [], resp_sigterm = False\<rparr>"
| "serve lib marshal ver BuildInfo = \<lparr>resp_status = 200, resp_body = marshal ver, resp_sigterm = False\<rparr>"
| "serve lib marshal ver StopHandler = \<lparr>resp_status = 200, resp_body = [], resp_sigterm = True\<rparr>"
| "serve lib marshal ver h = \<lparr>resp_status = 200, resp_body = lib h, resp_sigterm = False\<rparr>"

definition respond :: "(handler \<Rightarrow> string) \<Rightarrow> (string \<Rightarrow> string) \<Rightarrow> string \<Rightarrow> mux \<Rightarrow> string \<Rightarrow> response" where
  "respond lib marshal ver mux path =
     (case mux_dispatch mux path of
        Serve h \<Rightarrow> serve lib marshal ver h
      | RedirectTo p \<Rightarrow> \<lparr>resp_status = 301, resp_body = [], resp_sigterm = False\<rparr>
      | NotFound \<Rightarrow> \<lparr>resp_status = 404, resp_body = [], resp_sigterm = False\<rparr>)"

section \<open>Laws\<close>

definition plain_mux :: mux where
  "plain_mux = [(''/stop'', StopHandler), (''/build'', BuildInfo), (''/metrics'', Metrics), (''/healthz'', Healthz)]"

lemma registerHandlers_Ok: "registerHandlers enable [] = Ok ((if enable then rev pprof_handlers else []) @ plain_mux)"
proof -
  have "registerHandlers True [] = Ok (rev pprof_handlers @ plain_mux)" "registerHandlers False [] = Ok plain_mux" by code_simp+
  then show ?thesis by simp
qed

text \<open>The longest pattern of a multiplexer: one of its patterns, a prefix of the path, and the longest such.\<close>

lemma longest_Some: "longest path mux = Some (p, h) \<Longrightarrow> (p, h) \<in> set mux \<and> last p = CHR ''/'' \<and> prefix p path"
  by (induction mux) (auto simp: Let_def split: if_splits option.splits)

lemma longest_max:
  "\<lbrakk>(p, h) \<in> set mux; last p = CHR ''/''; prefix p path\<rbrakk> \<Longrightarrow> \<exists>p' h'. longest path mux = Some (p', h') \<and> length p \<le> length p'"
proof (induction mux)
  case (Cons e mux)
  obtain p0 h0 where e: "e = (p0, h0)" by fastforce
  then show ?case using Cons by (auto simp: Let_def split: option.splits)
qed simp

lemma served_registered: "mux_dispatch mux path = Serve h \<Longrightarrow>
    (path, h) \<in> set mux \<or> (\<exists>p. (p, h) \<in> set mux \<and> last p = CHR ''/'' \<and> prefix p path)"
  by (auto simp: mux_dispatch_def dest: map_of_SomeD longest_Some split: option.splits if_splits)

definition plain_paths :: "string list" where
  "plain_paths = [''/healthz'', ''/metrics'', ''/build'', ''/stop'']"

definition stop_path :: string where
  "stop_path = ''/stop''"

definition pprof_path :: string where
  "pprof_path = ''/debug/pprof/''"

lemma plain_registered: "(p, h) \<in> set plain_mux \<Longrightarrow> p \<in> set plain_paths \<and> last p \<noteq> CHR ''/'' \<and> (h = StopHandler \<longleftrightarrow> p = stop_path)"
  by (auto simp: plain_mux_def plain_paths_def stop_path_def)

lemma pprof_registered: "(p, h) \<in> set pprof_handlers \<Longrightarrow> prefix pprof_path p \<and> h \<noteq> StopHandler"
proof -
  have "list_all (\<lambda>(p, h). prefix pprof_path p \<and> h \<noteq> StopHandler) pprof_handlers" by code_simp
  then show "(p, h) \<in> set pprof_handlers \<Longrightarrow> prefix pprof_path p \<and> h \<noteq> StopHandler" by (auto simp: list_all_iff)
qed

lemma stop_dispatched:
  "mux_dispatch (rev pprof_handlers @ plain_mux) stop_path = Serve StopHandler" "mux_dispatch plain_mux stop_path = Serve StopHandler"
  "\<not> prefix pprof_path stop_path"
  by code_simp+

text \<open>
  The server is set up without a panic. Only \<open>/stop\<close> stops the process; without profiling nothing but the four paths is
  served, and with it nothing else but what is below \<open>/debug/pprof/\<close>.
\<close>

theorem handlers_served:
  assumes "registerHandlers enable [] = Ok mux"
  shows "(resp_sigterm (respond lib marshal ver mux path) \<longleftrightarrow> path = stop_path) \<and>
    (resp_status (respond lib marshal ver mux path) = 200 \<longrightarrow> path \<in> set plain_paths \<or> enable \<and> prefix pprof_path path)"
proof -
  have mux: "mux = (if enable then rev pprof_handlers else []) @ plain_mux" using assms by (simp add: registerHandlers_Ok)
  have served: "path \<in> set plain_paths \<and> (h = StopHandler \<longleftrightarrow> path = stop_path) \<or> enable \<and> prefix pprof_path path \<and> h \<noteq> StopHandler"
    if h: "mux_dispatch mux path = Serve h" for h
  proof -
    have reg: "(p, h) \<in> set plain_mux \<or> enable \<and> (p, h) \<in> set pprof_handlers" if "(p, h) \<in> set mux" for p
      using that by (auto simp: mux split: if_splits)
    obtain p where p: "(p, h) \<in> set mux" "p = path \<or> last p = CHR ''/'' \<and> prefix p path" using served_registered[OF h] by blast
    from reg[OF p(1)] show ?thesis
      using plain_registered[of p h] pprof_registered[of p h] p(2) prefix_order.trans[of pprof_path p path] by blast
  qed
  show ?thesis
  proof (cases "mux_dispatch mux path")
    case (Serve h)
    have "resp_sigterm (serve lib marshal ver h) \<longleftrightarrow> h = StopHandler" by (cases h) simp_all
    then show ?thesis using served[OF Serve] stop_dispatched(3) by (auto simp: respond_def Serve)
  qed (use stop_dispatched(1,2) in \<open>auto simp: respond_def mux split: if_splits\<close>)
qed

theorem handlers_served_witness:
  "resp_sigterm (respond (\<lambda>_. []) id [] (rev pprof_handlers @ plain_mux) stop_path) \<and>
   resp_status (respond (\<lambda>_. []) id [] (rev pprof_handlers @ plain_mux) (pprof_path @ ''allocs'')) = 200 \<and>
   resp_status (respond (\<lambda>_. []) id [] plain_mux (pprof_path @ ''allocs'')) \<noteq> 200"
proof -
  have on: "resp_status (respond (\<lambda>_. []) id [] (rev pprof_handlers @ plain_mux) (pprof_path @ ''allocs'')) = 200" by code_simp
  have 1: "registerHandlers True [] = Ok (rev pprof_handlers @ plain_mux)" and 2: "registerHandlers False [] = Ok plain_mux"
    by (simp_all add: registerHandlers_Ok)
  have no: "pprof_path @ ''allocs'' \<notin> set plain_paths" by code_simp
  show ?thesis
    using conjunct1[OF handlers_served[OF 1, of "\<lambda>_. []" id "[]" stop_path]] on no
      conjunct2[OF handlers_served[OF 2, of "\<lambda>_. []" id "[]" "pprof_path @ ''allocs''"]]
    by blast
qed

end
