(* ===== verification/Deep_Copy.thy ===== *)
theory Deep_Copy
  imports Crd "HOL-Library.State_Monad"
begin

text \<open>
  The deep copies of the custom resources (\<open>zz_generated.deepcopy.go\<close> and \<open>types_deepcopy.go\<close> of
  \<open>pkg/apis/configuration/v1beta1\<close>), which the caches and clients of Kubernetes use to hand out objects that
  may be changed. Whether a copy is independent of its original is a question about addresses, so here
  the objects live in a heap: a slice, a map or a pointer is an address of a cell, and \<open>None\<close> is nil.
  The functions thread the heap through the state monad; \<open>DeepCopyInto\<close> returns the struct it leaves in
  its argument \<open>out\<close>. Structs that the code copies through JSON are cells of their own whose contents are
  the values of \<open>Crd\<close>; the JSON library is a parameter.
\<close>

section \<open>The heap\<close>

type_synonym addr = nat

record gSubSet =
  g_ss_Name :: string
  g_ss_Labels :: "addr option"
  g_ss_TrafficPolicy :: "addr option"

record gClusterSpec =
  g_TrafficPolicy :: "addr option"
  g_Subsets :: "addr option"

record gCluster =
  g_mc_Meta :: ObjectMeta
  g_mc_Spec :: gClusterSpec

record gMatchRule =
  g_mr_URI :: string
  g_mr_Method :: "addr option"
  g_mr_MatchType :: string

record gMatch =
  g_match_Host :: string
  g_match_Rules :: "addr option"

record gIngressSpec =
  g_HTTP :: "addr option"
  g_TLS_Hosts :: "addr option"
  g_TLS_SecretName :: string

record gIngress =
  g_ing_Meta :: ObjectMeta
  g_ing_Spec :: gIngressSpec
  g_ing_Status :: "addr option"

datatype cell =
    CPolicy TrafficPolicy
  | CLabels "(string \<times> string) list"
  | CSubSets "gSubSet list"
  | CString string
  | CMatchRules "gMatchRule list"
  | CRules "ManbaHTTPRule list"
  | CHosts "string list"
  | CAddrs "LoadBalancerIngress list"
  | CClusters "gCluster list"
  | CIngresses "gIngress list"

type_synonym heap = "cell list"

text \<open>
  A cell is read at its type; the heaps of the properties are well typed, elsewhere the readers return
  the zero value.
\<close>

definition cell_at :: "heap \<Rightarrow> addr \<Rightarrow> cell option" where
  "cell_at h a = (if a < length h then Some (h ! a) else None)"

definition zero_policy :: TrafficPolicy where
  "zero_policy = \<lparr>tp_LoadBalancer = None, tp_MaxQPS = 0, tp_CircuitBreaker = None, tp_RateLimitOption = None\<rparr>"

definition rd_policy :: "heap \<Rightarrow> addr \<Rightarrow> TrafficPolicy" where
  "rd_policy h a = (case cell_at h a of Some (CPolicy x) \<Rightarrow> x | _ \<Rightarrow> zero_policy)"

definition rd_labels :: "heap \<Rightarrow> addr \<Rightarrow> (string \<times> string) list" where
  "rd_labels h a = (case cell_at h a of Some (CLabels x) \<Rightarrow> x | _ \<Rightarrow> [])"

definition rd_subsets :: "heap \<Rightarrow> addr \<Rightarrow> gSubSet list" where
  "rd_subsets h a = (case cell_at h a of Some (CSubSets x) \<Rightarrow> x | _ \<Rightarrow> [])"

definition rd_string :: "heap \<Rightarrow> addr \<Rightarrow> string" where
  "rd_string h a = (case cell_at h a of Some (CString x) \<Rightarrow> x | _ \<Rightarrow> [])"

definition rd_match_rules :: "heap \<Rightarrow> addr \<Rightarrow> gMatchRule list" where
  "rd_match_rules h a = (case cell_at h a of Some (CMatchRules x) \<Rightarrow> x | _ \<Rightarrow> [])"

definition rd_rules :: "heap \<Rightarrow> addr \<Rightarrow> ManbaHTTPRule list" where
  "rd_rules h a = (case cell_at h a of Some (CRules x) \<Rightarrow> x | _ \<Rightarrow> [])"

definition rd_hosts :: "heap \<Rightarrow> addr \<Rightarrow> string list" where
  "rd_hosts h a = (case cell_at h a of Some (CHosts x) \<Rightarrow> x | _ \<Rightarrow> [])"

definition rd_addrs :: "heap \<Rightarrow> addr \<Rightarrow> LoadBalancerIngress list" where
  "rd_addrs h a = (case cell_at h a of Some (CAddrs x) \<Rightarrow> x | _ \<Rightarrow> [])"

definition rd_clusters :: "heap \<Rightarrow> addr \<Rightarrow> gCluster list" where
  "rd_clusters h a = (case cell_at h a of Some (CClusters x) \<Rightarrow> x | _ \<Rightarrow> [])"

definition rd_ingresses :: "heap \<Rightarrow> addr \<Rightarrow> gIngress list" where
  "rd_ingresses h a = (case cell_at h a of Some (CIngresses x) \<Rightarrow> x | _ \<Rightarrow> [])"

lemmas rd_defs = rd_policy_def rd_labels_def rd_subsets_def rd_string_def rd_match_rules_def rd_rules_def rd_hosts_def rd_addrs_def
  rd_clusters_def rd_ingresses_def

definition alloc :: "cell \<Rightarrow> (heap, addr) state" where
  "alloc c = State (\<lambda>h. (length h, h @ [c]))"

definition reading :: "(heap \<Rightarrow> 'a) \<Rightarrow> (heap, 'a) state" where
  "reading f = State (\<lambda>h. (f h, h))"

definition store_cell :: "addr \<Rightarrow> cell \<Rightarrow> (heap, unit) state" where
  "store_cell a c = State (\<lambda>h. ((), h[a := c]))"

lemma run_alloc [simp]: "run_state (alloc c) h = (length h, h @ [c])"
  by (simp add: alloc_def)

lemma run_reading [simp]: "run_state (reading f) h = (f h, h)"
  by (simp add: reading_def)

lemma run_store_cell [simp]: "run_state (store_cell a c) h = ((), h[a := c])"
  by (simp add: store_cell_def)

text \<open>
  The two shapes of the generated code: \<open>if in.X != nil { *out = make([]T, len(*in)); for i ... }\<close> for slices, whose
  elements are copied by \<open>f\<close> and end in a cell of kind \<open>C\<close>, and \<open>if in.X != nil { *out = new(T); ... }\<close> for what a
  single cell holds.
\<close>

definition copy_slice :: "(heap \<Rightarrow> addr \<Rightarrow> 'g list) \<Rightarrow> ('g list \<Rightarrow> cell) \<Rightarrow> ('g \<Rightarrow> (heap, 'g) state) \<Rightarrow> addr option \<Rightarrow> (heap, addr option) state" where
  "copy_slice rd C f inp =
     (case inp of
        None \<Rightarrow> State_Monad.return None
      | Some a \<Rightarrow> do {
          xs \<leftarrow> reading (\<lambda>h. rd h a);
          ys \<leftarrow> State_Monad.traverse_list f xs;
          a' \<leftarrow> alloc (C ys);
          State_Monad.return (Some a') })"

definition copy_cell :: "(heap \<Rightarrow> addr \<Rightarrow> 'v) \<Rightarrow> ('v \<Rightarrow> cell) \<Rightarrow> ('v \<Rightarrow> 'v) \<Rightarrow> addr option \<Rightarrow> (heap, addr option) state" where
  "copy_cell rd C j inp =
     (case inp of
        None \<Rightarrow> State_Monad.return None
      | Some a \<Rightarrow> do {
          x \<leftarrow> reading (\<lambda>h. rd h a);
          a' \<leftarrow> alloc (C (j x));
          State_Monad.return (Some a') })"

section \<open>Clusters\<close>

text \<open>
  \<open>TrafficPolicy\<close> is copied through JSON into a new struct: \<open>jc\<close> is what decoding the encoded struct into a zero
  struct leaves there, also when one of the two fails.
\<close>

definition TrafficPolicy_DeepCopy :: "(TrafficPolicy \<Rightarrow> TrafficPolicy) \<Rightarrow> addr option \<Rightarrow> (heap, addr option) state" where
  "TrafficPolicy_DeepCopy jc inp = copy_cell rd_policy CPolicy jc inp"

definition ManbaClusterSubSet_DeepCopyInto :: "(TrafficPolicy \<Rightarrow> TrafficPolicy) \<Rightarrow> gSubSet \<Rightarrow> (heap, gSubSet) state" where
  "ManbaClusterSubSet_DeepCopyInto jc inp = do {
     labels \<leftarrow> copy_cell rd_labels CLabels id (g_ss_Labels inp);
     policy \<leftarrow> TrafficPolicy_DeepCopy jc (g_ss_TrafficPolicy inp);
     State_Monad.return (inp\<lparr>g_ss_Labels := labels, g_ss_TrafficPolicy := policy\<rparr>) }"

definition ManbaClusterSpec_DeepCopyInto :: "(TrafficPolicy \<Rightarrow> TrafficPolicy) \<Rightarrow> gClusterSpec \<Rightarrow> (heap, gClusterSpec) state" where
  "ManbaClusterSpec_DeepCopyInto jc inp = do {
     policy \<leftarrow> TrafficPolicy_DeepCopy jc (g_TrafficPolicy inp);
     subsets \<leftarrow> copy_slice rd_subsets CSubSets (ManbaClusterSubSet_DeepCopyInto jc) (g_Subsets inp);
     State_Monad.return (inp\<lparr>g_TrafficPolicy := policy, g_Subsets := subsets\<rparr>) }"

text \<open>The metadata is copied by the API machinery; it is a value of the model.\<close>

definition ManbaCluster_DeepCopyInto :: "(TrafficPolicy \<Rightarrow> TrafficPolicy) \<Rightarrow> gCluster \<Rightarrow> (heap, gCluster) state" where
  "ManbaCluster_DeepCopyInto jc inp = do {
     spec \<leftarrow> ManbaClusterSpec_DeepCopyInto jc (g_mc_Spec inp);
     State_Monad.return (inp\<lparr>g_mc_Spec := spec\<rparr>) }"

definition ManbaCluster_DeepCopy :: "(TrafficPolicy \<Rightarrow> TrafficPolicy) \<Rightarrow> gCluster option \<Rightarrow> (heap, gCluster option) state" where
  "ManbaCluster_DeepCopy jc inp =
     (case inp of None \<Rightarrow> State_Monad.return None
      | Some c \<Rightarrow> do { out \<leftarrow> ManbaCluster_DeepCopyInto jc c; State_Monad.return (Some out) })"

text \<open>The items of a list, whose metadata is a value of the API machinery.\<close>

definition ManbaClusterList_DeepCopyInto :: "(TrafficPolicy \<Rightarrow> TrafficPolicy) \<Rightarrow> addr option \<Rightarrow> (heap, addr option) state" where
  "ManbaClusterList_DeepCopyInto jc items = copy_slice rd_clusters CClusters (ManbaCluster_DeepCopyInto jc) items"

section \<open>Ingresses\<close>

definition ManbaHTTPMatchRule_DeepCopyInto :: "gMatchRule \<Rightarrow> (heap, gMatchRule) state" where
  "ManbaHTTPMatchRule_DeepCopyInto inp = do {
     method \<leftarrow> copy_cell rd_string CString id (g_mr_Method inp);
     State_Monad.return (inp\<lparr>g_mr_Method := method\<rparr>) }"

definition ManbaHTTPMatch_DeepCopyInto :: "gMatch \<Rightarrow> (heap, gMatch) state" where
  "ManbaHTTPMatch_DeepCopyInto inp = do {
     rules \<leftarrow> copy_slice rd_match_rules CMatchRules ManbaHTTPMatchRule_DeepCopyInto (g_match_Rules inp);
     State_Monad.return (inp\<lparr>g_match_Rules := rules\<rparr>) }"

text \<open>
  The spec of an ingress. The rules go through JSON one by one (\<open>jr\<close>, into the zero structs of a new array);
  the hosts are copied by the API machinery into a new array.
\<close>

definition ManbaHTTPRule_DeepCopyInto :: "(ManbaHTTPRule \<Rightarrow> ManbaHTTPRule) \<Rightarrow> ManbaHTTPRule \<Rightarrow> (heap, ManbaHTTPRule) state" where
  "ManbaHTTPRule_DeepCopyInto jr inp = State_Monad.return (jr inp)"

definition ManbaIngressSpec_DeepCopyInto :: "(ManbaHTTPRule \<Rightarrow> ManbaHTTPRule) \<Rightarrow> gIngressSpec \<Rightarrow> (heap, gIngressSpec) state" where
  "ManbaIngressSpec_DeepCopyInto jr inp = do {
     http \<leftarrow> copy_slice rd_rules CRules (ManbaHTTPRule_DeepCopyInto jr) (g_HTTP inp);
     hosts \<leftarrow> copy_cell rd_hosts CHosts id (g_TLS_Hosts inp);
     State_Monad.return (inp\<lparr>g_HTTP := http, g_TLS_Hosts := hosts\<rparr>) }"

text \<open>
  \<open>ManbaIngress.DeepCopyInto\<close>, which is not generated: it decodes into \<open>outSpec\<close>, a local copy of \<open>out.Spec\<close> that
  shares the arrays of \<open>in.Spec\<close>. Decoding reuses an array that is there, so the elements are decoded in place
  (\<open>js\<close>, or nothing when the JSON library fails); \<open>out.Spec\<close> itself is not assigned again.
\<close>

definition ManbaIngress_DeepCopyInto ::
    "(ManbaHTTPRule list \<times> string list \<Rightarrow> (ManbaHTTPRule list \<times> string list) option) \<Rightarrow> gIngress \<Rightarrow> (heap, gIngress) state" where
  "ManbaIngress_DeepCopyInto js inp =
     (let out = inp; inSpec = g_ing_Spec inp; outSpec = g_ing_Spec out in
      do {
        rules \<leftarrow> reading (\<lambda>h. case g_HTTP inSpec of None \<Rightarrow> [] | Some a \<Rightarrow> rd_rules h a);
        hosts \<leftarrow> reading (\<lambda>h. case g_TLS_Hosts inSpec of None \<Rightarrow> [] | Some a \<Rightarrow> rd_hosts h a);
        (case js (rules, hosts) of
           None \<Rightarrow> State_Monad.return ()
         | Some (rules', hosts') \<Rightarrow> do {
             (case g_HTTP outSpec of None \<Rightarrow> State_Monad.return () | Some a \<Rightarrow> store_cell a (CRules rules'));
             (case g_TLS_Hosts outSpec of None \<Rightarrow> State_Monad.return () | Some a \<Rightarrow> store_cell a (CHosts hosts')) });
        State_Monad.return out })"

definition ManbaIngress_DeepCopy ::
    "(ManbaHTTPRule list \<times> string list \<Rightarrow> (ManbaHTTPRule list \<times> string list) option) \<Rightarrow> gIngress option \<Rightarrow> (heap, gIngress option) state" where
  "ManbaIngress_DeepCopy js inp =
     (case inp of None \<Rightarrow> State_Monad.return None
      | Some c \<Rightarrow> do { out \<leftarrow> ManbaIngress_DeepCopyInto js c; State_Monad.return (Some out) })"

definition ManbaIngressList_DeepCopyInto ::
    "(ManbaHTTPRule list \<times> string list \<Rightarrow> (ManbaHTTPRule list \<times> string list) option) \<Rightarrow> addr option \<Rightarrow> (heap, addr option) state" where
  "ManbaIngressList_DeepCopyInto js items = copy_slice rd_ingresses CIngresses (ManbaIngress_DeepCopyInto js) items"

section \<open>What an object is, and where it lives\<close>

text \<open>
  The value that an object has in a heap (as \<open>Crd\<close> has it) and its footprint, the cells it reaches. A reference
  that points nowhere is a footprint outside the heap.
\<close>

definition in_heap :: "heap \<Rightarrow> addr set \<Rightarrow> bool" where
  "in_heap h A \<longleftrightarrow> A \<subseteq> {..<length h}"

definition val_subset :: "heap \<Rightarrow> gSubSet \<Rightarrow> ManbaClusterSubSet" where
  "val_subset h s = \<lparr>ss_Name = g_ss_Name s,
     ss_Labels = (case g_ss_Labels s of None \<Rightarrow> [] | Some a \<Rightarrow> rd_labels h a),
     ss_TrafficPolicy = map_option (rd_policy h) (g_ss_TrafficPolicy s)\<rparr>"

definition val_cluster :: "heap \<Rightarrow> gCluster \<Rightarrow> ManbaCluster" where
  "val_cluster h c = \<lparr>mc_Meta = g_mc_Meta c,
     mc_TrafficPolicy = map_option (rd_policy h) (g_TrafficPolicy (g_mc_Spec c)),
     mc_Subsets = (case g_Subsets (g_mc_Spec c) of None \<Rightarrow> [] | Some a \<Rightarrow> map (val_subset h) (rd_subsets h a))\<rparr>"

definition val_clusters :: "heap \<Rightarrow> addr option \<Rightarrow> ManbaCluster list" where
  "val_clusters h items = (case items of None \<Rightarrow> [] | Some a \<Rightarrow> map (val_cluster h) (rd_clusters h a))"

definition fp_subset :: "heap \<Rightarrow> gSubSet \<Rightarrow> addr set" where
  "fp_subset h s = set_option (g_ss_Labels s) \<union> set_option (g_ss_TrafficPolicy s)"

definition fp_slice :: "(heap \<Rightarrow> addr \<Rightarrow> 'g list) \<Rightarrow> (heap \<Rightarrow> 'g \<Rightarrow> addr set) \<Rightarrow> heap \<Rightarrow> addr option \<Rightarrow> addr set" where
  "fp_slice rd fp h inp = (case inp of None \<Rightarrow> {} | Some a \<Rightarrow> insert a (\<Union>x\<in>set (rd h a). fp h x))"

definition fp_cluster :: "heap \<Rightarrow> gCluster \<Rightarrow> addr set" where
  "fp_cluster h c = set_option (g_TrafficPolicy (g_mc_Spec c)) \<union> fp_slice rd_subsets fp_subset h (g_Subsets (g_mc_Spec c))"

definition fp_clusters :: "heap \<Rightarrow> addr option \<Rightarrow> addr set" where
  "fp_clusters h items = fp_slice rd_clusters fp_cluster h items"

text \<open>What the JSON library makes of the policies of a cluster.\<close>

definition json_subset :: "(TrafficPolicy \<Rightarrow> TrafficPolicy) \<Rightarrow> ManbaClusterSubSet \<Rightarrow> ManbaClusterSubSet" where
  "json_subset jc s = s\<lparr>ss_TrafficPolicy := map_option jc (ss_TrafficPolicy s)\<rparr>"

definition json_cluster :: "(TrafficPolicy \<Rightarrow> TrafficPolicy) \<Rightarrow> ManbaCluster \<Rightarrow> ManbaCluster" where
  "json_cluster jc c = c\<lparr>mc_TrafficPolicy := map_option jc (mc_TrafficPolicy c), mc_Subsets := map (json_subset jc) (mc_Subsets c)\<rparr>"

definition val_match_rule :: "heap \<Rightarrow> gMatchRule \<Rightarrow> ManbaHTTPMatchRule" where
  "val_match_rule h r = \<lparr>mr_URI_Pattern = g_mr_URI r, mr_Method = map_option (rd_string h) (g_mr_Method r), mr_MatchType = g_mr_MatchType r\<rparr>"

definition fp_match_rule :: "heap \<Rightarrow> gMatchRule \<Rightarrow> addr set" where
  "fp_match_rule h r = set_option (g_mr_Method r)"

definition val_match :: "heap \<Rightarrow> gMatch \<Rightarrow> ManbaHTTPMatch" where
  "val_match h m = \<lparr>match_Host = g_match_Host m,
     match_Rules = (case g_match_Rules m of None \<Rightarrow> [] | Some a \<Rightarrow> map (val_match_rule h) (rd_match_rules h a))\<rparr>"

definition fp_match :: "heap \<Rightarrow> gMatch \<Rightarrow> addr set" where
  "fp_match h m = fp_slice rd_match_rules fp_match_rule h (g_match_Rules m)"

definition val_ingress_spec :: "heap \<Rightarrow> gIngressSpec \<Rightarrow> ManbaIngressSpec" where
  "val_ingress_spec h sp = \<lparr>spec_HTTP = (case g_HTTP sp of None \<Rightarrow> [] | Some a \<Rightarrow> rd_rules h a),
     spec_TLS = \<lparr>tls_Hosts = (case g_TLS_Hosts sp of None \<Rightarrow> [] | Some a \<Rightarrow> rd_hosts h a), tls_SecretName = g_TLS_SecretName sp\<rparr>\<rparr>"

definition fp_ingress_spec :: "heap \<Rightarrow> gIngressSpec \<Rightarrow> addr set" where
  "fp_ingress_spec h sp = set_option (g_HTTP sp) \<union> set_option (g_TLS_Hosts sp)"

definition json_ingress_spec :: "(ManbaHTTPRule \<Rightarrow> ManbaHTTPRule) \<Rightarrow> ManbaIngressSpec \<Rightarrow> ManbaIngressSpec" where
  "json_ingress_spec jr sp = sp\<lparr>spec_HTTP := map jr (spec_HTTP sp)\<rparr>"

end
