(* ===== verification/Deep_Copy_Laws.thy ===== *)
theory Deep_Copy_Laws
  imports Deep_Copy
begin

text \<open>
  The copies are independent of their originals. The contract of a copy is the locale \<open>deep_copier\<close>: what an
  object is depends only on the cells of its footprint, and the copy has the same value in new cells. It is
  interpreted on the generated copies, from the leaves up to the lists of clusters; the hand-written copy of
  an ingress does not satisfy it.
\<close>

section \<open>Cells\<close>

lemma cell_at_append [simp]: "a < length h \<Longrightarrow> cell_at (h @ e) a = cell_at h a"
  by (simp add: cell_at_def nth_append)

lemma cell_at_new [simp]: "cell_at (h @ [c]) (length h) = Some c"
  by (simp add: cell_at_def)

lemma cell_at_new2 [simp]: "cell_at (h @ e @ [c]) (length h + length e) = Some c"
  using cell_at_new[of "h @ e" c] by simp

lemma cell_at_update [simp]: "b \<noteq> a \<Longrightarrow> cell_at (h[b := c]) a = cell_at h a"
  by (simp add: cell_at_def)

text \<open>Two heaps agree on some cells.\<close>

definition agree :: "heap \<Rightarrow> heap \<Rightarrow> addr set \<Rightarrow> bool" where
  "agree h h' A \<longleftrightarrow> (\<forall>a\<in>A. cell_at h' a = cell_at h a)"

lemma agree_append: "in_heap h A \<Longrightarrow> agree h (h @ e) A"
  by (auto simp: agree_def in_heap_def)

lemma agree_update: "b \<notin> A \<Longrightarrow> agree h (h[b := c]) A"
  by (auto simp: agree_def intro!: cell_at_update)

lemma agree_Un [simp]: "agree h h' (A \<union> B) \<longleftrightarrow> agree h h' A \<and> agree h h' B"
  by (auto simp: agree_def)

lemma agree_insert [simp]: "agree h h' (insert a A) \<longleftrightarrow> cell_at h' a = cell_at h a \<and> agree h h' A"
  by (auto simp: agree_def)

lemma agree_UN [simp]: "agree h h' (\<Union>x\<in>X. F x) \<longleftrightarrow> (\<forall>x\<in>X. agree h h' (F x))"
  by (auto simp: agree_def)

lemma in_heap_Un [simp]: "in_heap h (A \<union> B) \<longleftrightarrow> in_heap h A \<and> in_heap h B"
  by (auto simp: in_heap_def)

lemma in_heap_insert [simp]: "in_heap h (insert a A) \<longleftrightarrow> a < length h \<and> in_heap h A"
  by (auto simp: in_heap_def)

lemma in_heap_UN [simp]: "in_heap h (\<Union>x\<in>X. F x) \<longleftrightarrow> (\<forall>x\<in>X. in_heap h (F x))"
  by (auto simp: in_heap_def)

lemma in_heap_empty [simp]: "in_heap h {}"
  by (simp add: in_heap_def)

lemma in_heap_append: "in_heap h A \<Longrightarrow> in_heap (h @ e) A"
  by (auto simp: in_heap_def)

section \<open>The contract of a copy\<close>

locale object =
  fixes val :: "heap \<Rightarrow> 'g \<Rightarrow> 'v" and fp :: "heap \<Rightarrow> 'g \<Rightarrow> addr set"
  assumes val_agree: "agree h h' (fp h g) \<Longrightarrow> val h' g = val h g"
    and fp_agree: "agree h h' (fp h g) \<Longrightarrow> fp h' g = fp h g"
begin

lemma val_append: "in_heap h (fp h g) \<Longrightarrow> val (h @ e) g = val h g"
  by (rule val_agree, rule agree_append)

lemma fp_append: "in_heap h (fp h g) \<Longrightarrow> fp (h @ e) g = fp h g"
  by (rule fp_agree, rule agree_append)

lemma val_update: "b \<notin> fp h g \<Longrightarrow> val (h[b := c]) g = val h g"
  by (rule val_agree, rule agree_update)

end

locale deep_copier = object val fp
  for val :: "heap \<Rightarrow> 'g \<Rightarrow> 'v" and fp :: "heap \<Rightarrow> 'g \<Rightarrow> addr set" +
  fixes copy :: "'g \<Rightarrow> (heap, 'g) state" and j :: "'v \<Rightarrow> 'v"
  assumes copy: "in_heap h (fp h g) \<Longrightarrow>
    \<exists>e g'. run_state (copy g) h = (g', h @ e) \<and> val (h @ e) g' = j (val h g) \<and> fp (h @ e) g' \<subseteq> {length h..<length h + length e}"
begin

text \<open>A copied list is a list of copies.\<close>

lemma copy_list:
  "(\<forall>x\<in>set xs. in_heap h (fp h x)) \<Longrightarrow>
   \<exists>e ys. run_state (State_Monad.traverse_list copy xs) h = (ys, h @ e) \<and> map (val (h @ e)) ys = map j (map (val h) xs)
     \<and> (\<Union>y\<in>set ys. fp (h @ e) y) \<subseteq> {length h..<length h + length e}"
proof (induction xs arbitrary: h)
  case Nil
  then show ?case by (auto simp: State_Monad.return_def)
next
  case (Cons x xs)
  obtain e x' where x: "run_state (copy x) h = (x', h @ e)" "val (h @ e) x' = j (val h x)"
    "fp (h @ e) x' \<subseteq> {length h..<length h + length e}"
    using copy[of h x] Cons.prems by auto
  have old: "\<forall>y\<in>set xs. in_heap (h @ e) (fp (h @ e) y)"
    using Cons.prems by (auto simp: fp_append in_heap_append)
  obtain e2 ys where ys: "run_state (State_Monad.traverse_list copy xs) (h @ e) = (ys, (h @ e) @ e2)"
    "map (val ((h @ e) @ e2)) ys = map j (map (val (h @ e)) xs)"
    "(\<Union>y\<in>set ys. fp ((h @ e) @ e2) y) \<subseteq> {length (h @ e)..<length (h @ e) + length e2}"
    using Cons.IH[OF old] by blast
  have new: "in_heap (h @ e) (fp (h @ e) x')"
    using x(3) by (auto simp: in_heap_def)
  have "map (val (h @ e)) xs = map (val h) xs"
    using Cons.prems by (auto simp: val_append)
  then show ?case
    using x ys val_append[OF new, of e2] fp_append[OF new, of e2]
    by (intro exI[of _ "e @ e2"] exI[of _ "x' # ys"]) (auto simp: State_Monad.return_def State_Monad.bind_def)
qed

text \<open>
  Independence: the original is untouched, and nobody who writes into the cells of the one changes the
  other.
\<close>

lemma independent:
  assumes "in_heap h (fp h g)" and run: "run_state (copy g) h = (g', h')"
  shows "val h' g' = j (val h g)" and "val h' g = val h g" and "fp h' g' \<inter> fp h' g = {}"
    and "a \<in> fp h' g' \<Longrightarrow> val (h'[a := c]) g = val h g"
    and "a \<in> fp h' g \<Longrightarrow> val (h'[a := c]) g' = val h' g'"
proof -
  obtain e where e: "h' = h @ e" "val h' g' = j (val h g)" "fp h' g' \<subseteq> {length h..<length h + length e}"
    using copy[OF assms(1)] run by auto
  have old: "val h' g = val h g" "fp h' g = fp h g"
    using assms(1) by (auto simp: e(1) val_append fp_append)
  have disj: "fp h' g' \<inter> fp h' g = {}"
    using e(3) assms(1) old(2) by (fastforce simp: in_heap_def)
  show "val h' g' = j (val h g)" "val h' g = val h g" "fp h' g' \<inter> fp h' g = {}"
    by (fact e old disj)+
  show "val (h'[a := c]) g = val h g" if "a \<in> fp h' g'"
    using that disj val_update[of a h' g c] old by auto
  show "val (h'[a := c]) g' = val h' g'" if "a \<in> fp h' g"
    using that disj val_update[of a h' g' c] by auto
qed

end

text \<open>A slice of copied elements: the reader of the cells reads back what the constructor stored.\<close>

locale slice_copier = deep_copier val fp copy j
  for val :: "heap \<Rightarrow> 'g \<Rightarrow> 'v" and fp and copy and j +
  fixes rd :: "heap \<Rightarrow> addr \<Rightarrow> 'g list" and C :: "'g list \<Rightarrow> cell"
  assumes rd_C: "cell_at h a = Some (C xs) \<Longrightarrow> rd h a = xs"
    and rd_agree: "cell_at h' a = cell_at h a \<Longrightarrow> rd h' a = rd h a"
begin

lemma slice_object: "object (\<lambda>h. case_option [] (\<lambda>a. map (val h) (rd h a))) (fp_slice rd fp)"
proof
  fix h h' :: heap and g
  assume *: "agree h h' (fp_slice rd fp h g)"
  have rd: "rd h' a = rd h a" if "g = Some a" for a
    using * that by (intro rd_agree) (simp add: fp_slice_def)
  have el: "val h' x = val h x" "fp h' x = fp h x" if "g = Some a" "x \<in> set (rd h a)" for a x
    using * that by (auto intro!: val_agree fp_agree simp: fp_slice_def)
  show "(case g of None \<Rightarrow> [] | Some a \<Rightarrow> map (val h') (rd h' a)) = (case g of None \<Rightarrow> [] | Some a \<Rightarrow> map (val h) (rd h a))"
    using rd el by (cases g) auto
  show "fp_slice rd fp h' g = fp_slice rd fp h g"
    using rd el by (cases g) (auto simp: fp_slice_def)
qed

lemma slice_copier: "deep_copier (\<lambda>h. case_option [] (\<lambda>a. map (val h) (rd h a))) (fp_slice rd fp) (copy_slice rd C copy) (map j)"
proof (rule deep_copier.intro[OF slice_object], unfold_locales)
  fix h :: heap and g
  assume wf: "in_heap h (fp_slice rd fp h g)"
  show "\<exists>e g'. run_state (copy_slice rd C copy g) h = (g', h @ e)
      \<and> (case g' of None \<Rightarrow> [] | Some a \<Rightarrow> map (val (h @ e)) (rd (h @ e) a)) = map j (case g of None \<Rightarrow> [] | Some a \<Rightarrow> map (val h) (rd h a))
      \<and> fp_slice rd fp (h @ e) g' \<subseteq> {length h..<length h + length e}"
  proof (cases g)
    case None
    then show ?thesis by (auto simp: copy_slice_def fp_slice_def State_Monad.return_def)
  next
    case (Some a)
    obtain e ys where ys: "run_state (State_Monad.traverse_list copy (rd h a)) h = (ys, h @ e)"
      "map (val (h @ e)) ys = map j (map (val h) (rd h a))"
      "(\<Union>y\<in>set ys. fp (h @ e) y) \<subseteq> {length h..<length h + length e}"
      using copy_list[of "rd h a" h] wf by (auto simp: Some fp_slice_def)
    have old: "\<forall>y\<in>set ys. in_heap (h @ e) (fp (h @ e) y)"
      using ys(3) by (auto simp: in_heap_def)
    have same: "map (val (h @ e @ [C ys])) ys = map (val (h @ e)) ys" "\<forall>y\<in>set ys. fp (h @ e @ [C ys]) y = fp (h @ e) y"
      using old val_append[of "h @ e" _ "[C ys]"] fp_append[of "h @ e" _ "[C ys]"] by auto
    have "rd (h @ e @ [C ys]) (length h + length e) = ys"
      by (rule rd_C) simp
    then show ?thesis
      using ys same
      by (intro exI[of _ "e @ [C ys]"] exI[of _ "Some (length h + length e)"])
         (auto simp: Some copy_slice_def fp_slice_def State_Monad.return_def State_Monad.bind_def less_Suc_eq)
  qed
qed

end

text \<open>What a single cell holds.\<close>

locale cell_copier =
  fixes rd :: "heap \<Rightarrow> addr \<Rightarrow> 'v" and C :: "'v \<Rightarrow> cell" and j :: "'v \<Rightarrow> 'v"
  assumes rd_C: "cell_at h a = Some (C x) \<Longrightarrow> rd h a = x"
    and rd_agree: "cell_at h' a = cell_at h a \<Longrightarrow> rd h' a = rd h a"
begin

lemma cell_copier: "deep_copier (\<lambda>h. map_option (rd h)) (\<lambda>h. set_option) (copy_cell rd C j) (map_option j)"
proof
  fix h h' :: heap and g
  assume "agree h h' (set_option g)"
  then show "map_option (rd h') g = map_option (rd h) g" "set_option g = set_option g"
    by (auto simp: agree_def intro!: rd_agree map_option_cong)
next
  fix h :: heap and g
  show "\<exists>e g'. run_state (copy_cell rd C j g) h = (g', h @ e) \<and> map_option (rd (h @ e)) g' = map_option j (map_option (rd h) g)
      \<and> set_option g' \<subseteq> {length h..<length h + length e}"
  proof (cases g)
    case None
    then show ?thesis by (auto simp: copy_cell_def State_Monad.return_def)
  next
    case (Some a)
    have "rd (h @ [C (j (rd h a))]) (length h) = j (rd h a)"
      by (rule rd_C) simp
    then show ?thesis
      by (intro exI[of _ "[C (j (rd h a))]"] exI[of _ "Some (length h)"])
         (auto simp: Some copy_cell_def State_Monad.return_def State_Monad.bind_def)
  qed
qed

end

section \<open>Putting copies together\<close>

text \<open>Two fields are copied one after the other.\<close>

definition copy_both :: "('a \<Rightarrow> (heap, 'a) state) \<Rightarrow> ('b \<Rightarrow> (heap, 'b) state) \<Rightarrow> 'a \<times> 'b \<Rightarrow> (heap, 'a \<times> 'b) state" where
  "copy_both c1 c2 p = do { x \<leftarrow> c1 (fst p); y \<leftarrow> c2 (snd p); State_Monad.return (x, y) }"

lemma copier_both:
  assumes "deep_copier v1 f1 c1 j1" and "deep_copier v2 f2 c2 j2"
  shows "deep_copier (\<lambda>h. map_prod (v1 h) (v2 h)) (\<lambda>h p. f1 h (fst p) \<union> f2 h (snd p)) (copy_both c1 c2) (map_prod j1 j2)"
proof
  fix h h' :: heap and g :: "'a \<times> 'c"
  assume "agree h h' (f1 h (fst g) \<union> f2 h (snd g))"
  then have "agree h h' (f1 h (fst g))" "agree h h' (f2 h (snd g))" by auto
  note a = object.val_agree[OF deep_copier.axioms(1)[OF assms(1)] this(1)] object.val_agree[OF deep_copier.axioms(1)[OF assms(2)] this(2)]
    object.fp_agree[OF deep_copier.axioms(1)[OF assms(1)] this(1)] object.fp_agree[OF deep_copier.axioms(1)[OF assms(2)] this(2)]
  show "map_prod (v1 h') (v2 h') g = map_prod (v1 h) (v2 h) g" "f1 h' (fst g) \<union> f2 h' (snd g) = f1 h (fst g) \<union> f2 h (snd g)"
    using a by (auto simp: prod_eq_iff)
next
  fix h :: heap and g :: "'a \<times> 'c"
  assume wf: "in_heap h (f1 h (fst g) \<union> f2 h (snd g))"
  note app = object.val_append[OF deep_copier.axioms(1)] object.fp_append[OF deep_copier.axioms(1)]
  obtain e x where x: "run_state (c1 (fst g)) h = (x, h @ e)" "v1 (h @ e) x = j1 (v1 h (fst g))"
    "f1 (h @ e) x \<subseteq> {length h..<length h + length e}"
    using deep_copier.copy[OF assms(1), of h "fst g"] wf by auto
  have wf2: "in_heap (h @ e) (f2 (h @ e) (snd g))" and v2: "v2 (h @ e) (snd g) = v2 h (snd g)"
    using wf app[OF assms(2), of h "snd g" e] by (auto simp: in_heap_append)
  obtain e2 y where y: "run_state (c2 (snd g)) (h @ e) = (y, (h @ e) @ e2)" "v2 ((h @ e) @ e2) y = j2 (v2 (h @ e) (snd g))"
    "f2 ((h @ e) @ e2) y \<subseteq> {length (h @ e)..<length (h @ e) + length e2}"
    using deep_copier.copy[OF assms(2) wf2] by auto
  have "in_heap (h @ e) (f1 (h @ e) x)"
    using x(3) by (auto simp: in_heap_def)
  note x2 = app[OF assms(1) this, of e2]
  show "\<exists>e g'. run_state (copy_both c1 c2 g) h = (g', h @ e) \<and> map_prod (v1 (h @ e)) (v2 (h @ e)) g' = map_prod j1 j2 (map_prod (v1 h) (v2 h) g)
      \<and> f1 (h @ e) (fst g') \<union> f2 (h @ e) (snd g') \<subseteq> {length h..<length h + length e}"
    using x y x2 v2
    by (cases g; intro exI[of _ "e @ e2"] exI[of _ "(x, y)"]) (auto simp: copy_both_def State_Monad.return_def State_Monad.bind_def)
qed

text \<open>A struct whose references are the part \<open>get\<close> of it; the rest of it, \<open>k\<close>, is assigned as it is.\<close>

lemma copier_part:
  assumes c: "deep_copier v f c j"
    and get: "\<And>a b. get (put a b) = a" and k: "\<And>a b. k (put a b) = k b" and j': "\<And>r x. j' (V r x) = V r (j x)"
    and v': "\<And>h b. v' h b = V (k b) (v h (get b))" and f': "\<And>h b. f' h b = f h (get b)"
    and c': "\<And>b. c' b = State_Monad.bind (c (get b)) (\<lambda>a. State_Monad.return (put a b))"
  shows "deep_copier v' f' c' j'"
proof
  fix h h' :: heap and g
  assume "agree h h' (f' h g)"
  then have "agree h h' (f h (get g))" by (simp add: f')
  then show "v' h' g = v' h g" "f' h' g = f' h g"
    using object.val_agree[OF deep_copier.axioms(1)[OF c]] object.fp_agree[OF deep_copier.axioms(1)[OF c]] by (simp_all add: v' f')
next
  fix h :: heap and g
  assume "in_heap h (f' h g)"
  then obtain e x where "run_state (c (get g)) h = (x, h @ e)" "v (h @ e) x = j (v h (get g))" "f (h @ e) x \<subseteq> {length h..<length h + length e}"
    using deep_copier.copy[OF c, of h "get g"] by (auto simp: f')
  then show "\<exists>e g'. run_state (c' g) h = (g', h @ e) \<and> v' (h @ e) g' = j' (v' h g) \<and> f' (h @ e) g' \<subseteq> {length h..<length h + length e}"
    by (intro exI[of _ e] exI[of _ "put x g"]) (auto simp: c' v' f' get k j' State_Monad.return_def State_Monad.bind_def)
qed

section \<open>The copies of the custom resources\<close>

interpretation policy_cell: cell_copier rd_policy CPolicy jc for jc
  by unfold_locales (simp_all add: rd_policy_def)

interpretation label_cell: cell_copier rd_labels CLabels id
  by unfold_locales (simp_all add: rd_labels_def)

interpretation string_cell: cell_copier rd_string CString id
  by unfold_locales (simp_all add: rd_string_def)

interpretation host_cell: cell_copier rd_hosts CHosts id
  by unfold_locales (simp_all add: rd_hosts_def)

lemma subset_copier: "deep_copier val_subset fp_subset (ManbaClusterSubSet_DeepCopyInto jc) (json_subset jc)"
proof (rule copier_part[OF copier_both[OF label_cell.cell_copier policy_cell.cell_copier[of jc]]])
  show "val_subset h b = (\<lambda>n (l, p). \<lparr>ss_Name = n, ss_Labels = (case l of None \<Rightarrow> [] | Some x \<Rightarrow> x), ss_TrafficPolicy = p\<rparr>) (g_ss_Name b)
      (map_prod (map_option (rd_labels h)) (map_option (rd_policy h)) (g_ss_Labels b, g_ss_TrafficPolicy b))" for h b
    by (simp add: val_subset_def split: option.splits)
  show "ManbaClusterSubSet_DeepCopyInto jc b = State_Monad.bind (copy_both (copy_cell rd_labels CLabels id) (copy_cell rd_policy CPolicy jc)
      (g_ss_Labels b, g_ss_TrafficPolicy b)) (\<lambda>a. State_Monad.return (b\<lparr>g_ss_Labels := fst a, g_ss_TrafficPolicy := snd a\<rparr>))" for b
    by (simp add: ManbaClusterSubSet_DeepCopyInto_def TrafficPolicy_DeepCopy_def copy_both_def)
qed (auto simp: fp_subset_def json_subset_def option.map_id0)

interpretation subset_slice: slice_copier val_subset fp_subset "ManbaClusterSubSet_DeepCopyInto jc" "json_subset jc" rd_subsets CSubSets for jc
  by (rule slice_copier.intro[OF subset_copier], unfold_locales) (simp_all add: rd_subsets_def)

lemma cluster_copier: "deep_copier val_cluster fp_cluster (ManbaCluster_DeepCopyInto jc) (json_cluster jc)"
proof (rule copier_part[OF copier_both[OF policy_cell.cell_copier[of jc] subset_slice.slice_copier[of jc]]])
  show "val_cluster h b = (\<lambda>m (p, ss). \<lparr>mc_Meta = m, mc_TrafficPolicy = p, mc_Subsets = ss\<rparr>) (g_mc_Meta b)
      (map_prod (map_option (rd_policy h)) (case_option [] (\<lambda>a. map (val_subset h) (rd_subsets h a)))
        (g_TrafficPolicy (g_mc_Spec b), g_Subsets (g_mc_Spec b)))" for h b
    by (simp add: val_cluster_def)
  show "ManbaCluster_DeepCopyInto jc b = State_Monad.bind
      (copy_both (copy_cell rd_policy CPolicy jc) (copy_slice rd_subsets CSubSets (ManbaClusterSubSet_DeepCopyInto jc))
        (g_TrafficPolicy (g_mc_Spec b), g_Subsets (g_mc_Spec b)))
      (\<lambda>a. State_Monad.return (b\<lparr>g_mc_Spec := (g_mc_Spec b)\<lparr>g_TrafficPolicy := fst a, g_Subsets := snd a\<rparr>\<rparr>))" for b
    by (simp add: ManbaCluster_DeepCopyInto_def ManbaClusterSpec_DeepCopyInto_def TrafficPolicy_DeepCopy_def copy_both_def)
qed (auto simp: fp_cluster_def json_cluster_def)

interpretation cluster_slice: slice_copier val_cluster fp_cluster "ManbaCluster_DeepCopyInto jc" "json_cluster jc" rd_clusters CClusters for jc
  by (rule slice_copier.intro[OF cluster_copier], unfold_locales) (simp_all add: rd_clusters_def)

interpretation cluster_list: deep_copier val_clusters fp_clusters "ManbaClusterList_DeepCopyInto jc" "map (json_cluster jc)" for jc
  using cluster_slice.slice_copier[of jc]
  by (simp add: ManbaClusterList_DeepCopyInto_def[abs_def] val_clusters_def[abs_def] fp_clusters_def[abs_def])

text \<open>Matches and specs of ingresses, as the generated code copies them.\<close>

lemma match_rule_copier: "deep_copier val_match_rule fp_match_rule ManbaHTTPMatchRule_DeepCopyInto id"
proof (rule copier_part[OF string_cell.cell_copier])
  show "val_match_rule h b = (\<lambda>(u, t) m. \<lparr>mr_URI_Pattern = u, mr_Method = m, mr_MatchType = t\<rparr>) (g_mr_URI b, g_mr_MatchType b)
      (map_option (rd_string h) (g_mr_Method b))" for h b
    by (simp add: val_match_rule_def)
  show "ManbaHTTPMatchRule_DeepCopyInto b = State_Monad.bind (copy_cell rd_string CString id (g_mr_Method b))
      (\<lambda>a. State_Monad.return (b\<lparr>g_mr_Method := a\<rparr>))" for b
    by (simp add: ManbaHTTPMatchRule_DeepCopyInto_def)
qed (auto simp: fp_match_rule_def option.map_id)

interpretation match_slice: slice_copier val_match_rule fp_match_rule ManbaHTTPMatchRule_DeepCopyInto id rd_match_rules CMatchRules
  by (rule slice_copier.intro[OF match_rule_copier], unfold_locales) (simp_all add: rd_match_rules_def)

interpretation match_copy: deep_copier val_match fp_match ManbaHTTPMatch_DeepCopyInto id
proof (rule copier_part[OF match_slice.slice_copier])
  show "val_match h b = (\<lambda>n rs. \<lparr>match_Host = n, match_Rules = rs\<rparr>) (g_match_Host b)
      (case_option [] (\<lambda>a. map (val_match_rule h) (rd_match_rules h a)) (g_match_Rules b))" for h b
    by (simp add: val_match_def)
  show "ManbaHTTPMatch_DeepCopyInto b = State_Monad.bind (copy_slice rd_match_rules CMatchRules ManbaHTTPMatchRule_DeepCopyInto (g_match_Rules b))
      (\<lambda>a. State_Monad.return (b\<lparr>g_match_Rules := a\<rparr>))" for b
    by (simp add: ManbaHTTPMatch_DeepCopyInto_def)
qed (auto simp: fp_match_def)

interpretation rule_slice: slice_copier "\<lambda>h r. r" "\<lambda>h r. {}" "ManbaHTTPRule_DeepCopyInto jr" jr rd_rules CRules for jr
  by unfold_locales (auto simp: ManbaHTTPRule_DeepCopyInto_def State_Monad.return_def rd_rules_def)

interpretation ingress_spec: deep_copier val_ingress_spec fp_ingress_spec "ManbaIngressSpec_DeepCopyInto jr" "json_ingress_spec jr" for jr
proof (rule copier_part[OF copier_both[OF rule_slice.slice_copier[of jr] host_cell.cell_copier]])
  show "val_ingress_spec h b = (\<lambda>n (rs, hs). \<lparr>spec_HTTP = rs, spec_TLS = \<lparr>tls_Hosts = (case hs of None \<Rightarrow> [] | Some x \<Rightarrow> x), tls_SecretName = n\<rparr>\<rparr>)
      (g_TLS_SecretName b) (map_prod (case_option [] (\<lambda>a. map (\<lambda>r. r) (rd_rules h a))) (map_option (rd_hosts h)) (g_HTTP b, g_TLS_Hosts b))" for h b
    by (simp add: val_ingress_spec_def split: option.splits)
  show "ManbaIngressSpec_DeepCopyInto jr b = State_Monad.bind
      (copy_both (copy_slice rd_rules CRules (ManbaHTTPRule_DeepCopyInto jr)) (copy_cell rd_hosts CHosts id) (g_HTTP b, g_TLS_Hosts b))
      (\<lambda>a. State_Monad.return (b\<lparr>g_HTTP := fst a, g_TLS_Hosts := snd a\<rparr>))" for b
    by (simp add: ManbaIngressSpec_DeepCopyInto_def copy_both_def)
  show "fp_ingress_spec h b = fp_slice rd_rules (\<lambda>h r. {}) h (fst (g_HTTP b, g_TLS_Hosts b)) \<union> set_option (snd (g_HTTP b, g_TLS_Hosts b))" for h b
    by (auto simp: fp_ingress_spec_def fp_slice_def split: option.splits)
qed (auto simp: json_ingress_spec_def option.map_id0)

section \<open>Where independence fails\<close>

lemma ingress_copy_is_shallow:
  "fst (run_state (ManbaIngress_DeepCopyInto js i) h) = i \<and> length (snd (run_state (ManbaIngress_DeepCopyInto js i) h)) = length h"
  by (auto simp: ManbaIngress_DeepCopyInto_def Let_def State_Monad.return_def State_Monad.bind_def split: option.splits prod.splits)

text \<open>
  C38. The copy of an ingress is not independent: it keeps the array of the original's rules, so rules that are
  written into the copy are the original's rules too. (The generated copy of the same spec is independent:
  its new array is in a new cell.)
\<close>

theorem ingress_copy_shares_rules:
  assumes "g_HTTP (g_ing_Spec i) = Some a" and "in_heap h (fp_ingress_spec h (g_ing_Spec i))"
    and "run_state (ManbaIngress_DeepCopy js (Some i)) h = (Some i', h')"
    and "run_state (ManbaIngressSpec_DeepCopyInto jr (g_ing_Spec i)) h = (sp, h'')"
  shows "(\<exists>b. g_HTTP (g_ing_Spec i') = Some b \<and> (\<forall>rs. spec_HTTP (val_ingress_spec (h'[b := CRules rs]) (g_ing_Spec i)) = rs))
    \<and> (\<forall>c. \<forall>b\<in>fp_ingress_spec h'' sp. val_ingress_spec (h''[b := c]) (g_ing_Spec i) = val_ingress_spec h (g_ing_Spec i))"
proof
  have "i' = i" and "length h' = length h"
    using assms(3) ingress_copy_is_shallow[of js i h]
    by (auto simp: ManbaIngress_DeepCopy_def State_Monad.return_def State_Monad.bind_def split: prod.splits)
  moreover have "a < length h"
    using assms(1,2) by (simp add: fp_ingress_spec_def)
  ultimately show "\<exists>b. g_HTTP (g_ing_Spec i') = Some b \<and> (\<forall>rs. spec_HTTP (val_ingress_spec (h'[b := CRules rs]) (g_ing_Spec i)) = rs)"
    using assms(1) by (auto simp: val_ingress_spec_def rd_rules_def cell_at_def)
qed (use ingress_spec.independent(4)[OF assms(2,4)] in blast)

section \<open>Witnesses\<close>

definition heap_meta :: ObjectMeta where
  "heap_meta = \<lparr>meta_Name = ''c'', meta_Namespace = ''ns'', meta_Annotations = [], meta_Labels = [], meta_CreationTimestamp = 0\<rparr>"

definition sample_heap :: heap where
  "sample_heap = [CPolicy zero_policy, CLabels [(''version'', ''v1'')],
     CSubSets [\<lparr>g_ss_Name = ''v1'', g_ss_Labels = Some 1, g_ss_TrafficPolicy = Some 0\<rparr>],
     CClusters [\<lparr>g_mc_Meta = heap_meta, g_mc_Spec = \<lparr>g_TrafficPolicy = Some 0, g_Subsets = Some 2\<rparr>\<rparr>], CRules []]"

definition heap_ingress :: gIngress where
  "heap_ingress = \<lparr>g_ing_Meta = heap_meta, g_ing_Spec = \<lparr>g_HTTP = Some 4, g_TLS_Hosts = None, g_TLS_SecretName = []\<rparr>, g_ing_Status = None\<rparr>"

lemmas copy_run_defs = copy_slice_def copy_cell_def State_Monad.return_def State_Monad.bind_def cell_at_def sample_heap_def heap_ingress_def

lemma sample_clusters_in_heap: "in_heap sample_heap (fp_clusters sample_heap (Some 3))"
  by (simp add: sample_heap_def fp_clusters_def fp_slice_def fp_cluster_def fp_subset_def rd_clusters_def rd_subsets_def cell_at_def in_heap_def)

lemma heap_ingress_in_heap: "in_heap sample_heap (fp_ingress_spec sample_heap (g_ing_Spec heap_ingress))"
  by (simp add: fp_ingress_spec_def heap_ingress_def sample_heap_def in_heap_def)

lemma heap_ingress_copied: "run_state (ManbaIngress_DeepCopy Some (Some heap_ingress)) sample_heap = (Some heap_ingress, sample_heap)"
  by (simp add: ManbaIngress_DeepCopy_def ManbaIngress_DeepCopyInto_def rd_rules_def copy_run_defs)

theorem ingress_copy_shares_rules_witness:
  "run_state (ManbaIngress_DeepCopy Some (Some heap_ingress)) sample_heap = (Some heap_ingress, sample_heap)
   \<and> (\<exists>b. g_HTTP (g_ing_Spec heap_ingress) = Some b
        \<and> (\<forall>rs. spec_HTTP (val_ingress_spec (sample_heap[b := CRules rs]) (g_ing_Spec heap_ingress)) = rs))"
  using ingress_copy_shares_rules[OF _ heap_ingress_in_heap heap_ingress_copied prod.collapse[symmetric], of 4 id] heap_ingress_copied
  by (simp add: heap_ingress_def)

end
