(* ===== verification/Deep_Copy_Objects.thy ===== *)
theory Deep_Copy_Objects
  imports Deep_Copy_Laws
begin

text \<open>
  The rest of the deep copies: \<open>deepcopy\<close> of \<open>types_deepcopy.go\<close>, which goes through JSON, the structs it copies, the
  \<open>DeepCopy\<close> methods on pointers, and \<open>DeepCopyObject\<close>, through which the API machinery calls them. The JSON library is a
  parameter with the contract \<open>json_roundtrip\<close>; under it the copies are exact.
\<close>

section \<open>Through JSON\<close>

text \<open>
  \<open>js_Unmarshal\<close> decodes into a struct and leaves there what it decoded, also when it fails; \<open>js_nil\<close> are the bytes that
  a failed \<open>js_Marshal\<close> returns.
\<close>

record ('v, 'b) json_codec =
  js_Marshal :: "'v \<Rightarrow> 'b result"
  js_Unmarshal :: "'b \<Rightarrow> 'v \<Rightarrow> 'v \<times> unit result"
  js_nil :: 'b

definition deepcopy :: "('v, 'b) json_codec \<Rightarrow> 'v \<Rightarrow> 'v \<Rightarrow> 'v" where
  "deepcopy J inp out =
     (let b = (case js_Marshal J inp of Ok b \<Rightarrow> b | _ \<Rightarrow> js_nil J) in fst (js_Unmarshal J b out))"

definition zero_routing :: ManbaHTTPRouting where
  "zero_routing = \<lparr>routing_Cluster = \<lparr>rc_Name = [], rc_Subset = [], rc_Port = IntVal 0\<rparr>, routing_Rate = None, routing_Conditions = []\<rparr>"

definition zero_route_match :: ManbaHTTPRouteMatch where
  "zero_route_match = \<lparr>rm_Cookie = [], rm_Query = [], rm_JSONBody = [], rm_Header = [], rm_PathValue = [], rm_FormData = []\<rparr>"

definition zero_route :: ManbaHTTPRoute where
  "zero_route = \<lparr>route_Cluster = \<lparr>rc_Name = [], rc_Subset = [], rc_Port = IntVal 0\<rparr>, route_Rewrite = None, route_AttrName = [], route_Match = None,
     route_Cache = None, route_BatchIndex = 0, route_DefaultValue = None, route_WriteTimeout = 0, route_ReadTimeout = 0\<rparr>"

definition zero_rule :: ManbaHTTPRule where
  "zero_rule = \<lparr>rule_Match = [], rule_Rewrite = None, rule_IPAccessControl = None, rule_Retry = None, rule_DefaultValue = None,
     rule_RenderTemplate = None, rule_AuthFilter = None, rule_TrafficPolicy = None, rule_Route = [], rule_Mirror = [], rule_Split = []\<rparr>"

text \<open>
  The structs that are copied through JSON. A struct decoded into a zero struct gets all its memory from the
  decoder, so the copies of pointers to them are values here; nil stays nil.
\<close>

definition TrafficPolicy_DeepCopyInto :: "(TrafficPolicy, 'b) json_codec \<Rightarrow> TrafficPolicy \<Rightarrow> TrafficPolicy \<Rightarrow> TrafficPolicy" where
  "TrafficPolicy_DeepCopyInto J inp out = deepcopy J inp out"

definition ManbaHTTPRoute_DeepCopyInto :: "(ManbaHTTPRoute, 'b) json_codec \<Rightarrow> ManbaHTTPRoute \<Rightarrow> ManbaHTTPRoute \<Rightarrow> ManbaHTTPRoute" where
  "ManbaHTTPRoute_DeepCopyInto J inp out = deepcopy J inp out"

definition ManbaHTTPRouting_DeepCopyInto :: "(ManbaHTTPRouting, 'b) json_codec \<Rightarrow> ManbaHTTPRouting \<Rightarrow> ManbaHTTPRouting \<Rightarrow> ManbaHTTPRouting" where
  "ManbaHTTPRouting_DeepCopyInto J inp out = deepcopy J inp out"

definition ManbaHTTPRouteMatch_DeepCopyInto ::
    "(ManbaHTTPRouteMatch, 'b) json_codec \<Rightarrow> ManbaHTTPRouteMatch \<Rightarrow> ManbaHTTPRouteMatch \<Rightarrow> ManbaHTTPRouteMatch" where
  "ManbaHTTPRouteMatch_DeepCopyInto J inp out = deepcopy J inp out"

definition ManbaHTTPRoute_DeepCopy :: "(ManbaHTTPRoute, 'b) json_codec \<Rightarrow> ManbaHTTPRoute option \<Rightarrow> ManbaHTTPRoute option" where
  "ManbaHTTPRoute_DeepCopy J inp =
     (case inp of None \<Rightarrow> None | Some x \<Rightarrow> let out = zero_route in Some (ManbaHTTPRoute_DeepCopyInto J x out))"

definition ManbaHTTPRouting_DeepCopy :: "(ManbaHTTPRouting, 'b) json_codec \<Rightarrow> ManbaHTTPRouting option \<Rightarrow> ManbaHTTPRouting option" where
  "ManbaHTTPRouting_DeepCopy J inp =
     (case inp of None \<Rightarrow> None | Some x \<Rightarrow> let out = zero_routing in Some (ManbaHTTPRouting_DeepCopyInto J x out))"

definition ManbaHTTPRouteMatch_DeepCopy :: "(ManbaHTTPRouteMatch, 'b) json_codec \<Rightarrow> ManbaHTTPRouteMatch option \<Rightarrow> ManbaHTTPRouteMatch option" where
  "ManbaHTTPRouteMatch_DeepCopy J inp =
     (case inp of None \<Rightarrow> None | Some x \<Rightarrow> let out = zero_route_match in Some (ManbaHTTPRouteMatch_DeepCopyInto J x out))"

definition ManbaHTTPRule_DeepCopy :: "(ManbaHTTPRule, 'b) json_codec \<Rightarrow> ManbaHTTPRule option \<Rightarrow> ManbaHTTPRule option" where
  "ManbaHTTPRule_DeepCopy J inp =
     (case inp of None \<Rightarrow> None | Some x \<Rightarrow> let out = zero_rule in Some (deepcopy J x out))"

text \<open>Structs without references are assigned.\<close>

definition ManbaHTTPRouteCluster_DeepCopyInto :: "ManbaHTTPRouteCluster \<Rightarrow> ManbaHTTPRouteCluster" where
  "ManbaHTTPRouteCluster_DeepCopyInto inp = (let out = inp in out\<lparr>rc_Port := rc_Port inp\<rparr>)"

definition ManbaHTTPRouteCluster_DeepCopy :: "ManbaHTTPRouteCluster option \<Rightarrow> ManbaHTTPRouteCluster option" where
  "ManbaHTTPRouteCluster_DeepCopy inp = (case inp of None \<Rightarrow> None | Some x \<Rightarrow> Some (ManbaHTTPRouteCluster_DeepCopyInto x))"

text \<open>\<open>ManbaHTTPURIMatch\<close> and \<open>ManbaHTTPURIRewrite\<close> have one field each, a string.\<close>

definition ManbaHTTPURIMatch_DeepCopyInto :: "string \<Rightarrow> string" where
  "ManbaHTTPURIMatch_DeepCopyInto inp = inp"

definition ManbaHTTPURIMatch_DeepCopy :: "string option \<Rightarrow> string option" where
  "ManbaHTTPURIMatch_DeepCopy inp = (case inp of None \<Rightarrow> None | Some x \<Rightarrow> Some (ManbaHTTPURIMatch_DeepCopyInto x))"

definition ManbaHTTPURIRewrite_DeepCopyInto :: "string \<Rightarrow> string" where
  "ManbaHTTPURIRewrite_DeepCopyInto inp = inp"

definition ManbaHTTPURIRewrite_DeepCopy :: "string option \<Rightarrow> string option" where
  "ManbaHTTPURIRewrite_DeepCopy inp = (case inp of None \<Rightarrow> None | Some x \<Rightarrow> Some (ManbaHTTPURIRewrite_DeepCopyInto x))"

section \<open>Pointers and interfaces\<close>

text \<open>
  The \<open>DeepCopy\<close> methods: nil for nil, otherwise the struct that \<open>DeepCopyInto\<close> leaves in a new one. An interface value is
  nil, or holds a pointer, which may itself be nil; \<open>DeepCopyObject\<close> tells the two apart.
\<close>

definition pointer_copy :: "('g \<Rightarrow> (heap, 'g) state) \<Rightarrow> 'g option \<Rightarrow> (heap, 'g option) state" where
  "pointer_copy DeepCopyInto inp =
     (case inp of None \<Rightarrow> State_Monad.return None
      | Some x \<Rightarrow> do { out \<leftarrow> DeepCopyInto x; State_Monad.return (Some out) })"

datatype 'g runtime_Object = NilObject | Holds "'g option"

definition object_copy :: "('g option \<Rightarrow> (heap, 'g option) state) \<Rightarrow> 'g option \<Rightarrow> (heap, 'g runtime_Object) state" where
  "object_copy DeepCopy inp = do {
     c \<leftarrow> DeepCopy inp;
     State_Monad.return (if c \<noteq> None then Holds c else NilObject) }"

text \<open>A list is its items; the metadata of lists are values of the API machinery.\<close>

type_synonym gList = "addr option"

definition ManbaCluster_DeepCopyObject :: "(TrafficPolicy \<Rightarrow> TrafficPolicy) \<Rightarrow> gCluster option \<Rightarrow> (heap, gCluster runtime_Object) state" where
  "ManbaCluster_DeepCopyObject jc = object_copy (ManbaCluster_DeepCopy jc)"

definition ManbaClusterList_DeepCopy :: "(TrafficPolicy \<Rightarrow> TrafficPolicy) \<Rightarrow> gList option \<Rightarrow> (heap, gList option) state" where
  "ManbaClusterList_DeepCopy jc = pointer_copy (ManbaClusterList_DeepCopyInto jc)"

definition ManbaClusterList_DeepCopyObject :: "(TrafficPolicy \<Rightarrow> TrafficPolicy) \<Rightarrow> gList option \<Rightarrow> (heap, gList runtime_Object) state" where
  "ManbaClusterList_DeepCopyObject jc = object_copy (ManbaClusterList_DeepCopy jc)"

definition ManbaClusterSpec_DeepCopy :: "(TrafficPolicy \<Rightarrow> TrafficPolicy) \<Rightarrow> gClusterSpec option \<Rightarrow> (heap, gClusterSpec option) state" where
  "ManbaClusterSpec_DeepCopy jc = pointer_copy (ManbaClusterSpec_DeepCopyInto jc)"

definition ManbaClusterSubSet_DeepCopy :: "(TrafficPolicy \<Rightarrow> TrafficPolicy) \<Rightarrow> gSubSet option \<Rightarrow> (heap, gSubSet option) state" where
  "ManbaClusterSubSet_DeepCopy jc = pointer_copy (ManbaClusterSubSet_DeepCopyInto jc)"

definition ManbaHTTPMatch_DeepCopy :: "gMatch option \<Rightarrow> (heap, gMatch option) state" where
  "ManbaHTTPMatch_DeepCopy = pointer_copy ManbaHTTPMatch_DeepCopyInto"

definition ManbaHTTPMatchRule_DeepCopy :: "gMatchRule option \<Rightarrow> (heap, gMatchRule option) state" where
  "ManbaHTTPMatchRule_DeepCopy = pointer_copy ManbaHTTPMatchRule_DeepCopyInto"

definition ManbaIngressSpec_DeepCopy :: "(ManbaHTTPRule \<Rightarrow> ManbaHTTPRule) \<Rightarrow> gIngressSpec option \<Rightarrow> (heap, gIngressSpec option) state" where
  "ManbaIngressSpec_DeepCopy jr = pointer_copy (ManbaIngressSpec_DeepCopyInto jr)"

type_synonym spec_json = "ManbaHTTPRule list \<times> string list \<Rightarrow> (ManbaHTTPRule list \<times> string list) option"

definition ManbaIngress_DeepCopyObject :: "spec_json \<Rightarrow> gIngress option \<Rightarrow> (heap, gIngress runtime_Object) state" where
  "ManbaIngress_DeepCopyObject js = object_copy (ManbaIngress_DeepCopy js)"

definition ManbaIngressList_DeepCopy :: "spec_json \<Rightarrow> gList option \<Rightarrow> (heap, gList option) state" where
  "ManbaIngressList_DeepCopy js = pointer_copy (ManbaIngressList_DeepCopyInto js)"

definition ManbaIngressList_DeepCopyObject :: "spec_json \<Rightarrow> gList option \<Rightarrow> (heap, gList runtime_Object) state" where
  "ManbaIngressList_DeepCopyObject js = object_copy (ManbaIngressList_DeepCopy js)"

section \<open>Laws\<close>

text \<open>What JSON promises: decoding what was encoded, into a zero struct, gives the struct back.\<close>

locale json_roundtrip =
  fixes J :: "('v, 'b) json_codec" and zero :: 'v
  assumes encodes: "is_Ok (js_Marshal J x)" and decodes: "js_Marshal J x = Ok b \<Longrightarrow> fst (js_Unmarshal J b zero) = x"
begin

lemma deepcopy_exact: "deepcopy J x zero = x"
  using encodes[of x] decodes[of x] by (cases "js_Marshal J x") (auto simp: deepcopy_def)

end

lemma ManbaHTTPRoute_DeepCopy_exact: "json_roundtrip J zero_route \<Longrightarrow> ManbaHTTPRoute_DeepCopy J inp = inp"
  by (simp add: ManbaHTTPRoute_DeepCopy_def ManbaHTTPRoute_DeepCopyInto_def json_roundtrip.deepcopy_exact split: option.splits)

lemma ManbaHTTPRouting_DeepCopy_exact: "json_roundtrip J zero_routing \<Longrightarrow> ManbaHTTPRouting_DeepCopy J inp = inp"
  by (simp add: ManbaHTTPRouting_DeepCopy_def ManbaHTTPRouting_DeepCopyInto_def json_roundtrip.deepcopy_exact split: option.splits)

lemma ManbaHTTPRouteMatch_DeepCopy_exact: "json_roundtrip J zero_route_match \<Longrightarrow> ManbaHTTPRouteMatch_DeepCopy J inp = inp"
  by (simp add: ManbaHTTPRouteMatch_DeepCopy_def ManbaHTTPRouteMatch_DeepCopyInto_def json_roundtrip.deepcopy_exact split: option.splits)

lemma ManbaHTTPRule_DeepCopy_exact: "json_roundtrip J zero_rule \<Longrightarrow> ManbaHTTPRule_DeepCopy J inp = inp"
  by (simp add: ManbaHTTPRule_DeepCopy_def json_roundtrip.deepcopy_exact split: option.splits)

text \<open>A pointer to a copied struct is copied, and so is an interface that holds one.\<close>

context deep_copier
begin

lemma pointer_copier:
  "deep_copier (\<lambda>h. map_option (val h)) (\<lambda>h p. \<Union> (fp h ` set_option p)) (pointer_copy copy) (map_option j)"
proof unfold_locales
  fix h h' p
  assume "agree h h' (\<Union> (fp h ` set_option p))"
  then show "map_option (val h') p = map_option (val h) p" "\<Union> (fp h' ` set_option p) = \<Union> (fp h ` set_option p)"
    by (cases p; simp add: val_agree fp_agree)+
next
  fix h p
  assume "in_heap h (\<Union> (fp h ` set_option p))"
  then show "\<exists>e p'. run_state (pointer_copy copy p) h = (p', h @ e) \<and> map_option (val (h @ e)) p' = map_option j (map_option (val h) p)
      \<and> \<Union> (fp (h @ e) ` set_option p') \<subseteq> {length h..<length h + length e}"
    using copy[of h "the p"]
    by (cases p) (auto simp: pointer_copy_def State_Monad.return_def State_Monad.bind_def)
qed

lemma object_copied:
  assumes "in_heap h (\<Union> (fp h ` set_option p))" and "run_state (object_copy (pointer_copy copy) p) h = (ob, h')"
  shows "p = None \<Longrightarrow> ob = NilObject" and "p = Some g \<Longrightarrow> \<exists>g'. ob = Holds (Some g') \<and> run_state (copy g) h = (g', h')"
  using assms by (auto simp: object_copy_def pointer_copy_def State_Monad.return_def State_Monad.bind_def split: prod.splits)

end

interpretation cluster_list_pointer: deep_copier "\<lambda>h. map_option (val_clusters h)" "\<lambda>h p. \<Union> (fp_clusters h ` set_option p)"
    "ManbaClusterList_DeepCopy jc" "map_option (map (json_cluster jc))" for jc
  unfolding ManbaClusterList_DeepCopy_def by (rule cluster_list.pointer_copier)

interpretation subset_pointer: deep_copier "\<lambda>h. map_option (val_subset h)" "\<lambda>h p. \<Union> (fp_subset h ` set_option p)"
    "ManbaClusterSubSet_DeepCopy jc" "map_option (json_subset jc)" for jc
  unfolding ManbaClusterSubSet_DeepCopy_def by (rule deep_copier.pointer_copier[OF subset_copier])

interpretation match_pointer: deep_copier "\<lambda>h. map_option (val_match h)" "\<lambda>h p. \<Union> (fp_match h ` set_option p)"
    ManbaHTTPMatch_DeepCopy "map_option id"
  unfolding ManbaHTTPMatch_DeepCopy_def by (rule match_copy.pointer_copier)

interpretation match_rule_pointer: deep_copier "\<lambda>h. map_option (val_match_rule h)" "\<lambda>h p. \<Union> (fp_match_rule h ` set_option p)"
    ManbaHTTPMatchRule_DeepCopy "map_option id"
  unfolding ManbaHTTPMatchRule_DeepCopy_def by (rule deep_copier.pointer_copier[OF match_rule_copier])

interpretation ingress_spec_pointer: deep_copier "\<lambda>h. map_option (val_ingress_spec h)" "\<lambda>h p. \<Union> (fp_ingress_spec h ` set_option p)"
    "ManbaIngressSpec_DeepCopy jr" "map_option (json_ingress_spec jr)" for jr
  unfolding ManbaIngressSpec_DeepCopy_def by (rule ingress_spec.pointer_copier)

lemma json_cluster_exact: "(\<And>p. jc p = p) \<Longrightarrow> json_cluster jc c = c"
proof -
  assume "\<And>p. jc p = p"
  then have "jc = id" by auto
  then show ?thesis by (simp add: json_cluster_def json_subset_def[abs_def] option.map_id0 list.map_id0)
qed

text \<open>
  C26. The API machinery gets exact and independent copies of lists of clusters: for a nil pointer the interface is
  nil, not one that holds nil; otherwise it holds a list with the same clusters, and whatever is written
  afterwards into a cell that the one list reaches leaves the other as it was. The JSON library gives back
  what it encoded.
\<close>

theorem cluster_list_objects_independent:
  assumes "json_roundtrip J zero_policy" and "in_heap h (\<Union> (fp_clusters h ` set_option p))"
    and "run_state (ManbaClusterList_DeepCopyObject (\<lambda>x. TrafficPolicy_DeepCopyInto J x zero_policy) p) h = (ob, h')"
  shows "case p of
      None \<Rightarrow> ob = NilObject \<and> h' = h
    | Some items \<Rightarrow> \<exists>items'. ob = Holds (Some items') \<and> val_clusters h' items' = val_clusters h items \<and> val_clusters h' items = val_clusters h items
        \<and> (\<forall>c. \<forall>a\<in>fp_clusters h' items'. val_clusters (h'[a := c]) items = val_clusters h items)
        \<and> (\<forall>c. \<forall>a\<in>fp_clusters h' items. val_clusters (h'[a := c]) items' = val_clusters h items)"
proof -
  let ?jc = "\<lambda>x. TrafficPolicy_DeepCopyInto J x zero_policy"
  have id: "map (json_cluster ?jc) cs = cs" for cs
    by (simp add: json_cluster_exact TrafficPolicy_DeepCopyInto_def json_roundtrip.deepcopy_exact[OF assms(1)] map_idI)
  note obj = cluster_list.object_copied[OF assms(2), of ?jc ob h']
  show ?thesis
  proof (cases p)
    case None
    then show ?thesis
      using assms(3) by (simp add: ManbaClusterList_DeepCopyObject_def ManbaClusterList_DeepCopy_def object_copy_def pointer_copy_def
        State_Monad.return_def State_Monad.bind_def)
  next
    case (Some items)
    then obtain items' where new: "ob = Holds (Some items')" "run_state (ManbaClusterList_DeepCopyInto ?jc items) h = (items', h')"
      using obj assms(3) by (auto simp: ManbaClusterList_DeepCopyObject_def ManbaClusterList_DeepCopy_def)
    have "in_heap h (fp_clusters h items)" using assms(2) Some by simp
    from cluster_list.independent[OF this new(2)] new(1) Some show ?thesis by (simp add: id)
  qed
qed

section \<open>A witness\<close>

definition ref_codec :: "('v, 'v option) json_codec" where
  "ref_codec = \<lparr>js_Marshal = (\<lambda>v. Ok (Some v)), js_Unmarshal = (\<lambda>b out. case b of Some v \<Rightarrow> (v, Ok ()) | None \<Rightarrow> (out, Err (NewError ''unexpected end of JSON input''))),
     js_nil = None\<rparr>"

interpretation ref_codec: json_roundtrip ref_codec zero for zero
  by unfold_locales (auto simp: ref_codec_def)

theorem cluster_list_objects_independent_witness:
  "let (ob, h') = run_state (ManbaClusterList_DeepCopyObject (\<lambda>x. TrafficPolicy_DeepCopyInto ref_codec x zero_policy) (Some (Some 3))) sample_heap in
   \<exists>items'. ob = Holds (Some items') \<and> val_clusters h' items' = val_clusters sample_heap (Some 3) \<and> length (val_clusters sample_heap (Some 3)) = 1
   \<and> (\<forall>c. \<forall>a\<in>fp_clusters h' items'. val_clusters (h'[a := c]) (Some 3) = val_clusters sample_heap (Some 3))"
proof -
  have "in_heap sample_heap (\<Union> (fp_clusters sample_heap ` set_option (Some (Some 3))))" using sample_clusters_in_heap by simp
  moreover have "length (val_clusters sample_heap (Some 3)) = 1" by (simp add: val_clusters_def rd_clusters_def cell_at_def sample_heap_def)
  ultimately show ?thesis
    using cluster_list_objects_independent[OF ref_codec.json_roundtrip_axioms _ prod.collapse[symmetric], of sample_heap "Some (Some 3)"]
    by (auto simp: case_prod_beta)
qed

end
