(* ===== verification/Clientset.thy ===== *)
theory Clientset
  imports Admission "HOL-Library.Multiset"
begin

text \<open>
  The generated clients of the custom resources (\<open>pkg/client/clientset/versioned\<close>): the typed client builds requests
  for the REST client, the fake client builds actions for an object tracker. The REST client with the API server
  behind it and the tracker are parameters, with the locales \<open>api_server\<close> and \<open>object_tracker\<close> for what they
  document. The two kinds of resources share their code up to the type and the name of the resource, so each
  operation is defined once and instantiated for both.
\<close>

section \<open>Requests\<close>

record ListOptions =
  lo_LabelSelector :: string
  lo_TimeoutSeconds :: "int option"
  lo_Watch :: bool

text \<open>Of the options of \<open>Get\<close> only the resource version matters; empty asks for the latest.\<close>

datatype rest_Params = NoParams | GetParams string | ListParams ListOptions

datatype rest_verb = GET | POST | PUT | DELETE | PATCH string

datatype 'o rest_body = NoBody | ObjectBody 'o | OptionsBody | PatchBody string

record 'o rest_Request =
  rq_Verb :: rest_verb
  rq_Namespace :: string
  rq_Resource :: string
  rq_SubResource :: "string list"
  rq_Name :: "string option"
  rq_Params :: rest_Params
  rq_Timeout :: int
  rq_Body :: "'o rest_body"

text \<open>The builder starts with a verb, and the calls of the chain set one part each.\<close>

definition Request :: "rest_verb \<Rightarrow> string \<Rightarrow> string \<Rightarrow> 'o rest_Request" where
  "Request verb ns resource = \<lparr>rq_Verb = verb, rq_Namespace = ns, rq_Resource = resource, rq_SubResource = [], rq_Name = None, rq_Params = NoParams,
     rq_Timeout = 0, rq_Body = NoBody\<rparr>"

text \<open>A watch is a handle of the library.\<close>

datatype 'o rest_Response = RObject 'o | RList "'o list" | RStatus | RWatch nat

type_synonym ('o, 's) rest_client = "'o rest_Request \<Rightarrow> 's \<Rightarrow> 'o rest_Response result \<times> 's"

fun into_object :: "'o rest_Response result \<Rightarrow> 'o result" where
  "into_object (Ok (RObject x)) = Ok x"
| "into_object (Ok _) = Err (NewError ''cannot decode response'')"
| "into_object (Err e) = Err e"
| "into_object (Panic m) = Panic m"

fun into_list :: "'o rest_Response result \<Rightarrow> 'o list result" where
  "into_list (Ok (RList xs)) = Ok xs"
| "into_list (Ok _) = Err (NewError ''cannot decode response'')"
| "into_list (Err e) = Err e"
| "into_list (Panic m) = Panic m"

fun into_error :: "'o rest_Response result \<Rightarrow> unit result" where
  "into_error (Ok _) = Ok ()"
| "into_error (Err e) = Err e"
| "into_error (Panic m) = Panic m"

fun into_watch :: "'o rest_Response result \<Rightarrow> nat result" where
  "into_watch (Ok (RWatch w)) = Ok w"
| "into_watch (Ok _) = Err (NewError ''cannot decode response'')"
| "into_watch (Err e) = Err e"
| "into_watch (Panic m) = Panic m"

section \<open>The typed client\<close>

definition list_timeout :: "ListOptions \<Rightarrow> int" where
  "list_timeout opts = (case lo_TimeoutSeconds opts of Some t \<Rightarrow> t * 10 ^ 9 | None \<Rightarrow> 0)"

definition client_Get :: "string \<Rightarrow> ('o, 's) rest_client \<Rightarrow> string \<Rightarrow> string \<Rightarrow> string \<Rightarrow> 's \<Rightarrow> 'o result \<times> 's" where
  "client_Get res rest ns name options s =
     map_prod into_object id (rest ((Request GET ns res)\<lparr>rq_Name := Some name, rq_Params := GetParams options\<rparr>) s)"

definition client_List :: "string \<Rightarrow> ('o, 's) rest_client \<Rightarrow> string \<Rightarrow> ListOptions \<Rightarrow> 's \<Rightarrow> 'o list result \<times> 's" where
  "client_List res rest ns opts s =
     map_prod into_list id (rest ((Request GET ns res)\<lparr>rq_Params := ListParams opts, rq_Timeout := list_timeout opts\<rparr>) s)"

definition client_Watch :: "string \<Rightarrow> ('o, 's) rest_client \<Rightarrow> string \<Rightarrow> ListOptions \<Rightarrow> 's \<Rightarrow> nat result \<times> 's" where
  "client_Watch res rest ns opts s =
     (let timeout = list_timeout opts; opts = opts\<lparr>lo_Watch := True\<rparr>
      in map_prod into_watch id (rest ((Request GET ns res)\<lparr>rq_Params := ListParams opts, rq_Timeout := timeout\<rparr>) s))"

definition client_Create :: "string \<Rightarrow> ('o, 's) rest_client \<Rightarrow> string \<Rightarrow> 'o \<Rightarrow> 's \<Rightarrow> 'o result \<times> 's" where
  "client_Create res rest ns obj s = map_prod into_object id (rest ((Request POST ns res)\<lparr>rq_Body := ObjectBody obj\<rparr>) s)"

definition client_Update :: "string \<Rightarrow> ('o \<Rightarrow> ObjectMeta) \<Rightarrow> ('o, 's) rest_client \<Rightarrow> string \<Rightarrow> 'o \<Rightarrow> 's \<Rightarrow> 'o result \<times> 's" where
  "client_Update res om rest ns obj s =
     map_prod into_object id (rest ((Request PUT ns res)\<lparr>rq_Name := Some (meta_Name (om obj)), rq_Body := ObjectBody obj\<rparr>) s)"

definition client_Delete :: "string \<Rightarrow> ('o, 's) rest_client \<Rightarrow> string \<Rightarrow> string \<Rightarrow> 's \<Rightarrow> unit result \<times> 's" where
  "client_Delete res rest ns name s =
     map_prod into_error id (rest ((Request DELETE ns res)\<lparr>rq_Name := Some name, rq_Body := OptionsBody\<rparr>) s)"

definition client_DeleteCollection :: "string \<Rightarrow> ('o, 's) rest_client \<Rightarrow> string \<Rightarrow> ListOptions \<Rightarrow> 's \<Rightarrow> unit result \<times> 's" where
  "client_DeleteCollection res rest ns listOptions s =
     map_prod into_error id
       (rest ((Request DELETE ns res)\<lparr>rq_Params := ListParams listOptions, rq_Timeout := list_timeout listOptions, rq_Body := OptionsBody\<rparr>) s)"

definition client_Patch :: "string \<Rightarrow> ('o, 's) rest_client \<Rightarrow> string \<Rightarrow> string \<Rightarrow> string \<Rightarrow> string \<Rightarrow> string list \<Rightarrow> 's \<Rightarrow> 'o result \<times> 's" where
  "client_Patch res rest ns name pt data subresources s =
     map_prod into_object id
       (rest ((Request (PATCH pt) ns res)\<lparr>rq_SubResource := subresources, rq_Name := Some name, rq_Body := PatchBody data\<rparr>) s)"

text \<open>The methods of the interface, and the client of a kind as the function that performs them.\<close>

datatype 'o client_op =
    OGet string string
  | OList ListOptions
  | OWatch ListOptions
  | OCreate 'o
  | OUpdate 'o
  | ODelete string
  | ODeleteCollection ListOptions
  | OPatch string string string "string list"

datatype 'o op_result = ResObject 'o | ResList "'o list" | ResDone | ResWatch nat | ResErr go_error | ResPanic string

fun res_object :: "'o result \<Rightarrow> 'o op_result" where
  "res_object (Ok x) = ResObject x"
| "res_object (Err e) = ResErr e"
| "res_object (Panic m) = ResPanic m"

fun res_list :: "'o list result \<Rightarrow> 'o op_result" where
  "res_list (Ok xs) = ResList xs"
| "res_list (Err e) = ResErr e"
| "res_list (Panic m) = ResPanic m"

fun res_done :: "unit result \<Rightarrow> 'o op_result" where
  "res_done (Ok _) = ResDone"
| "res_done (Err e) = ResErr e"
| "res_done (Panic m) = ResPanic m"

fun res_watch :: "nat result \<Rightarrow> 'o op_result" where
  "res_watch (Ok w) = ResWatch w"
| "res_watch (Err e) = ResErr e"
| "res_watch (Panic m) = ResPanic m"

fun client :: "string \<Rightarrow> ('o \<Rightarrow> ObjectMeta) \<Rightarrow> ('o, 's) rest_client \<Rightarrow> string \<Rightarrow> 'o client_op \<Rightarrow> 's \<Rightarrow> 'o op_result \<times> 's" where
  "client res om rest ns (OGet name options) s = map_prod res_object id (client_Get res rest ns name options s)"
| "client res om rest ns (OList opts) s = map_prod res_list id (client_List res rest ns opts s)"
| "client res om rest ns (OWatch opts) s = map_prod res_watch id (client_Watch res rest ns opts s)"
| "client res om rest ns (OCreate obj) s = map_prod res_object id (client_Create res rest ns obj s)"
| "client res om rest ns (OUpdate obj) s = map_prod res_object id (client_Update res om rest ns obj s)"
| "client res om rest ns (ODelete name) s = map_prod res_done id (client_Delete res rest ns name s)"
| "client res om rest ns (ODeleteCollection opts) s = map_prod res_done id (client_DeleteCollection res rest ns opts s)"
| "client res om rest ns (OPatch name pt data subs) s = map_prod res_object id (client_Patch res rest ns name pt data subs s)"

definition ManbaIngresses_client :: "(ManbaIngress, 's) rest_client \<Rightarrow> string \<Rightarrow> ManbaIngress client_op \<Rightarrow> 's \<Rightarrow> ManbaIngress op_result \<times> 's" where
  "ManbaIngresses_client = client ''manbaingresses'' ing_Meta"

definition ManbaClusters_client :: "(ManbaCluster, 's) rest_client \<Rightarrow> string \<Rightarrow> ManbaCluster client_op \<Rightarrow> 's \<Rightarrow> ManbaCluster op_result \<times> 's" where
  "ManbaClusters_client = client ''manbaclusters'' mc_Meta"

section \<open>The fake client\<close>

datatype 'o fake_action =
    GetAction string string string
  | ListAction string string ListOptions
  | WatchAction string string ListOptions
  | CreateAction string string 'o
  | UpdateAction string string 'o
  | DeleteAction string string string
  | DeleteCollectionAction string string ListOptions
  | PatchAction string string string string string "string list"

datatype 'o fake_ret = FObject 'o | FList "'o list" | FWatch nat

text \<open>\<open>Invokes\<close> (and \<open>InvokesWatch\<close> for watches) returns an object, which may be nil, and an error.\<close>

type_synonym ('o, 's) fake = "'o fake_action \<Rightarrow> 's \<Rightarrow> ('o fake_ret option \<times> go_error option) \<times> 's"

fun fake_object :: "'o fake_ret option \<times> go_error option \<Rightarrow> 'o result" where
  "fake_object (None, None) = Panic ''nil object without an error''"
| "fake_object (None, Some e) = Err e"
| "fake_object (Some (FObject x), None) = Ok x"
| "fake_object (Some (FObject x), Some e) = Err e"
| "fake_object (Some _, e) = Panic ''interface conversion''"

fun fake_watch :: "'o fake_ret option \<times> go_error option \<Rightarrow> nat result" where
  "fake_watch (Some (FWatch w), None) = Ok w"
| "fake_watch (_, Some e) = Err e"
| "fake_watch _ = Panic ''interface conversion''"

fun fake_error :: "'o fake_ret option \<times> go_error option \<Rightarrow> unit result" where
  "fake_error (x, None) = Ok ()"
| "fake_error (x, Some e) = Err e"

definition fake_Get :: "string \<Rightarrow> ('o, 's) fake \<Rightarrow> string \<Rightarrow> string \<Rightarrow> 's \<Rightarrow> 'o result \<times> 's" where
  "fake_Get res Invokes ns name s = map_prod fake_object id (Invokes (GetAction res ns name) s)"

text \<open>
  \<open>List\<close> filters by the labels itself. \<open>selector\<close> is \<open>testing.ExtractFromListOptions\<close>, whose nil selector is replaced
  by the one that matches everything.
\<close>

fun fake_list :: "(string \<Rightarrow> ((string \<times> string) list \<Rightarrow> bool) option) \<Rightarrow> ('o \<Rightarrow> ObjectMeta) \<Rightarrow> ListOptions \<Rightarrow> 'o fake_ret option \<times> go_error option \<Rightarrow> 'o list result" where
  "fake_list selector om opts (None, None) = Panic ''nil object without an error''"
| "fake_list selector om opts (None, Some e) = Err e"
| "fake_list selector om opts (Some (FList xs), Some e) = Err e"
| "fake_list selector om opts (Some (FList xs), None) =
     (let label = (case selector (lo_LabelSelector opts) of None \<Rightarrow> (\<lambda>_. True) | Some l \<Rightarrow> l)
      in Ok (filter (\<lambda>item. label (meta_Labels (om item))) xs))"
| "fake_list selector om opts (Some _, e) = Panic ''interface conversion''"

definition fake_List ::
    "string \<Rightarrow> (string \<Rightarrow> ((string \<times> string) list \<Rightarrow> bool) option) \<Rightarrow> ('o \<Rightarrow> ObjectMeta) \<Rightarrow> ('o, 's) fake \<Rightarrow> string \<Rightarrow> ListOptions \<Rightarrow> 's \<Rightarrow> 'o list result \<times> 's" where
  "fake_List res selector om Invokes ns opts s = map_prod (fake_list selector om opts) id (Invokes (ListAction res ns opts) s)"

definition fake_Watch :: "string \<Rightarrow> ('o, 's) fake \<Rightarrow> string \<Rightarrow> ListOptions \<Rightarrow> 's \<Rightarrow> nat result \<times> 's" where
  "fake_Watch res Invokes ns opts s = map_prod fake_watch id (Invokes (WatchAction res ns opts) s)"

definition fake_Create :: "string \<Rightarrow> ('o, 's) fake \<Rightarrow> string \<Rightarrow> 'o \<Rightarrow> 's \<Rightarrow> 'o result \<times> 's" where
  "fake_Create res Invokes ns obj s = map_prod fake_object id (Invokes (CreateAction res ns obj) s)"

definition fake_Update :: "string \<Rightarrow> ('o, 's) fake \<Rightarrow> string \<Rightarrow> 'o \<Rightarrow> 's \<Rightarrow> 'o result \<times> 's" where
  "fake_Update res Invokes ns obj s = map_prod fake_object id (Invokes (UpdateAction res ns obj) s)"

definition fake_Delete :: "string \<Rightarrow> ('o, 's) fake \<Rightarrow> string \<Rightarrow> string \<Rightarrow> 's \<Rightarrow> unit result \<times> 's" where
  "fake_Delete res Invokes ns name s = map_prod fake_error id (Invokes (DeleteAction res ns name) s)"

definition fake_DeleteCollection :: "string \<Rightarrow> ('o, 's) fake \<Rightarrow> string \<Rightarrow> ListOptions \<Rightarrow> 's \<Rightarrow> unit result \<times> 's" where
  "fake_DeleteCollection res Invokes ns listOptions s = map_prod fake_error id (Invokes (DeleteCollectionAction res ns listOptions) s)"

definition fake_Patch :: "string \<Rightarrow> ('o, 's) fake \<Rightarrow> string \<Rightarrow> string \<Rightarrow> string \<Rightarrow> string \<Rightarrow> string list \<Rightarrow> 's \<Rightarrow> 'o result \<times> 's" where
  "fake_Patch res Invokes ns name pt data subresources s =
     map_prod fake_object id (Invokes (PatchAction res ns name pt data subresources) s)"


fun fake_client ::
    "string \<Rightarrow> (string \<Rightarrow> ((string \<times> string) list \<Rightarrow> bool) option) \<Rightarrow> ('o \<Rightarrow> ObjectMeta) \<Rightarrow> ('o, 's) fake \<Rightarrow> string \<Rightarrow> 'o client_op \<Rightarrow> 's \<Rightarrow> 'o op_result \<times> 's" where
  "fake_client res selector om Invokes ns (OGet name options) s = map_prod res_object id (fake_Get res Invokes ns name s)"
| "fake_client res selector om Invokes ns (OList opts) s = map_prod res_list id (fake_List res selector om Invokes ns opts s)"
| "fake_client res selector om Invokes ns (OWatch opts) s = map_prod res_watch id (fake_Watch res Invokes ns opts s)"
| "fake_client res selector om Invokes ns (OCreate obj) s = map_prod res_object id (fake_Create res Invokes ns obj s)"
| "fake_client res selector om Invokes ns (OUpdate obj) s = map_prod res_object id (fake_Update res Invokes ns obj s)"
| "fake_client res selector om Invokes ns (ODelete name) s = map_prod res_done id (fake_Delete res Invokes ns name s)"
| "fake_client res selector om Invokes ns (ODeleteCollection opts) s = map_prod res_done id (fake_DeleteCollection res Invokes ns opts s)"
| "fake_client res selector om Invokes ns (OPatch name pt data subs) s = map_prod res_object id (fake_Patch res Invokes ns name pt data subs s)"

definition FakeManbaIngresses ::
    "(string \<Rightarrow> ((string \<times> string) list \<Rightarrow> bool) option) \<Rightarrow> (ManbaIngress, 's) fake \<Rightarrow> string \<Rightarrow> ManbaIngress client_op \<Rightarrow> 's \<Rightarrow> ManbaIngress op_result \<times> 's" where
  "FakeManbaIngresses selector = fake_client ''manbaingresses'' selector ing_Meta"

definition FakeManbaClusters ::
    "(string \<Rightarrow> ((string \<times> string) list \<Rightarrow> bool) option) \<Rightarrow> (ManbaCluster, 's) fake \<Rightarrow> string \<Rightarrow> ManbaCluster client_op \<Rightarrow> 's \<Rightarrow> ManbaCluster op_result \<times> 's" where
  "FakeManbaClusters selector = fake_client ''manbaclusters'' selector mc_Meta"

section \<open>What the server and the tracker document\<close>

text \<open>The objects of one resource by namespace and name; an empty namespace lists all of them.\<close>

type_synonym 'o objects_view = "string \<times> string \<rightharpoonup> 'o"

definition keys_in :: "string \<Rightarrow> 'o objects_view \<Rightarrow> (string \<times> string) set" where
  "keys_in ns objs = {k \<in> dom objs. ns = [] \<or> fst k = ns}"

text \<open>A list of the objects under some keys, in any order.\<close>

definition lists_objects :: "'o objects_view \<Rightarrow> (string \<times> string) set \<Rightarrow> 'o list \<Rightarrow> bool" where
  "lists_objects objs K xs \<longleftrightarrow> (\<exists>ks. distinct ks \<and> set ks = K \<and> xs = map (\<lambda>k. the (objs k)) ks)"

definition selected :: "('o \<Rightarrow> ObjectMeta) \<Rightarrow> ((string \<times> string) list \<Rightarrow> bool) \<Rightarrow> 'o objects_view \<Rightarrow> (string \<times> string) set" where
  "selected om l objs = {k. l (meta_Labels (om (the (objs k))))}"

lemma lists_objects_filter: "lists_objects m K xs \<Longrightarrow> lists_objects m (K \<inter> selected om l m) (filter (\<lambda>x. l (meta_Labels (om x))) xs)"
proof -
  assume "lists_objects m K xs"
  then obtain ks where "distinct ks" "set ks = K" "xs = map (\<lambda>k. the (m k)) ks"
    by (auto simp: lists_objects_def)
  then show ?thesis
    unfolding lists_objects_def
    by (intro exI[of _ "filter (\<lambda>k. l (meta_Labels (om (the (m k))))) ks"]) (auto simp: filter_map o_def selected_def)
qed

lemma lists_objects_mset: "\<lbrakk>lists_objects m K xs; lists_objects m K ys\<rbrakk> \<Longrightarrow> mset xs = mset ys"
  unfolding lists_objects_def by (metis mset_map set_eq_iff_mset_eq_distinct)

locale api_server =
  fixes res :: string and om :: "'o \<Rightarrow> ObjectMeta" and selector :: "string \<Rightarrow> ((string \<times> string) list \<Rightarrow> bool) option"
    and exists_err :: "string \<Rightarrow> go_error" and rest :: "('o, 's) rest_client" and objs :: "'s \<Rightarrow> 'o objects_view"
  assumes srv_get: "rest ((Request GET ns res)\<lparr>rq_Name := Some name, rq_Params := GetParams []\<rparr>) s =
      ((case objs s (ns, name) of Some x \<Rightarrow> Ok (RObject x) | None \<Rightarrow> Err (StatusNotFound res name)), s)"
    and srv_list: "selector (lo_LabelSelector opts) = Some l \<Longrightarrow>
      \<exists>xs. rest ((Request GET ns res)\<lparr>rq_Params := ListParams opts, rq_Timeout := list_timeout opts\<rparr>) s = (Ok (RList xs), s)
        \<and> lists_objects (objs s) (keys_in ns (objs s) \<inter> selected om l (objs s)) xs"
    and srv_create: "rest ((Request POST ns res)\<lparr>rq_Body := ObjectBody x\<rparr>) s = (r, s') \<Longrightarrow>
      (if objs s (ns, meta_Name (om x)) = None then r = Ok (RObject x) \<and> objs s' = (objs s)((ns, meta_Name (om x)) \<mapsto> x)
       else r = Err (exists_err (meta_Name (om x))) \<and> objs s' = objs s)"
    and srv_update: "rest ((Request PUT ns res)\<lparr>rq_Name := Some (meta_Name (om x)), rq_Body := ObjectBody x\<rparr>) s = (r, s') \<Longrightarrow>
      (if objs s (ns, meta_Name (om x)) = None then r = Err (StatusNotFound res (meta_Name (om x))) \<and> objs s' = objs s
       else r = Ok (RObject x) \<and> objs s' = (objs s)((ns, meta_Name (om x)) \<mapsto> x))"
    and srv_delete: "rest ((Request DELETE ns res)\<lparr>rq_Name := Some name, rq_Body := OptionsBody\<rparr>) s = (r, s') \<Longrightarrow>
      (if objs s (ns, name) = None then r = Err (StatusNotFound res name) \<and> objs s' = objs s
       else r = Ok RStatus \<and> objs s' = (objs s)((ns, name) := None))"

text \<open>The tracker hands out all objects of a namespace, without looking at labels.\<close>

locale object_tracker =
  fixes res :: string and om :: "'o \<Rightarrow> ObjectMeta" and exists_err :: "string \<Rightarrow> go_error" and Invokes :: "('o, 's) fake" and objs :: "'s \<Rightarrow> 'o objects_view"
  assumes trk_get: "Invokes (GetAction res ns name) s =
      ((case objs s (ns, name) of Some x \<Rightarrow> (Some (FObject x), None) | None \<Rightarrow> (None, Some (StatusNotFound res name))), s)"
    and trk_list: "\<exists>xs. Invokes (ListAction res ns opts) s = ((Some (FList xs), None), s) \<and> lists_objects (objs s) (keys_in ns (objs s)) xs"
    and trk_create: "Invokes (CreateAction res ns x) s = (r, s') \<Longrightarrow>
      (if objs s (ns, meta_Name (om x)) = None then r = (Some (FObject x), None) \<and> objs s' = (objs s)((ns, meta_Name (om x)) \<mapsto> x)
       else r = (None, Some (exists_err (meta_Name (om x)))) \<and> objs s' = objs s)"
    and trk_update: "Invokes (UpdateAction res ns x) s = (r, s') \<Longrightarrow>
      (if objs s (ns, meta_Name (om x)) = None then r = (None, Some (StatusNotFound res (meta_Name (om x)))) \<and> objs s' = objs s
       else r = (Some (FObject x), None) \<and> objs s' = (objs s)((ns, meta_Name (om x)) \<mapsto> x))"
    and trk_delete: "Invokes (DeleteAction res ns name) s = (r, s') \<Longrightarrow>
      (if objs s (ns, name) = None then r = (None, Some (StatusNotFound res name)) \<and> objs s' = objs s
       else r = (None, None) \<and> objs s' = (objs s)((ns, name) := None))"

section \<open>One specification for both\<close>

text \<open>
  What an operation does to the objects, and which results it may have: lists come in any order. Watches, deleting
  a collection and patching are left out, since the tracker does not document what they do, and so is \<open>Get\<close> of an
  old version of an object, which the tracker does not keep.
\<close>

fun spec_op :: "(string \<Rightarrow> ((string \<times> string) list \<Rightarrow> bool) option) \<Rightarrow> 'o client_op \<Rightarrow> bool" where
  "spec_op selector (OList opts) \<longleftrightarrow> selector (lo_LabelSelector opts) \<noteq> None"
| "spec_op selector (OGet name options) \<longleftrightarrow> options = []"
| "spec_op selector (OWatch opts) \<longleftrightarrow> False"
| "spec_op selector (ODeleteCollection opts) \<longleftrightarrow> False"
| "spec_op selector (OPatch name pt data subs) \<longleftrightarrow> False"
| "spec_op selector _ \<longleftrightarrow> True"

fun spec_objs :: "('o \<Rightarrow> ObjectMeta) \<Rightarrow> string \<Rightarrow> 'o client_op \<Rightarrow> 'o objects_view \<Rightarrow> 'o objects_view" where
  "spec_objs om ns (OCreate x) m = (if m (ns, meta_Name (om x)) = None then m((ns, meta_Name (om x)) \<mapsto> x) else m)"
| "spec_objs om ns (OUpdate x) m = (if m (ns, meta_Name (om x)) = None then m else m((ns, meta_Name (om x)) \<mapsto> x))"
| "spec_objs om ns (ODelete name) m = (if m (ns, name) = None then m else m((ns, name) := None))"
| "spec_objs om ns op m = m"

fun spec_result ::
    "string \<Rightarrow> (string \<Rightarrow> ((string \<times> string) list \<Rightarrow> bool) option) \<Rightarrow> ('o \<Rightarrow> ObjectMeta) \<Rightarrow> (string \<Rightarrow> go_error) \<Rightarrow> string \<Rightarrow> 'o client_op \<Rightarrow>
     'o objects_view \<Rightarrow> 'o op_result \<Rightarrow> bool" where
  "spec_result res selector om ex ns (OGet name options) m r \<longleftrightarrow>
     r = (case m (ns, name) of Some x \<Rightarrow> ResObject x | None \<Rightarrow> ResErr (StatusNotFound res name))"
| "spec_result res selector om ex ns (OList opts) m r \<longleftrightarrow>
     (\<exists>xs. r = ResList xs \<and> lists_objects m (keys_in ns m \<inter> selected om (the (selector (lo_LabelSelector opts))) m) xs)"
| "spec_result res selector om ex ns (OCreate x) m r \<longleftrightarrow>
     r = (if m (ns, meta_Name (om x)) = None then ResObject x else ResErr (ex (meta_Name (om x))))"
| "spec_result res selector om ex ns (OUpdate x) m r \<longleftrightarrow>
     r = (if m (ns, meta_Name (om x)) = None then ResErr (StatusNotFound res (meta_Name (om x))) else ResObject x)"
| "spec_result res selector om ex ns (ODelete name) m r \<longleftrightarrow>
     r = (if m (ns, name) = None then ResErr (StatusNotFound res name) else ResDone)"
| "spec_result res selector om ex ns op m r \<longleftrightarrow> False"

context api_server
begin

lemma client_refines:
  assumes "spec_op selector op" and "client res om rest ns op s = (r, s')"
  shows "objs s' = spec_objs om ns op (objs s) \<and> spec_result res selector om exists_err ns op (objs s) r"
proof (cases op)
  case (OList opts)
  then obtain l where l: "selector (lo_LabelSelector opts) = Some l" using assms(1) by auto
  show ?thesis
    using assms(2) srv_list[OF l, where ns = ns and s = s] by (auto simp: OList client_List_def l)
next
  case (OCreate x)
  then show ?thesis
    using assms(2) srv_create[where ns = ns and x = x and s = s] by (cases "rest ((Request POST ns res)\<lparr>rq_Body := ObjectBody x\<rparr>) s") (auto simp: client_Create_def split: if_splits)
next
  case (OUpdate x)
  then show ?thesis
    using assms(2) srv_update[where ns = ns and x = x and s = s]
    by (cases "rest ((Request PUT ns res)\<lparr>rq_Name := Some (meta_Name (om x)), rq_Body := ObjectBody x\<rparr>) s") (auto simp: client_Update_def split: if_splits)
next
  case (ODelete name)
  then show ?thesis
    using assms(2) srv_delete[where ns = ns and name = name and s = s]
    by (cases "rest ((Request DELETE ns res)\<lparr>rq_Name := Some name, rq_Body := OptionsBody\<rparr>) s") (auto simp: client_Delete_def split: if_splits)
qed (use assms in \<open>auto simp: client_Get_def srv_get split: option.splits\<close>)

end

context object_tracker
begin

lemma fake_refines:
  assumes "spec_op selector op" and "fake_client res selector om Invokes ns op s = (r, s')"
  shows "objs s' = spec_objs om ns op (objs s) \<and> spec_result res selector om exists_err ns op (objs s) r"
proof (cases op)
  case (OList opts)
  then obtain l where l: "selector (lo_LabelSelector opts) = Some l" using assms(1) by auto
  show ?thesis
    using assms(2) trk_list[of ns opts s] by (auto simp: OList fake_List_def l intro: lists_objects_filter)
next
  case (OCreate x)
  then show ?thesis
    using assms(2) trk_create[of ns x s] by (cases "Invokes (CreateAction res ns x) s") (auto simp: fake_Create_def split: if_splits)
next
  case (OUpdate x)
  then show ?thesis
    using assms(2) trk_update[of ns x s] by (cases "Invokes (UpdateAction res ns x) s") (auto simp: fake_Update_def split: if_splits)
next
  case (ODelete name)
  then show ?thesis
    using assms(2) trk_delete[of ns name s] by (cases "Invokes (DeleteAction res ns name) s") (auto simp: fake_Delete_def split: if_splits)
qed (use assms in \<open>auto simp: fake_Get_def trk_get split: option.splits\<close>)

end

section \<open>The fake client stands in for the real one\<close>

fun same_result :: "'o op_result \<Rightarrow> 'o op_result \<Rightarrow> bool" where
  "same_result (ResList xs) (ResList ys) \<longleftrightarrow> mset xs = mset ys"
| "same_result r r' \<longleftrightarrow> r = r'"

lemma same_result_refl [simp]: "same_result r r"
  by (cases r) auto

lemma spec_result_same:
  "\<lbrakk>spec_result res selector om ex ns op m r; spec_result res selector om ex ns op m r'\<rbrakk> \<Longrightarrow> same_result r r'"
  by (cases op) (auto intro: lists_objects_mset)

fun run_ops :: "(string \<Rightarrow> 'o client_op \<Rightarrow> 's \<Rightarrow> 'o op_result \<times> 's) \<Rightarrow> (string \<times> 'o client_op) list \<Rightarrow> 's \<Rightarrow> 'o op_result list \<times> 's" where
  "run_ops c [] s = ([], s)"
| "run_ops c ((ns, op) # ops) s = (let (r, s) = c ns op s; (rs, s) = run_ops c ops s in (r # rs, s))"

lemma clients_agree:
  assumes "api_server res om selector ex rest objs" and "object_tracker res om ex Invokes objs'"
  shows "\<lbrakk>objs s = objs' t; \<forall>(ns, op)\<in>set ops. spec_op selector op; run_ops (client res om rest) ops s = (rs, s');
      run_ops (fake_client res selector om Invokes) ops t = (rs', t')\<rbrakk> \<Longrightarrow> list_all2 same_result rs rs' \<and> objs s' = objs' t'"
proof (induction ops arbitrary: s t rs rs' s' t')
  case (Cons p ops)
  obtain ns op where p: "p = (ns, op)" by fastforce
  obtain r s1 r' t1 where run: "client res om rest ns op s = (r, s1)" "fake_client res selector om Invokes ns op t = (r', t1)" by fastforce
  obtain rs1 s2 rs2 t2 where rest: "run_ops (client res om rest) ops s1 = (rs1, s2)" "run_ops (fake_client res selector om Invokes) ops t1 = (rs2, t2)"
    by fastforce
  have "spec_op selector op" using Cons.prems(2) p by auto
  note * = api_server.client_refines[OF assms(1) this run(1)] object_tracker.fake_refines[OF assms(2) this run(2)]
  have "objs s1 = objs' t1" "same_result r r'"
    using * Cons.prems(1) spec_result_same[of res selector om ex ns op "objs s" r r'] by simp_all
  then show ?case
    using Cons.IH[OF _ _ rest] Cons.prems by (auto simp: p run rest)
qed simp

text \<open>A reference server and a reference tracker, whose states are association lists.\<close>

definition ref_list :: "string \<Rightarrow> ((string \<times> string) \<times> 'o) list \<Rightarrow> 'o list" where
  "ref_list ns s = map (\<lambda>k. the (map_of s k)) (filter (\<lambda>k. ns = [] \<or> fst k = ns) (remdups (map fst s)))"

lemma ref_list_lists: "lists_objects (map_of s) (keys_in ns (map_of s)) (ref_list ns s)"
  unfolding lists_objects_def ref_list_def keys_in_def
  by (intro exI[of _ "filter (\<lambda>k. ns = [] \<or> fst k = ns) (remdups (map fst s))"]) (auto simp: dom_map_of_conv_image_fst)

definition ref_put :: "string \<times> string \<Rightarrow> 'o \<Rightarrow> ((string \<times> string) \<times> 'o) list \<Rightarrow> ((string \<times> string) \<times> 'o) list" where
  "ref_put k x s = (k, x) # s"

definition ref_del :: "string \<times> string \<Rightarrow> ((string \<times> string) \<times> 'o) list \<Rightarrow> ((string \<times> string) \<times> 'o) list" where
  "ref_del k s = filter (\<lambda>e. fst e \<noteq> k) s"

lemma ref_del_map_of [simp]: "map_of (ref_del k s) = (map_of s)(k := None)"
  by (induction s) (auto simp: ref_del_def fun_eq_iff)

definition exists_error :: "string \<Rightarrow> go_error" where
  "exists_error name = NewError (name @ '' already exists'')"

fun ref_rest :: "('o \<Rightarrow> ObjectMeta) \<Rightarrow> (string \<Rightarrow> ((string \<times> string) list \<Rightarrow> bool) option) \<Rightarrow> ('o, ((string \<times> string) \<times> 'o) list) rest_client" where
  "ref_rest om selector rq s =
     (let k = (rq_Namespace rq, case rq_Name rq of Some n \<Rightarrow> n | None \<Rightarrow> []); missing = Err (StatusNotFound (rq_Resource rq) (snd k)) in
      case rq_Verb rq of
        GET \<Rightarrow> (case rq_Params rq of
            GetParams v \<Rightarrow> ((case map_of s k of Some x \<Rightarrow> Ok (RObject x) | None \<Rightarrow> missing), s)
          | NoParams \<Rightarrow> (missing, s)
          | ListParams opts \<Rightarrow> ((case selector (lo_LabelSelector opts) of
                Some l \<Rightarrow> Ok (RList (filter (\<lambda>x. l (meta_Labels (om x))) (ref_list (fst k) s)))
              | None \<Rightarrow> Err (NewError ''invalid selector'')), s))
      | POST \<Rightarrow> (case rq_Body rq of
            ObjectBody x \<Rightarrow> (let k = (fst k, meta_Name (om x)) in
              if map_of s k = None then (Ok (RObject x), ref_put k x s) else (Err (exists_error (snd k)), s))
          | _ \<Rightarrow> (Err (NewError ''no object''), s))
      | PUT \<Rightarrow> (case rq_Body rq of
            ObjectBody x \<Rightarrow> if map_of s k = None then (missing, s) else (Ok (RObject x), ref_put k x s)
          | _ \<Rightarrow> (Err (NewError ''no object''), s))
      | DELETE \<Rightarrow> if map_of s k = None then (missing, s) else (Ok RStatus, ref_del k s)
      | PATCH pt \<Rightarrow> (Err (NewError ''unsupported patch''), s))"

fun ref_Invokes :: "('o \<Rightarrow> ObjectMeta) \<Rightarrow> ('o, ((string \<times> string) \<times> 'o) list) fake" where
  "ref_Invokes om (GetAction res ns name) s =
     ((case map_of s (ns, name) of Some x \<Rightarrow> (Some (FObject x), None) | None \<Rightarrow> (None, Some (StatusNotFound res name))), s)"
| "ref_Invokes om (ListAction res ns opts) s = ((Some (FList (ref_list ns s)), None), s)"
| "ref_Invokes om (CreateAction res ns x) s =
     (let k = (ns, meta_Name (om x)) in
      if map_of s k = None then ((Some (FObject x), None), ref_put k x s) else ((None, Some (exists_error (snd k))), s))"
| "ref_Invokes om (UpdateAction res ns x) s =
     (let k = (ns, meta_Name (om x)) in
      if map_of s k = None then ((None, Some (StatusNotFound res (snd k))), s) else ((Some (FObject x), None), ref_put k x s))"
| "ref_Invokes om (DeleteAction res ns name) s =
     (if map_of s (ns, name) = None then ((None, Some (StatusNotFound res name)), s) else ((None, None), ref_del (ns, name) s))"
| "ref_Invokes om _ s = ((None, Some (NewError ''no reaction implemented'')), s)"

interpretation ref_server: api_server res om selector exists_error "ref_rest om selector" map_of for res om selector
proof
  fix opts :: ListOptions and l ns s
  assume "selector (lo_LabelSelector opts) = Some l"
  then show "\<exists>xs. ref_rest om selector ((Request GET ns res)\<lparr>rq_Params := ListParams opts, rq_Timeout := list_timeout opts\<rparr>) s = (Ok (RList xs), s)
      \<and> lists_objects (map_of s) (keys_in ns (map_of s) \<inter> selected om l (map_of s)) xs"
    using lists_objects_filter[OF ref_list_lists, where l = l and om = om] by (auto simp: Request_def)
qed (auto simp: Request_def Let_def ref_put_def split: option.splits if_splits)

interpretation ref_tracker: object_tracker res om exists_error "ref_Invokes om" map_of for res om
  by unfold_locales (auto simp: Let_def ref_put_def ref_list_lists split: option.splits if_splits)



end
