(* ===== verification/Informer_Factory.thy ===== *)
theory Informer_Factory
  imports Admission
begin

text \<open>
  The factory of the shared informers of the custom resources (\<open>pkg/client/informers/externalversions\<close>: \<open>factory.go\<close>,
  \<open>generic.go\<close>, \<open>manbaingress.go\<close>, \<open>manbacluster.go\<close>), through which the event handlers, the store and the admission
  validator get at the caches. An informer is an object with an identity, so making one takes a fresh number,
  and the factory's operations are steps on its fields and on the objects made and started so far. The mutex of
  the factory makes each operation one step.
\<close>

section \<open>The factory\<close>

datatype reflect_Type = TManbaIngress | TManbaCluster

record 't SharedIndexInformer =
  si_id :: nat
  si_type :: reflect_Type
  si_namespace :: string
  si_resync :: int
  si_tweak :: "'t option"

record 't sharedInformerFactory =
  f_namespace :: string
  f_tweakListOptions :: "'t option"
  f_defaultResync :: int
  f_customResync :: "reflect_Type \<rightharpoonup> int"
  f_informers :: "reflect_Type \<rightharpoonup> 't SharedIndexInformer"
  f_startedInformers :: "reflect_Type \<Rightarrow> bool"

text \<open>The objects of the process: the next identity, and the informers for which \<open>Run\<close> has been called, in order.\<close>

record objects =
  next_id :: nat
  running :: "nat list"

definition WithCustomResyncConfig :: "(reflect_Type \<times> int) list \<Rightarrow> 't sharedInformerFactory \<Rightarrow> 't sharedInformerFactory" where
  "WithCustomResyncConfig resyncConfig f = f\<lparr>f_customResync := foldl (\<lambda>m (k, v). m(k \<mapsto> v)) (f_customResync f) resyncConfig\<rparr>"

definition WithTweakListOptions :: "'t option \<Rightarrow> 't sharedInformerFactory \<Rightarrow> 't sharedInformerFactory" where
  "WithTweakListOptions tweak f = f\<lparr>f_tweakListOptions := tweak\<rparr>"

definition WithNamespace :: "string \<Rightarrow> 't sharedInformerFactory \<Rightarrow> 't sharedInformerFactory" where
  "WithNamespace namespace f = f\<lparr>f_namespace := namespace\<rparr>"

definition NewSharedInformerFactoryWithOptions ::
    "int \<Rightarrow> ('t sharedInformerFactory \<Rightarrow> 't sharedInformerFactory) list \<Rightarrow> 't sharedInformerFactory" where
  "NewSharedInformerFactoryWithOptions defaultResync options =
     foldl (\<lambda>f opt. opt f)
       \<lparr>f_namespace = [], f_tweakListOptions = None, f_defaultResync = defaultResync, f_customResync = Map.empty, f_informers = Map.empty,
        f_startedInformers = \<lambda>_. False\<rparr> options"

definition NewSharedInformerFactory :: "int \<Rightarrow> 't sharedInformerFactory" where
  "NewSharedInformerFactory defaultResync = NewSharedInformerFactoryWithOptions defaultResync []"

definition NewFilteredSharedInformerFactory :: "int \<Rightarrow> string \<Rightarrow> 't option \<Rightarrow> 't sharedInformerFactory" where
  "NewFilteredSharedInformerFactory defaultResync namespace tweak =
     NewSharedInformerFactoryWithOptions defaultResync [WithNamespace namespace, WithTweakListOptions tweak]"

section \<open>Informers\<close>

text \<open>\<open>cache.NewSharedIndexInformer\<close> makes a new object; the two kinds differ in the type they list and watch.\<close>

definition NewFilteredInformer :: "reflect_Type \<Rightarrow> string \<Rightarrow> int \<Rightarrow> 't option \<Rightarrow> objects \<Rightarrow> 't SharedIndexInformer \<times> objects" where
  "NewFilteredInformer ty namespace resyncPeriod tweak w =
     (\<lparr>si_id = next_id w, si_type = ty, si_namespace = namespace, si_resync = resyncPeriod, si_tweak = tweak\<rparr>, w\<lparr>next_id := next_id w + 1\<rparr>)"

definition InformerFor ::
    "reflect_Type \<Rightarrow> (int \<Rightarrow> objects \<Rightarrow> 't SharedIndexInformer \<times> objects) \<Rightarrow> 't sharedInformerFactory \<Rightarrow> objects \<Rightarrow>
     't SharedIndexInformer \<times> 't sharedInformerFactory \<times> objects" where
  "InformerFor informerType newFunc f w =
     (case f_informers f informerType of
        Some informer \<Rightarrow> (informer, f, w)
      | None \<Rightarrow>
          let resyncPeriod = (case f_customResync f informerType of Some r \<Rightarrow> r | None \<Rightarrow> f_defaultResync f);
              (informer, w) = newFunc resyncPeriod w
          in (informer, f\<lparr>f_informers := (f_informers f)(informerType \<mapsto> informer)\<rparr>, w))"

text \<open>
  \<open>factory.Configuration().V1beta1().ManbaIngresses().Informer()\<close> and the same for clusters: the namespace and the
  options come from the factory.
\<close>

definition defaultInformer :: "'t sharedInformerFactory \<Rightarrow> reflect_Type \<Rightarrow> int \<Rightarrow> objects \<Rightarrow> 't SharedIndexInformer \<times> objects" where
  "defaultInformer f ty resyncPeriod w = NewFilteredInformer ty (f_namespace f) resyncPeriod (f_tweakListOptions f) w"

definition Informer :: "reflect_Type \<Rightarrow> 't sharedInformerFactory \<Rightarrow> objects \<Rightarrow> 't SharedIndexInformer \<times> 't sharedInformerFactory \<times> objects" where
  "Informer ty f w = InformerFor ty (defaultInformer f ty) f w"

text \<open>\<open>GetIndexer\<close> gives the cache of an informer; listers and the store read it.\<close>

definition Lister :: "('t SharedIndexInformer \<Rightarrow> cache_Store) \<Rightarrow> reflect_Type \<Rightarrow> 't sharedInformerFactory \<Rightarrow> objects \<Rightarrow> cache_Store \<times> 't sharedInformerFactory \<times> objects" where
  "Lister GetIndexer ty f w = (let (informer, f, w) = Informer ty f w in (GetIndexer informer, f, w))"

definition ForResource ::
    "GroupVersionResource \<Rightarrow> 't sharedInformerFactory \<Rightarrow> objects \<Rightarrow> 't SharedIndexInformer result \<times> 't sharedInformerFactory \<times> objects" where
  "ForResource resource f w =
     (let gv = \<lambda>r. \<lparr>gvr_Group = ''configuration.manba.io'', gvr_Version = ''v1beta1'', gvr_Resource = r\<rparr> in
      if resource = gv ''manbaclusters'' then (let (i, f, w) = Informer TManbaCluster f w in (Ok i, f, w))
      else if resource = gv ''manbaingresses'' then (let (i, f, w) = Informer TManbaIngress f w in (Ok i, f, w))
      else (Err (NewError ''no informer found''), f, w))"

text \<open>\<open>Start\<close> visits the informers in the order of the map, which is a parameter.\<close>

definition start_one :: "reflect_Type \<Rightarrow> 't sharedInformerFactory \<times> objects \<Rightarrow> 't sharedInformerFactory \<times> objects" where
  "start_one ty = (\<lambda>(f, w).
     case f_informers f ty of
       None \<Rightarrow> (f, w)
     | Some informer \<Rightarrow>
         if \<not> f_startedInformers f ty then
           (f\<lparr>f_startedInformers := (f_startedInformers f)(ty := True)\<rparr>, w\<lparr>running := running w @ [si_id informer]\<rparr>)
         else (f, w))"

definition factory_Start :: "reflect_Type list \<Rightarrow> 't sharedInformerFactory \<Rightarrow> objects \<Rightarrow> 't sharedInformerFactory \<times> objects" where
  "factory_Start ord f w = fold start_one ord (f, w)"

text \<open>\<open>sync\<close> is \<open>cache.WaitForCacheSync\<close> of one informer.\<close>

definition WaitForCacheSync :: "('t SharedIndexInformer \<Rightarrow> bool) \<Rightarrow> 't sharedInformerFactory \<Rightarrow> (reflect_Type \<rightharpoonup> bool)" where
  "WaitForCacheSync sync f = (\<lambda>ty. case f_informers f ty of Some i \<Rightarrow> if f_startedInformers f ty then Some (sync i) else None | None \<Rightarrow> None)"

section \<open>Sequences of operations\<close>

datatype 't flabel = Asked reflect_Type "'t SharedIndexInformer" | Started

inductive factory_run :: "'t sharedInformerFactory \<Rightarrow> objects \<Rightarrow> 't flabel list \<Rightarrow> 't sharedInformerFactory \<Rightarrow> objects \<Rightarrow> bool" for f0 w0 where
  run_nil: "factory_run f0 w0 [] f0 w0"
| run_ask: "\<lbrakk>factory_run f0 w0 tr f w; Informer ty f w = (i, f', w')\<rbrakk> \<Longrightarrow> factory_run f0 w0 (tr @ [Asked ty i]) f' w'"
| run_start: "\<lbrakk>factory_run f0 w0 tr f w; factory_Start ord f w = (f', w')\<rbrakk> \<Longrightarrow> factory_run f0 w0 (tr @ [Started]) f' w'"

section \<open>The invariant\<close>

text \<open>
  The informers of the factory are different objects, each of its type and for the namespace of the factory,
  and those that run are exactly those marked as started.
\<close>

definition resync_for :: "'t sharedInformerFactory \<Rightarrow> reflect_Type \<Rightarrow> int" where
  "resync_for f ty = (case f_customResync f ty of Some r \<Rightarrow> r | None \<Rightarrow> f_defaultResync f)"

lemma resync_for_update [simp]:
  "resync_for (f\<lparr>f_informers := x\<rparr>) ty = resync_for f ty" "resync_for (f\<lparr>f_startedInformers := y\<rparr>) ty = resync_for f ty"
  by (simp_all add: resync_for_def split: option.split)

definition informer_ok :: "'t sharedInformerFactory \<Rightarrow> objects \<Rightarrow> reflect_Type \<Rightarrow> 't SharedIndexInformer \<Rightarrow> bool" where
  "informer_ok f w ty i \<longleftrightarrow> si_id i < next_id w \<and> si_type i = ty \<and> si_namespace i = f_namespace f \<and>
     si_resync i = resync_for f ty \<and> (f_startedInformers f ty \<longleftrightarrow> si_id i \<in> set (running w))"

definition factory_ok :: "'t sharedInformerFactory \<Rightarrow> objects \<Rightarrow> bool" where
  "factory_ok f w \<longleftrightarrow>
     (\<forall>ty i. f_informers f ty = Some i \<longrightarrow> informer_ok f w ty i) \<and>
     (\<forall>ty ty' i i'. f_informers f ty = Some i \<longrightarrow> f_informers f ty' = Some i' \<longrightarrow> si_id i = si_id i' \<longrightarrow> ty = ty') \<and>
     (\<forall>ty. f_startedInformers f ty \<longrightarrow> f_informers f ty \<noteq> None) \<and>
     distinct (running w) \<and> (\<forall>n\<in>set (running w). n < next_id w)"

lemma factory_okD:
  assumes "factory_ok f w"
  shows "f_informers f ty = Some i \<Longrightarrow> informer_ok f w ty i"
    and "\<lbrakk>f_informers f ty = Some i; f_informers f ty' = Some i'; si_id i = si_id i'\<rbrakk> \<Longrightarrow> ty = ty'"
    and "f_startedInformers f ty \<Longrightarrow> f_informers f ty \<noteq> None" and "distinct (running w)" and "n \<in> set (running w) \<Longrightarrow> n < next_id w"
  using assms unfolding factory_ok_def by blast+

text \<open>What no operation touches.\<close>

definition same_options :: "'t sharedInformerFactory \<Rightarrow> 't sharedInformerFactory \<Rightarrow> bool" where
  "same_options f f' \<longleftrightarrow> f_namespace f' = f_namespace f \<and> f_customResync f' = f_customResync f \<and> f_defaultResync f' = f_defaultResync f"

lemma Informer_ok:
  assumes "factory_ok f w" and "Informer ty f w = (i, f', w')"
  shows "factory_ok f' w' \<and> same_options f f' \<and> f_informers f' ty = Some i \<and> (\<forall>t j. f_informers f t = Some j \<longrightarrow> f_informers f' t = Some j)"
proof (cases "f_informers f ty")
  case (Some j)
  then show ?thesis using assms by (simp add: Informer_def InformerFor_def same_options_def)
next
  case None
  have new: "i = \<lparr>si_id = next_id w, si_type = ty, si_namespace = f_namespace f, si_resync = resync_for f ty, si_tweak = f_tweakListOptions f\<rparr>"
    "f' = f\<lparr>f_informers := (f_informers f)(ty \<mapsto> i)\<rparr>" "w' = w\<lparr>next_id := next_id w + 1\<rparr>"
    using assms(2) None by (auto simp: Informer_def InformerFor_def defaultInformer_def NewFilteredInformer_def Let_def resync_for_def)
  note ok = factory_okD[OF assms(1)]
  have "informer_ok f' w' t j" if "f_informers f' t = Some j" for t j
    using that ok(1)[of t j] ok(3)[of ty] ok(5)[of "next_id w"] None
    by (auto simp: new(2,3) informer_ok_def new(1) split: if_splits)
  moreover have "t = t'" if "f_informers f' t = Some j" "f_informers f' t' = Some j'" "si_id j = si_id j'" for t t' j j'
  proof -
    have "si_id l < si_id i" if "t \<noteq> ty" "f_informers f' t = Some l" for t l
      using that ok(1)[of t l] by (simp add: new(2) informer_ok_def) (simp add: new(1))
    then show ?thesis
      using that ok(2)[of t j t' j'] by (cases "t = ty"; cases "t' = ty") (auto simp: new(2), fastforce+)
  qed
  moreover have "f_informers f' t \<noteq> None" if "f_startedInformers f' t" for t
    using that ok(3)[of t] by (auto simp: new(2))
  moreover have "distinct (running w')" "\<forall>n\<in>set (running w'). n < next_id w'"
    using ok(4,5) by (auto simp: new(3) less_SucI)
  ultimately have "factory_ok f' w'" unfolding factory_ok_def by blast
  then show ?thesis using None by (auto simp: new(2) same_options_def)
qed

lemma start_one_ok:
  assumes "factory_ok f w" and "start_one ty (f, w) = (f', w')"
  shows "factory_ok f' w' \<and> same_options f f' \<and> f_informers f' = f_informers f"
proof (cases "(f', w') = (f, w)")
  case True
  then show ?thesis using assms(1) by (simp add: same_options_def)
next
  case False
  then obtain i where i: "f_informers f ty = Some i" "\<not> f_startedInformers f ty"
    and f': "f' = f\<lparr>f_startedInformers := (f_startedInformers f)(ty := True)\<rparr>" "w' = w\<lparr>running := running w @ [si_id i]\<rparr>"
    using assms(2) by (auto simp: start_one_def split: option.splits if_splits)
  note ok = factory_okD[OF assms(1)]
  have "informer_ok f' w' t j" if "f_informers f t = Some j" for t j
    using that ok(1)[OF that] ok(2)[OF that i(1)] i(1) by (auto simp: f' informer_ok_def)
  moreover have "f_informers f t \<noteq> None" if "f_startedInformers f' t" for t
    using that ok(3)[of t] i(1) by (auto simp: f' split: if_splits)
  moreover have "distinct (running w')" "\<forall>n\<in>set (running w'). n < next_id w'"
    using ok(1)[OF i(1)] ok(4,5) i(2) by (auto simp: f' informer_ok_def)
  ultimately show ?thesis
    using ok(2) by (simp add: factory_ok_def f'(1) same_options_def)
qed

lemma factory_Start_ok:
  "\<lbrakk>factory_ok f w; factory_Start ord f w = (f', w')\<rbrakk> \<Longrightarrow> factory_ok f' w' \<and> same_options f f' \<and> f_informers f' = f_informers f"
proof (induction ord arbitrary: f w)
  case Nil
  then show ?case by (simp add: factory_Start_def same_options_def)
next
  case (Cons ty ord)
  obtain f1 w1 where one: "start_one ty (f, w) = (f1, w1)" by fastforce
  with Cons.prems have "factory_Start ord f1 w1 = (f', w')" by (simp add: factory_Start_def)
  with Cons.IH[of f1 w1] start_one_ok[OF Cons.prems(1) one] show ?case by (auto simp: same_options_def)
qed

text \<open>Along a run the invariant holds and every informer that was handed out is the one the factory keeps.\<close>

lemma factory_run_ok:
  assumes "factory_run f0 w0 tr f w" and "factory_ok f0 w0"
  shows "factory_ok f w \<and> same_options f0 f \<and> (\<forall>ty i. Asked ty i \<in> set tr \<longrightarrow> f_informers f ty = Some i)"
  using assms
proof (induction rule: factory_run.induct)
  case run_nil
  then show ?case by (simp add: same_options_def)
next
  case (run_ask tr f w ty i f' w')
  then show ?case using Informer_ok[OF _ run_ask.hyps(2)] by (auto simp: same_options_def)
next
  case (run_start tr f w ord f' w')
  then show ?case using factory_Start_ok[OF _ run_start.hyps(2)] by (auto simp: same_options_def)
qed

text \<open>A new factory has no informers, whatever its options.\<close>

lemma new_factory_ok:
  assumes "f0 = NewSharedInformerFactoryWithOptions resync options"
    and "set options \<subseteq> range WithNamespace \<union> range WithTweakListOptions \<union> range WithCustomResyncConfig" and "running w = []"
  shows "factory_ok f0 w \<and> f_defaultResync f0 = resync"
proof -
  have "f_informers (foldl (\<lambda>f opt. opt f) f options) = f_informers f \<and> f_startedInformers (foldl (\<lambda>f opt. opt f) f options) = f_startedInformers f
      \<and> f_defaultResync (foldl (\<lambda>f opt. opt f) f options) = f_defaultResync f" for f :: "'a sharedInformerFactory"
    using assms(2)
    by (induction options arbitrary: f) (auto simp: WithNamespace_def WithTweakListOptions_def WithCustomResyncConfig_def)
  then show ?thesis
    using assms(1,3) by (auto simp: NewSharedInformerFactoryWithOptions_def factory_ok_def)
qed

section \<open>The property\<close>

text \<open>
  C27. Whatever sequence of requests and starts happens, all who ask the factory for the informer of a type get the
  same object, which watches the namespace of the factory with the resync period configured for the type;
  different types have different informers, and no informer is run twice.
\<close>

theorem informers_are_shared:
  assumes "f0 = NewSharedInformerFactoryWithOptions resync options"
    and "set options \<subseteq> range WithNamespace \<union> range WithTweakListOptions \<union> range WithCustomResyncConfig"
    and "running w0 = []" and "factory_run f0 w0 tr f w"
  shows "(\<forall>ty i ty' j. Asked ty i \<in> set tr \<and> Asked ty' j \<in> set tr \<longrightarrow> (si_id i = si_id j \<longleftrightarrow> ty = ty') \<and> (ty = ty' \<longrightarrow> i = j))
    \<and> (\<forall>ty i. Asked ty i \<in> set tr \<longrightarrow> si_type i = ty \<and> si_namespace i = f_namespace f0
        \<and> si_resync i = (case f_customResync f0 ty of Some r \<Rightarrow> r | None \<Rightarrow> resync))
    \<and> distinct (running w)"
proof -
  have "factory_ok f0 w0" "f_defaultResync f0 = resync"
    using new_factory_ok[OF assms(1,2,3)] by auto
  with factory_run_ok[OF assms(4)]
  have ok: "factory_ok f w" "same_options f0 f" "\<And>ty i. Asked ty i \<in> set tr \<Longrightarrow> f_informers f ty = Some i" "f_defaultResync f0 = resync"
    by auto
  have "(si_id i = si_id j \<longleftrightarrow> ty = ty') \<and> (ty = ty' \<longrightarrow> i = j)" if "Asked ty i \<in> set tr" "Asked ty' j \<in> set tr" for ty i ty' j
    using ok(3)[OF that(1)] ok(3)[OF that(2)] factory_okD(2)[OF ok(1), of ty i ty' j] by auto
  moreover have "si_type i = ty \<and> si_namespace i = f_namespace f0 \<and> si_resync i = (case f_customResync f0 ty of Some r \<Rightarrow> r | None \<Rightarrow> resync)"
    if "Asked ty i \<in> set tr" for ty i
    using factory_okD(1)[OF ok(1) ok(3)[OF that]] ok(2,4) by (simp add: informer_ok_def same_options_def resync_for_def split: option.splits)
  ultimately show ?thesis using factory_okD(4)[OF ok(1)] by blast
qed

section \<open>A witness\<close>

text \<open>The store and the admission validator ask for the same type, around a start.\<close>

abbreviation cluster_factory :: "unit sharedInformerFactory" where
  "cluster_factory \<equiv> NewSharedInformerFactoryWithOptions 600 [WithNamespace ''ns'']"

abbreviation sample_informer :: "unit SharedIndexInformer" where
  "sample_informer \<equiv> \<lparr>si_id = 0, si_type = TManbaCluster, si_namespace = ''ns'', si_resync = 600, si_tweak = None\<rparr>"

lemma cluster_factory_run:
  "\<exists>f w. factory_run cluster_factory \<lparr>next_id = 0, running = []\<rparr> [Asked TManbaCluster sample_informer, Started, Asked TManbaCluster sample_informer] f w"
proof -
  let ?f = "cluster_factory\<lparr>f_informers := [TManbaCluster \<mapsto> sample_informer]\<rparr>"
  let ?g = "?f\<lparr>f_startedInformers := (\<lambda>_. False)(TManbaCluster := True)\<rparr>"
  have "Informer TManbaCluster cluster_factory \<lparr>next_id = 0, running = []\<rparr> = (sample_informer, ?f, \<lparr>next_id = 1, running = []\<rparr>)"
    by (simp add: Informer_def InformerFor_def defaultInformer_def NewFilteredInformer_def NewSharedInformerFactoryWithOptions_def WithNamespace_def)
  then have 1: "factory_run cluster_factory \<lparr>next_id = 0, running = []\<rparr> ([] @ [Asked TManbaCluster sample_informer]) ?f \<lparr>next_id = 1, running = []\<rparr>"
    by (rule run_ask[OF run_nil])
  have "factory_Start [TManbaCluster] ?f \<lparr>next_id = 1, running = []\<rparr> = (?g, \<lparr>next_id = 1, running = [0]\<rparr>)"
    by (simp add: factory_Start_def start_one_def NewSharedInformerFactoryWithOptions_def WithNamespace_def)
  note 2 = run_start[OF 1 this]
  have "Informer TManbaCluster ?g \<lparr>next_id = 1, running = [0]\<rparr> = (sample_informer, ?g, \<lparr>next_id = 1, running = [0]\<rparr>)"
    by (simp add: Informer_def InformerFor_def)
  from run_ask[OF 2 this] show ?thesis by (auto simp: append_Cons)
qed

theorem informers_are_shared_witness:
  "\<exists>f w. factory_run cluster_factory \<lparr>next_id = 0, running = []\<rparr> [Asked TManbaCluster sample_informer, Started, Asked TManbaCluster sample_informer] f w
    \<and> distinct (running w)"
proof -
  obtain f w where run: "factory_run cluster_factory \<lparr>next_id = 0, running = []\<rparr> [Asked TManbaCluster sample_informer, Started, Asked TManbaCluster sample_informer] f w"
    using cluster_factory_run by blast
  then show ?thesis
    using informers_are_shared[OF refl _ _ run] by auto
qed

end
