(* ===== verification/Listers.thy ===== *)
theory Listers
  imports Clientset Informer_Factory
begin

text \<open>
  The read path of the custom resources: the informers list and watch through the typed client
  (\<open>pkg/client/informers/externalversions\<close>), and the generated listers read the indexers the informers fill
  (\<open>pkg/client/listers\<close>). The helpers of client-go that the listers call, \<open>cache.ListAll\<close> and \<open>cache.ListAllByNamespace\<close>, are
  parameters with the contract \<open>cache_lister\<close>. The property composes factory, informer, client, server, cache and
  lister: what a lister returns is what the server stores.
\<close>

section \<open>List and watch\<close>

type_synonym tweak = "ListOptions \<Rightarrow> ListOptions"

record ('o, 's) ListWatch =
  ListFunc :: "ListOptions \<Rightarrow> 's \<Rightarrow> 'o op_result \<times> 's"
  WatchFunc :: "ListOptions \<Rightarrow> 's \<Rightarrow> 'o op_result \<times> 's"

definition tweaked :: "tweak option \<Rightarrow> ListOptions \<Rightarrow> ListOptions" where
  "tweaked tweakListOptions options = (case tweakListOptions of None \<Rightarrow> options | Some t \<Rightarrow> t options)"

definition ManbaCluster_ListWatch :: "(ManbaCluster, 's) rest_client \<Rightarrow> string \<Rightarrow> tweak option \<Rightarrow> (ManbaCluster, 's) ListWatch" where
  "ManbaCluster_ListWatch rest namespace tweakListOptions =
     \<lparr>ListFunc = (\<lambda>options. ManbaClusters_client rest namespace (OList (tweaked tweakListOptions options))),
      WatchFunc = (\<lambda>options. ManbaClusters_client rest namespace (OWatch (tweaked tweakListOptions options)))\<rparr>"

definition ManbaIngress_ListWatch :: "(ManbaIngress, 's) rest_client \<Rightarrow> string \<Rightarrow> tweak option \<Rightarrow> (ManbaIngress, 's) ListWatch" where
  "ManbaIngress_ListWatch rest namespace tweakListOptions =
     \<lparr>ListFunc = (\<lambda>options. ManbaIngresses_client rest namespace (OList (tweaked tweakListOptions options))),
      WatchFunc = (\<lambda>options. ManbaIngresses_client rest namespace (OWatch (tweaked tweakListOptions options)))\<rparr>"

section \<open>Groups and versions\<close>

text \<open>
  \<open>factory.Configuration().V1beta1().ManbaClusters()\<close>: the group, the version and the informer of a resource hand the
  namespace and the options of the factory on. The factory they keep is the argument \<open>f\<close> of the operations.
\<close>

record 't group =
  grp_namespace :: string
  grp_tweakListOptions :: "'t option"

record 't version =
  ver_namespace :: string
  ver_tweakListOptions :: "'t option"

record 't resource_informer =
  ri_type :: reflect_Type
  ri_namespace :: string
  ri_tweakListOptions :: "'t option"

definition group_New :: "string \<Rightarrow> 't option \<Rightarrow> 't group" where
  "group_New namespace tweakListOptions = \<lparr>grp_namespace = namespace, grp_tweakListOptions = tweakListOptions\<rparr>"

definition Configuration :: "'t sharedInformerFactory \<Rightarrow> 't group" where
  "Configuration f = group_New (f_namespace f) (f_tweakListOptions f)"

definition version_New :: "string \<Rightarrow> 't option \<Rightarrow> 't version" where
  "version_New namespace tweakListOptions = \<lparr>ver_namespace = namespace, ver_tweakListOptions = tweakListOptions\<rparr>"

definition V1beta1 :: "'t group \<Rightarrow> 't version" where
  "V1beta1 g = version_New (grp_namespace g) (grp_tweakListOptions g)"

definition version_ManbaClusters :: "'t version \<Rightarrow> 't resource_informer" where
  "version_ManbaClusters v = \<lparr>ri_type = TManbaCluster, ri_namespace = ver_namespace v, ri_tweakListOptions = ver_tweakListOptions v\<rparr>"

definition version_ManbaIngresses :: "'t version \<Rightarrow> 't resource_informer" where
  "version_ManbaIngresses v = \<lparr>ri_type = TManbaIngress, ri_namespace = ver_namespace v, ri_tweakListOptions = ver_tweakListOptions v\<rparr>"

definition resource_defaultInformer :: "'t resource_informer \<Rightarrow> int \<Rightarrow> objects \<Rightarrow> 't SharedIndexInformer \<times> objects" where
  "resource_defaultInformer r resyncPeriod w = NewFilteredInformer (ri_type r) (ri_namespace r) resyncPeriod (ri_tweakListOptions r) w"

definition resource_Informer ::
    "'t resource_informer \<Rightarrow> 't sharedInformerFactory \<Rightarrow> objects \<Rightarrow> 't SharedIndexInformer \<times> 't sharedInformerFactory \<times> objects" where
  "resource_Informer r f w = InformerFor (ri_type r) (resource_defaultInformer r) f w"

definition resource_Lister ::
    "('t SharedIndexInformer \<Rightarrow> cache_Store) \<Rightarrow> 't resource_informer \<Rightarrow> 't sharedInformerFactory \<Rightarrow> objects \<Rightarrow> cache_Store \<times> 't sharedInformerFactory \<times> objects" where
  "resource_Lister GetIndexer r f w = (let (informer, f, w) = resource_Informer r f w in (GetIndexer informer, f, w))"

text \<open>The generic informer that \<open>ForResource\<close> returns, with the group and the resource of its lister.\<close>

record 't genericInformer =
  gi_informer :: "'t SharedIndexInformer"
  gi_resource :: "string \<times> string"

definition generic_ForResource ::
    "GroupVersionResource \<Rightarrow> 't sharedInformerFactory \<Rightarrow> objects \<Rightarrow> 't genericInformer result \<times> 't sharedInformerFactory \<times> objects" where
  "generic_ForResource resource f w =
     (let (i, f, w) = ForResource resource f w
      in (rbind i (\<lambda>informer. Ok \<lparr>gi_informer = informer, gi_resource = (gvr_Group resource, gvr_Resource resource)\<rparr>), f, w))"

lemma resource_Informer_eq:
  "resource_Informer (version_ManbaClusters (V1beta1 (Configuration f))) f w = Informer TManbaCluster f w"
  "resource_Informer (version_ManbaIngresses (V1beta1 (Configuration f))) f w = Informer TManbaIngress f w"
proof -
  have "resource_defaultInformer (version_ManbaClusters (V1beta1 (Configuration f))) = defaultInformer f TManbaCluster"
    "resource_defaultInformer (version_ManbaIngresses (V1beta1 (Configuration f))) = defaultInformer f TManbaIngress"
    by (simp_all add: fun_eq_iff defaultInformer_def resource_defaultInformer_def version_ManbaClusters_def version_ManbaIngresses_def
      V1beta1_def Configuration_def version_New_def group_New_def)
  then show "resource_Informer (version_ManbaClusters (V1beta1 (Configuration f))) f w = Informer TManbaCluster f w"
    "resource_Informer (version_ManbaIngresses (V1beta1 (Configuration f))) f w = Informer TManbaIngress f w"
    by (simp_all add: resource_Informer_def Informer_def) (simp_all add: version_ManbaClusters_def version_ManbaIngresses_def)
qed

section \<open>Listers\<close>

text \<open>
  \<open>cache.ListAll\<close> calls its last argument on the objects it selects, and may end with an error: the parameters give
  the objects in the order of the calls, and the error. The listers assert the type of each object.
\<close>

type_synonym 'sel ListAll = "cache_Store \<Rightarrow> 'sel \<Rightarrow> k8s_obj list \<times> go_error option"
type_synonym 'sel ListAllByNamespace = "cache_Store \<Rightarrow> string \<Rightarrow> 'sel \<Rightarrow> k8s_obj list \<times> go_error option"

fun append_all :: "(k8s_obj \<Rightarrow> 'o result) \<Rightarrow> k8s_obj list \<Rightarrow> 'o list \<Rightarrow> 'o list result" where
  "append_all as [] ret = Ok ret"
| "append_all as (m # ms) ret = rbind (as m) (\<lambda>x. append_all as ms (ret @ [x]))"

definition listed :: "(k8s_obj \<Rightarrow> 'o result) \<Rightarrow> k8s_obj list \<times> go_error option \<Rightarrow> 'o list result" where
  "listed as = (\<lambda>(ms, err). rbind (append_all as ms []) (\<lambda>ret. case err of None \<Rightarrow> Ok ret | Some e \<Rightarrow> Err e))"

definition ManbaClusterLister_List :: "'sel ListAll \<Rightarrow> cache_Store \<Rightarrow> 'sel \<Rightarrow> ManbaCluster list result" where
  "ManbaClusterLister_List LA indexer selector = listed as_ManbaCluster (LA indexer selector)"

definition ManbaClusterNamespaceLister_List :: "'sel ListAllByNamespace \<Rightarrow> cache_Store \<Rightarrow> string \<Rightarrow> 'sel \<Rightarrow> ManbaCluster list result" where
  "ManbaClusterNamespaceLister_List LN indexer namespace selector = listed as_ManbaCluster (LN indexer namespace selector)"

definition ManbaIngressLister_List :: "'sel ListAll \<Rightarrow> cache_Store \<Rightarrow> 'sel \<Rightarrow> ManbaIngress list result" where
  "ManbaIngressLister_List LA indexer selector = listed as_ManbaIngress (LA indexer selector)"

definition ManbaIngressNamespaceLister_List :: "'sel ListAllByNamespace \<Rightarrow> cache_Store \<Rightarrow> string \<Rightarrow> 'sel \<Rightarrow> ManbaIngress list result" where
  "ManbaIngressNamespaceLister_List LN indexer namespace selector = listed as_ManbaIngress (LN indexer namespace selector)"

lemma append_all_map: "(\<And>x. as (wrap x) = Ok x) \<Longrightarrow> append_all as (map wrap xs) ret = Ok (ret @ xs)"
  by (induction xs arbitrary: ret) auto

section \<open>What client-go documents\<close>

text \<open>
  The helpers hand every object of the cache whose labels match to the callback, once; with a namespace only those
  in it, where the empty namespace stands for all.
\<close>

locale cache_lister =
  fixes LA :: "'sel ListAll" and LN :: "'sel ListAllByNamespace" and matches :: "'sel \<Rightarrow> (string \<times> string) list \<Rightarrow> bool"
  assumes all: "informer_cache c objs \<Longrightarrow> \<exists>ms. LA c sel = (ms, None) \<and> distinct ms
      \<and> set ms = {x \<in> ran objs. \<exists>meta. Accessor x = Ok meta \<and> matches sel (meta_Labels meta)}"
    and in_namespace: "informer_cache c objs \<Longrightarrow> \<exists>ms. LN c ns sel = (ms, None) \<and> distinct ms
      \<and> set ms = {x \<in> ran objs. \<exists>meta. Accessor x = Ok meta \<and> (ns = [] \<or> meta_Namespace meta = ns) \<and> matches sel (meta_Labels meta)}"

text \<open>The server stores objects under their namespace and name, and namespaces have no slash.\<close>

definition server_keyed :: "('o \<Rightarrow> ObjectMeta) \<Rightarrow> 'o objects_view \<Rightarrow> bool" where
  "server_keyed om m \<longleftrightarrow> (\<forall>ns n x. m (ns, n) = Some x \<longrightarrow>
     meta_Namespace (om x) = ns \<and> meta_Name (om x) = n \<and> ns \<noteq> [] \<and> CHR ''/'' \<notin> set ns)"

text \<open>The objects that an informer for a namespace with a selector of labels sees.\<close>

definition in_scope :: "('o \<Rightarrow> ObjectMeta) \<Rightarrow> string \<Rightarrow> ((string \<times> string) list \<Rightarrow> bool) \<Rightarrow> 'o objects_view \<Rightarrow> 'o objects_view" where
  "in_scope om namespace l m = (\<lambda>(ns, n). case m (ns, n) of
     Some x \<Rightarrow> if (namespace = [] \<or> ns = namespace) \<and> l (meta_Labels (om x)) then Some x else None
   | None \<Rightarrow> None)"

lemma in_scope_le: "in_scope om namespace l m k = Some x \<Longrightarrow> m k = Some x"
  by (cases k) (auto simp: in_scope_def split: option.splits if_splits)

lemma server_keyed_scope: "server_keyed om m \<Longrightarrow> server_keyed om (in_scope om namespace l m)"
  by (auto simp: server_keyed_def dest!: in_scope_le)

lemma lists_scope:
  assumes "lists_objects m (keys_in namespace m \<inter> selected om l m) xs"
  shows "lists_objects (in_scope om namespace l m) (dom (in_scope om namespace l m)) xs"
proof -
  obtain ks where ks: "distinct ks" "set ks = keys_in namespace m \<inter> selected om l m" "xs = map (\<lambda>k. the (m k)) ks"
    using assms by (auto simp: lists_objects_def)
  have eq: "in_scope om namespace l m k = m k" if "k \<in> set ks" for k
    using that unfolding ks(2) by (cases "m k") (auto simp: in_scope_def keys_in_def selected_def case_prod_beta)
  have "set ks = dom (in_scope om namespace l m)"
    by (auto simp: ks(2) in_scope_def keys_in_def selected_def split: option.splits if_splits)
  with ks(1,3) eq show ?thesis unfolding lists_objects_def by (intro exI[of _ ks]) auto
qed

section \<open>From the server to the lister\<close>

text \<open>The objects of one kind in a cache: \<open>wrap\<close> puts them there and the assertion \<open>as\<close> takes them out.\<close>

locale typed_cache = cache_lister LA LN matches
  for LA :: "'sel ListAll" and LN :: "'sel ListAllByNamespace" and matches :: "'sel \<Rightarrow> (string \<times> string) list \<Rightarrow> bool" +
  fixes om :: "'o \<Rightarrow> ObjectMeta" and wrap :: "'o \<Rightarrow> k8s_obj" and as :: "k8s_obj \<Rightarrow> 'o result"
  assumes wrap_meta: "Accessor (wrap x) = Ok (om x)" and unwrap: "as (wrap x) = Ok x"
begin

lemma wrap_eq: "wrap x = wrap y \<longleftrightarrow> x = y"
  by (metis unwrap result.inject(1))

lemma select_wrapped: "{y \<in> wrap ` R. \<exists>meta. Accessor y = Ok meta \<and> P meta} = wrap ` {x \<in> R. P (om x)}"
  by (auto simp: wrap_meta)

lemma cached:
  assumes "server_keyed om m" and "lists_objects m (dom m) xs"
  shows "ran (cache_objs (map wrap xs)) = wrap ` ran m" and "named_objects (cache_objs (map wrap xs))"
proof -
  obtain ks where ks: "distinct ks" "set ks = dom m" "xs = map (\<lambda>k. the (m k)) ks"
    using assms(2) by (auto simp: lists_objects_def)
  have key: "meta_key (wrap (the (m (ns, n)))) = ns @ ''/'' @ n" if "(ns, n) \<in> set ks" for ns n
    using that assms(1) by (auto simp: ks(2) server_keyed_def meta_key_def wrap_meta object_key_def)
  have "inj_on (\<lambda>k. meta_key (wrap (the (m k)))) (set ks)"
  proof (rule inj_onI, clarify)
    fix ns n ns' n'
    assume k: "(ns, n) \<in> set ks" "(ns', n') \<in> set ks" "meta_key (wrap (the (m (ns, n)))) = meta_key (wrap (the (m (ns', n'))))"
    then have "CHR ''/'' \<notin> set ns" "CHR ''/'' \<notin> set ns'" using assms(1) by (auto simp: ks(2) server_keyed_def)
    then show "ns = ns' \<and> n = n'"
      using append_sep_inj[of "CHR ''/''" ns ns' n n'] k(3) by (simp add: key[OF k(1)] key[OF k(2)])
  qed
  then have "distinct (map meta_key (map wrap xs))" using ks(1) by (simp add: ks(3) distinct_map o_def)
  then show ran: "ran (cache_objs (map wrap xs)) = wrap ` ran m"
  proof -
    have "set xs = ran m" unfolding ran_def by (force simp: ks(3,2))
    then show "ran (cache_objs (map wrap xs)) = wrap ` ran m" using ran_cache_objs[OF \<open>distinct (map meta_key (map wrap xs))\<close>] by simp
  qed
  show "named_objects (cache_objs (map wrap xs))"
    using assms(1) unfolding named_objects_def ran by (fastforce simp: wrap_meta server_keyed_def ran_def)
qed

lemma lister_gets:
  assumes "server_keyed om m" and "lists_objects m (dom m) xs" and "informer_cache c (cache_objs (map wrap xs))" and "CHR ''/'' \<notin> set ns"
  shows "rbind (GetByKey c (ns @ ''/'' @ n)) (found_as as missing) = (case m (ns, n) of Some x \<Rightarrow> Ok x | None \<Rightarrow> Err missing)"
proof -
  note get = informer_cache.get_named[OF assms(3) cached(2)[OF assms(1,2)] assms(4), of n]
  have iff: "GetByKey c (ns @ ''/'' @ n) = Ok (Some y) \<longleftrightarrow> (\<exists>x. y = wrap x \<and> m (ns, n) = Some x)" for y
    using assms(1) unfolding get[of y] cached(1)[OF assms(1,2)] by (auto simp: wrap_meta server_keyed_def ran_def)
  show ?thesis
  proof (cases "m (ns, n)")
    case None
    then have "GetByKey c (ns @ ''/'' @ n) = Ok None"
      using iff informer_cache.get[OF assms(3), of "ns @ ''/'' @ n"] by (cases "cache_objs (map wrap xs) (ns @ ''/'' @ n)") auto
    then show ?thesis by (simp add: None found_as_def)
  next
    case (Some x)
    then have "GetByKey c (ns @ ''/'' @ n) = Ok (Some (wrap x))" using iff by blast
    then show ?thesis by (simp add: Some found_as_def unwrap)
  qed
qed

lemma lister_lists:
  assumes "server_keyed om m" and "lists_objects m (dom m) xs" and "informer_cache c (cache_objs (map wrap xs))"
  shows "\<exists>ys. listed as (LN c ns sel) = Ok ys \<and> distinct ys \<and> set ys = {x. \<exists>k. m k = Some x \<and> (ns = [] \<or> fst k = ns) \<and> matches sel (meta_Labels (om x))}"
    and "\<exists>ys. listed as (LA c sel) = Ok ys \<and> distinct ys \<and> set ys = {x. \<exists>k. m k = Some x \<and> matches sel (meta_Labels (om x))}"
proof -
  have *: "\<exists>ys. listed as (ms, None) = Ok ys \<and> distinct ys \<and> set ys = {x \<in> ran m. P x}"
    if ms: "distinct ms" "set ms = wrap ` {x \<in> ran m. P x}" for ms P
  proof -
    obtain ys where ys: "ms = map wrap ys" using ms(2) ex_map_conv[of ms wrap] by auto
    have "wrap ` set ys = wrap ` {x \<in> ran m. P x}" using ms(2) ys by simp
    then have "set ys = {x \<in> ran m. P x}" by (simp add: inj_image_eq_iff inj_def wrap_eq)
    then show ?thesis using ms(1) unwrap by (simp add: ys listed_def append_all_map distinct_map)
  qed
  note ran = cached(1)[OF assms(1,2)]
  obtain ms where ms: "LN c ns sel = (ms, None)" "distinct ms"
      "set ms = wrap ` {x \<in> ran m. (ns = [] \<or> meta_Namespace (om x) = ns) \<and> matches sel (meta_Labels (om x))}"
    using in_namespace[OF assms(3), of ns sel] unfolding ran select_wrapped by blast
  moreover have "{x \<in> ran m. (ns = [] \<or> meta_Namespace (om x) = ns) \<and> matches sel (meta_Labels (om x))} =
      {x. \<exists>k. m k = Some x \<and> (ns = [] \<or> fst k = ns) \<and> matches sel (meta_Labels (om x))}"
    using assms(1) by (auto simp: ran_def server_keyed_def)
  ultimately show "\<exists>ys. listed as (LN c ns sel) = Ok ys \<and> distinct ys \<and> set ys = {x. \<exists>k. m k = Some x \<and> (ns = [] \<or> fst k = ns) \<and> matches sel (meta_Labels (om x))}"
    using *[OF ms(2,3)] by simp
  obtain ms where ms: "LA c sel = (ms, None)" "distinct ms" "set ms = wrap ` {x \<in> ran m. matches sel (meta_Labels (om x))}"
    using all[OF assms(3), of sel] unfolding ran select_wrapped by blast
  then show "\<exists>ys. listed as (LA c sel) = Ok ys \<and> distinct ys \<and> set ys = {x. \<exists>k. m k = Some x \<and> matches sel (meta_Labels (om x))}"
    using *[OF ms(2,3)] by (auto simp: ran_def)
qed

end

lemma typed_caches:
  assumes "cache_lister LA LN matches"
  shows "typed_cache LA LN matches mc_Meta ObjManbaCluster as_ManbaCluster" and "typed_cache LA LN matches ing_Meta ObjManbaIngress as_ManbaIngress"
  by (auto intro!: typed_cache.intro[OF assms] typed_cache_axioms.intro)

text \<open>What the list function of an informer returns: the objects of the server in its scope.\<close>

context api_server
begin

lemma list_in_scope:
  assumes "selector (lo_LabelSelector opts) = Some l" and "client res om rest namespace (OList opts) s = (r, s')"
  obtains xs where "r = ResList xs" "lists_objects (in_scope om namespace l (objs s)) (dom (in_scope om namespace l (objs s))) xs"
  using client_refines[OF _ assms(2)] assms(1) that by (auto intro: lists_scope)

end

text \<open>
  C25. What is read of the clusters is what the API server stores. A factory made an informer, its list function
  listed, and its cache keeps what was listed. Then the lister of the admission webhook and the store of the
  parser find, under a namespace and a name, exactly the server's cluster if it is in the informer's scope, which is
  the namespace of the factory and the labels its options select; and the lister lists exactly those clusters of a
  namespace whose labels match.
\<close>

theorem clusters_read_as_stored:
  assumes "api_server ''manbaclusters'' mc_Meta selector ex rest objs" and "server_keyed mc_Meta (objs s)" and "cache_lister LA LN matches"
    and "factory_ok f w" and "resource_Informer (version_ManbaClusters (V1beta1 (Configuration f))) f w = (i, f', w')"
    and "selector (lo_LabelSelector (tweaked (si_tweak i) opts)) = Some l"
    and "ListFunc (ManbaCluster_ListWatch rest (si_namespace i) (si_tweak i)) opts s = (ResList xs, s')"
    and "informer_cache c (cache_objs (map ObjManbaCluster xs))"
    and "ManbaClusters_Store (manbaFactory st) = c" and "CHR ''/'' \<notin> set ns"
  shows "ManbaClusterLister_Get c ns n = (case in_scope mc_Meta (f_namespace f) l (objs s) (ns, n) of
        Some x \<Rightarrow> Ok x | None \<Rightarrow> Err (StatusNotFound ''manbacluster'' n)) \<and>
    (store_GetManbaCluster st ns n = Ok x \<longleftrightarrow> in_scope mc_Meta (f_namespace f) l (objs s) (ns, n) = Some x) \<and>
    (\<exists>ys. ManbaClusterNamespaceLister_List LN c ns sel = Ok ys \<and> distinct ys \<and>
      set ys = {x. \<exists>k. in_scope mc_Meta (f_namespace f) l (objs s) k = Some x \<and> (ns = [] \<or> fst k = ns) \<and> matches sel (meta_Labels (mc_Meta x))})"
proof -
  let ?m = "in_scope mc_Meta (f_namespace f) l (objs s)"
  have "Informer TManbaCluster f w = (i, f', w')" using assms(5) by (simp only: resource_Informer_eq)
  from Informer_ok[OF assms(4) this] have ns: "si_namespace i = f_namespace f"
    by (auto simp: same_options_def dest!: factory_okD(1) simp: informer_ok_def)
  have "client ''manbaclusters'' mc_Meta rest (f_namespace f) (OList (tweaked (si_tweak i) opts)) s = (ResList xs, s')"
    using assms(7) by (simp add: ManbaCluster_ListWatch_def ManbaClusters_client_def ns)
  from api_server.list_in_scope[OF assms(1,6) this] have xs: "lists_objects ?m (dom ?m) xs" by auto
  note keyed = server_keyed_scope[OF assms(2), of "f_namespace f" l] and t = typed_caches(1)[OF assms(3)] and c = assms(8)
  have get: "ManbaClusterLister_Get c ns n = (case ?m (ns, n) of Some x \<Rightarrow> Ok x | None \<Rightarrow> Err (StatusNotFound ''manbacluster'' n))"
    unfolding ManbaClusterLister_Get_def by (rule typed_cache.lister_gets[OF t keyed xs c assms(10)])
  then have "store_GetManbaCluster st ns n = Ok x \<longleftrightarrow> ?m (ns, n) = Some x"
    by (auto simp: store_GetManbaCluster_iff assms(9) ManbaClusterLister_Get_def found_as_Ok_iff found_as_def split: option.splits)
  with get typed_cache.lister_lists(1)[OF t keyed xs c, of ns sel] show ?thesis
    by (simp add: ManbaClusterNamespaceLister_List_def)
qed

section \<open>On the reference server and cache\<close>

definition ref_ListAll :: "((string \<times> string) list \<Rightarrow> bool) ListAll" where
  "ref_ListAll c sel = (filter (\<lambda>x. case Accessor x of Ok mt \<Rightarrow> sel (meta_Labels mt) | _ \<Rightarrow> False) (cache_List c), None)"

definition ref_ListAllByNamespace :: "((string \<times> string) list \<Rightarrow> bool) ListAllByNamespace" where
  "ref_ListAllByNamespace c ns sel =
     (filter (\<lambda>x. case Accessor x of Ok mt \<Rightarrow> (ns = [] \<or> meta_Namespace mt = ns) \<and> sel (meta_Labels mt) | _ \<Rightarrow> False) (cache_List c), None)"

lemma case_Ok_iff: "(case r of Ok m \<Rightarrow> P m | _ \<Rightarrow> False) \<longleftrightarrow> (\<exists>m. r = Ok m \<and> P m)"
  by (cases r) auto

interpretation ref_lister: cache_lister ref_ListAll ref_ListAllByNamespace "\<lambda>sel. sel"
  by unfold_locales
    (auto simp: ref_ListAll_def ref_ListAllByNamespace_def informer_cache.listed informer_cache.listed_once case_Ok_iff)

interpretation ref_clusters: typed_cache ref_ListAll ref_ListAllByNamespace "\<lambda>sel. sel" mc_Meta ObjManbaCluster as_ManbaCluster
  by (rule typed_caches(1)[OF ref_lister.cache_lister_axioms])

interpretation ref_ingresses: typed_cache ref_ListAll ref_ListAllByNamespace "\<lambda>sel. sel" ing_Meta ObjManbaIngress as_ManbaIngress
  by (rule typed_caches(2)[OF ref_lister.cache_lister_axioms])

text \<open>Two clusters on the server, of which the informer of the factory for \<open>ns\<close> sees one.\<close>

definition sample_server_objs :: "((string \<times> string) \<times> ManbaCluster) list" where
  "sample_server_objs = [((''ns'', ''a''), sample_crd ''a''), ((''other'', ''b''), (sample_crd ''b'')\<lparr>mc_Meta := (sample_meta ''b'')\<lparr>meta_Namespace := ''other''\<rparr>\<rparr>)]"

abbreviation no_selector :: "string \<Rightarrow> ((string \<times> string) list \<Rightarrow> bool) option" where
  "no_selector \<equiv> \<lambda>_. Some (\<lambda>_. True)"

lemma sample_server_keyed: "server_keyed mc_Meta (map_of sample_server_objs)"
  by (auto simp: sample_server_objs_def server_keyed_def sample_crd_def sample_meta_def split: if_splits)

lemma sample_factory_ok: "factory_ok (NewSharedInformerFactoryWithOptions 600 [WithNamespace ''ns'']) \<lparr>next_id = 0, running = []\<rparr>"
  by (rule conjunct1[OF new_factory_ok[OF refl]]) auto

lemma sample_cluster_cached: "informer_cache (list_cache [ObjManbaCluster (sample_crd ''a'')]) (cache_objs (map ObjManbaCluster [sample_crd ''a'']))"
  using list_cache_informer[of "map ObjManbaCluster [sample_crd ''a'']"] by (simp add: cacheable_def)

theorem clusters_read_as_stored_witness:
  "ManbaClusterLister_Get (list_cache [ObjManbaCluster (sample_crd ''a'')]) ''ns'' ''a'' = Ok (sample_crd ''a'') \<and>
   ManbaClusterLister_Get (list_cache [ObjManbaCluster (sample_crd ''a'')]) ''other'' ''b'' = Err (StatusNotFound ''manbacluster'' ''b'') \<and>
   (\<exists>ys. ManbaClusterNamespaceLister_List ref_ListAllByNamespace (list_cache [ObjManbaCluster (sample_crd ''a'')]) ''ns'' (\<lambda>_. True) = Ok ys \<and>
     sample_crd ''a'' \<in> set ys)"
proof -
  let ?f = "NewSharedInformerFactoryWithOptions 600 [WithNamespace ''ns''] :: tweak sharedInformerFactory"
  let ?c = "list_cache [ObjManbaCluster (sample_crd ''a'')]"
  let ?st = "store_New (sample_factory []) (sample_manba [sample_crd ''a''] []) (\<lambda>_. True)"
  let ?opts = "\<lparr>lo_LabelSelector = [], lo_TimeoutSeconds = None, lo_Watch = False\<rparr>"
  obtain i f' w' where i: "resource_Informer (version_ManbaClusters (V1beta1 (Configuration ?f))) ?f \<lparr>next_id = 0, running = []\<rparr> = (i, f', w')"
      "si_namespace i = ''ns''" "si_tweak i = None"
    by (simp add: resource_Informer_eq Informer_def InformerFor_def defaultInformer_def NewFilteredInformer_def NewSharedInformerFactoryWithOptions_def WithNamespace_def)
  have list: "ListFunc (ManbaCluster_ListWatch (ref_rest mc_Meta no_selector) (si_namespace i) (si_tweak i)) ?opts sample_server_objs =
      (ResList [sample_crd ''a''], sample_server_objs)"
    by (simp add: sample_server_objs_def i ManbaCluster_ListWatch_def ManbaClusters_client_def client_List_def Request_def ref_list_def tweaked_def)
  have ns: "f_namespace ?f = ''ns''" by (simp add: NewSharedInformerFactoryWithOptions_def WithNamespace_def)
  note read = clusters_read_as_stored[OF ref_server.api_server_axioms sample_server_keyed ref_lister.cache_lister_axioms sample_factory_ok i(1) _ list
    sample_cluster_cached, of _ ?st, unfolded ns]
  let ?m = "in_scope mc_Meta ''ns'' (\<lambda>_. True) (map_of sample_server_objs)"
  have m: "?m (''ns'', ''a'') = Some (sample_crd ''a'')" "?m (''other'', ''b'') = None" by (simp_all add: sample_server_objs_def in_scope_def)
  note r1 = read[of "\<lambda>_. True" "''ns''" "''a''" _ "\<lambda>_. True"] and r2 = read[of "\<lambda>_. True" "''other''" "''b''"]
  have st: "ManbaClusters_Store (manbaFactory ?st) = ?c" by (simp add: store_New_def sample_manba_def)
  have 1: "ManbaClusterLister_Get ?c ''ns'' ''a'' = Ok (sample_crd ''a'')" using conjunct1[OF r1] st m(1) by simp
  have 2: "ManbaClusterLister_Get ?c ''other'' ''b'' = Err (StatusNotFound ''manbacluster'' ''b'')" using conjunct1[OF r2] st m(2) by simp
  obtain ys where ys: "ManbaClusterNamespaceLister_List ref_ListAllByNamespace ?c ''ns'' (\<lambda>_. True) = Ok ys"
      "set ys = {x. \<exists>k. ?m k = Some x \<and> (''ns'' = [] \<or> fst k = ''ns'') \<and> True}"
    using conjunct2[OF conjunct2[OF r1]] st by auto
  have "sample_crd ''a'' \<in> set ys" unfolding ys(2) using m(1) by (intro CollectI exI[of _ "(''ns'', ''a'')"]) simp
  with 1 2 ys(1) show ?thesis by blast
qed

end
