(* ===== verification/API_Clients.thy ===== *)
theory API_Clients
  imports Clientset
begin

text \<open>
  How the clients of the custom resources are made, and how their types are registered: \<open>registry.go\<close> of
  \<open>pkg/apis/configuration/v1beta1\<close>, and of \<open>pkg/client/clientset/versioned\<close> the files \<open>clientset.go\<close>,
  \<open>typed/configuration/v1beta1/configuration_client.go\<close>, \<open>scheme/register.go\<close>, \<open>fake/register.go\<close>, \<open>fake/clientset_generated.go\<close> and
  \<open>fake/fake_configuration_client.go\<close>. The scheme of the API machinery is a parameter with the contract \<open>type_scheme\<close>, the
  REST and discovery clients are made by parameters.
\<close>

section \<open>The scheme\<close>

type_synonym group_version = "string \<times> string"

definition SchemeGroupVersion :: group_version where
  "SchemeGroupVersion = (''configuration.manba.io'', ''v1beta1'')"

definition Resource :: "string \<Rightarrow> string \<times> string" where
  "Resource resource = (fst SchemeGroupVersion, resource)"

text \<open>
  A type is named like its Go struct. \<open>AddKnownTypes\<close> panics when a kind is taken by another type;
  \<open>AddToGroupVersion\<close> adds the types that every version has.
\<close>

record 's scheme_lib =
  AddKnownTypes :: "group_version \<Rightarrow> string list \<Rightarrow> 's \<Rightarrow> 's result"
  AddToGroupVersion :: "group_version \<Rightarrow> 's \<Rightarrow> 's"
  NewScheme :: 's

definition addKnownTypes :: "'s scheme_lib \<Rightarrow> 's \<Rightarrow> 's result" where
  "addKnownTypes S scheme =
     rbind (AddKnownTypes S SchemeGroupVersion [''ManbaIngress'', ''ManbaIngressList'', ''ManbaCluster'', ''ManbaClusterList''] scheme) (\<lambda>scheme.
     Ok (AddToGroupVersion S SchemeGroupVersion scheme))"

text \<open>A \<open>SchemeBuilder\<close> is a list of functions; \<open>AddToScheme\<close> runs them in order until one fails.\<close>

definition SchemeBuilder_AddToScheme :: "('s \<Rightarrow> 's result) list \<Rightarrow> 's \<Rightarrow> 's result" where
  "SchemeBuilder_AddToScheme sb scheme = rfold (\<lambda>f scheme. f scheme) sb scheme"

definition v1beta1_AddToScheme :: "'s scheme_lib \<Rightarrow> 's \<Rightarrow> 's result" where
  "v1beta1_AddToScheme S = SchemeBuilder_AddToScheme [addKnownTypes S]"

definition clientset_AddToScheme :: "'s scheme_lib \<Rightarrow> 's \<Rightarrow> 's result" where
  "clientset_AddToScheme S = SchemeBuilder_AddToScheme [v1beta1_AddToScheme S]"

text \<open>\<open>utilruntime.Must\<close> panics on an error. The \<open>init\<close> functions of the two clientsets are the same.\<close>

fun Must :: "'a result \<Rightarrow> 'a result" where
  "Must (Err e) = Panic ''Must''"
| "Must r = r"

definition scheme_init :: "'s scheme_lib \<Rightarrow> 's result" where
  "scheme_init S = Must (clientset_AddToScheme S (AddToGroupVersion S ([], ''v1'') (NewScheme S)))"

section \<open>Clients for a configuration\<close>

text \<open>
  Of a \<open>rest.Config\<close> the fields that the code looks at; \<open>QPS\<close>, a float, is compared with zero only. A rate limiter is an object, so making one takes a fresh number.
\<close>

record 'codecs rest_Config =
  cfg_GroupVersion :: "group_version option"
  cfg_APIPath :: string
  cfg_NegotiatedSerializer :: "'codecs option"
  cfg_UserAgent :: string
  cfg_QPS :: int
  cfg_Burst :: int
  cfg_RateLimiter :: "nat option"

definition setConfigDefaults :: "'codecs \<Rightarrow> string \<Rightarrow> 'codecs rest_Config \<Rightarrow> 'codecs rest_Config" where
  "setConfigDefaults codecs DefaultKubernetesUserAgent config =
     (let config = config\<lparr>cfg_GroupVersion := Some SchemeGroupVersion, cfg_APIPath := ''/apis'', cfg_NegotiatedSerializer := Some codecs\<rparr>
      in if cfg_UserAgent config = [] then config\<lparr>cfg_UserAgent := DefaultKubernetesUserAgent\<rparr> else config)"

record 'r ConfigurationV1beta1Client =
  restClient :: 'r

text \<open>What the constructors need: the codecs, the user agent, and the constructors of the libraries.\<close>

record ('codecs, 'r, 'd) client_lib =
  lib_Codecs :: 'codecs
  lib_UserAgent :: string
  RESTClientFor :: "'codecs rest_Config \<Rightarrow> 'r result"
  NewDiscoveryClientForConfig :: "'codecs rest_Config \<Rightarrow> 'd result"
  NewDiscoveryClient :: "'r \<Rightarrow> 'd"

definition v1beta1_NewForConfig :: "('codecs, 'r, 'd) client_lib \<Rightarrow> 'codecs rest_Config \<Rightarrow> 'r ConfigurationV1beta1Client result" where
  "v1beta1_NewForConfig L c =
     (let config = setConfigDefaults (lib_Codecs L) (lib_UserAgent L) c
      in rbind (RESTClientFor L config) (\<lambda>client. Ok \<lparr>restClient = client\<rparr>))"

definition v1beta1_NewForConfigOrDie :: "('codecs, 'r, 'd) client_lib \<Rightarrow> 'codecs rest_Config \<Rightarrow> 'r ConfigurationV1beta1Client result" where
  "v1beta1_NewForConfigOrDie L c = Must (v1beta1_NewForConfig L c)"

definition v1beta1_New :: "'r \<Rightarrow> 'r ConfigurationV1beta1Client" where
  "v1beta1_New c = \<lparr>restClient = c\<rparr>"

text \<open>An interface is nil or holds a pointer, which may be nil.\<close>

datatype 'r interface = NilInterface | Interface "'r option"

definition v1beta1_RESTClient :: "'r ConfigurationV1beta1Client option \<Rightarrow> 'r interface" where
  "v1beta1_RESTClient c = (case c of None \<Rightarrow> NilInterface | Some c \<Rightarrow> Interface (Some (restClient c)))"

record ('r, 'd) clientset =
  configurationV1beta1 :: "'r ConfigurationV1beta1Client"
  DiscoveryClient :: 'd

definition clientset_Discovery :: "('r, 'd) clientset option \<Rightarrow> 'd interface" where
  "clientset_Discovery c = (case c of None \<Rightarrow> NilInterface | Some c \<Rightarrow> Interface (Some (DiscoveryClient c)))"

text \<open>\<open>n\<close> is the next object; the copy of the configuration is shallow, but only its own fields are assigned.\<close>

definition clientset_NewForConfig :: "('codecs, 'r, 'd) client_lib \<Rightarrow> 'codecs rest_Config \<Rightarrow> nat \<Rightarrow> ('r, 'd) clientset result \<times> nat" where
  "clientset_NewForConfig L c n =
     (let (configShallowCopy, n) =
        (if cfg_RateLimiter c = None \<and> cfg_QPS c > 0 then (c\<lparr>cfg_RateLimiter := Some n\<rparr>, n + 1) else (c, n))
      in (rbind (v1beta1_NewForConfig L configShallowCopy) (\<lambda>client.
          rbind (NewDiscoveryClientForConfig L configShallowCopy) (\<lambda>disc.
          Ok \<lparr>configurationV1beta1 = client, DiscoveryClient = disc\<rparr>)), n))"

definition clientset_NewForConfigOrDie :: "('codecs, 'r, 'd) client_lib \<Rightarrow> 'codecs rest_Config \<Rightarrow> ('r, 'd) clientset result" where
  "clientset_NewForConfigOrDie L c =
     rbind (v1beta1_NewForConfigOrDie L c) (\<lambda>client.
     rbind (Must (NewDiscoveryClientForConfig L c)) (\<lambda>disc.
     Ok \<lparr>configurationV1beta1 = client, DiscoveryClient = disc\<rparr>))"

definition clientset_New :: "('codecs, 'r, 'd) client_lib \<Rightarrow> 'r \<Rightarrow> ('r, 'd) clientset" where
  "clientset_New L c = \<lparr>configurationV1beta1 = v1beta1_New c, DiscoveryClient = NewDiscoveryClient L c\<rparr>"

text \<open>The clients of the two resources: their interface with the REST client of the group and a namespace.\<close>

definition newManbaClusters :: "('r \<Rightarrow> (ManbaCluster, 's) rest_client) \<Rightarrow> 'r ConfigurationV1beta1Client \<Rightarrow> string \<Rightarrow> ManbaCluster client_op \<Rightarrow> 's \<Rightarrow> ManbaCluster op_result \<times> 's" where
  "newManbaClusters perform c namespace = ManbaClusters_client (perform (restClient c)) namespace"

definition newManbaIngresses :: "('r \<Rightarrow> (ManbaIngress, 's) rest_client) \<Rightarrow> 'r ConfigurationV1beta1Client \<Rightarrow> string \<Rightarrow> ManbaIngress client_op \<Rightarrow> 's \<Rightarrow> ManbaIngress op_result \<times> 's" where
  "newManbaIngresses perform c namespace = ManbaIngresses_client (perform (restClient c)) namespace"

section \<open>The fake clientset\<close>

text \<open>\<open>Add\<close> of the tracker; a failure panics. The reactors hand every action to the tracker.\<close>

definition NewSimpleClientset :: "('o \<Rightarrow> 's \<Rightarrow> 's result) \<Rightarrow> 's \<Rightarrow> 'o list \<Rightarrow> 's result" where
  "NewSimpleClientset Add o0 objects = rfold (\<lambda>obj s. Must (Add obj s)) objects o0"

definition fake_RESTClient :: "'r interface" where
  "fake_RESTClient = Interface None"

section \<open>Laws\<close>

text \<open>
  What the API machinery documents of a scheme, in terms of the type that a kind of a version stands for: \<open>AddKnownTypes\<close>
  registers every type under its name and panics only over a kind that is taken; the types that every version
  has are \<open>meta_kinds\<close>.
\<close>

locale type_scheme =
  fixes S :: "'s scheme_lib" and kinds :: "'s \<Rightarrow> group_version \<times> string \<rightharpoonup> string" and meta_kinds :: "string set"
  assumes added: "(\<And>t. t \<in> set ts \<Longrightarrow> kinds s (gv, t) \<in> {None, Some t}) \<Longrightarrow>
      \<exists>s'. AddKnownTypes S gv ts s = Ok s' \<and> kinds s' = (\<lambda>k. if fst k = gv \<and> snd k \<in> set ts then Some (snd k) else kinds s k)"
    and meta_only: "k \<notin> meta_kinds \<Longrightarrow> kinds (AddToGroupVersion S gv s) (gv', k) = kinds s (gv', k)"
    and fresh: "kinds (NewScheme S) = Map.empty"
    and own_names: "meta_kinds \<inter> {''ManbaIngress'', ''ManbaIngressList'', ''ManbaCluster'', ''ManbaClusterList''} = {}"
begin

abbreviation own_types :: "string list" where
  "own_types \<equiv> [''ManbaIngress'', ''ManbaIngressList'', ''ManbaCluster'', ''ManbaClusterList'']"

text \<open>The types of the repository are registered under their names, also in a scheme that has them already.\<close>

lemma registers:
  assumes "\<And>t. t \<in> set own_types \<Longrightarrow> kinds s (SchemeGroupVersion, t) \<in> {None, Some t}"
  shows "\<exists>s'. clientset_AddToScheme S s = Ok s' \<and> (\<forall>t. t \<notin> meta_kinds \<longrightarrow>
    (\<forall>gv. kinds s' (gv, t) = (if gv = SchemeGroupVersion \<and> t \<in> set own_types then Some t else kinds s (gv, t))))"
proof -
  obtain s1 where s1: "AddKnownTypes S SchemeGroupVersion own_types s = Ok s1"
      "kinds s1 = (\<lambda>k. if fst k = SchemeGroupVersion \<and> snd k \<in> set own_types then Some (snd k) else kinds s k)"
    using added[OF assms, of own_types] by blast
  have "clientset_AddToScheme S s = Ok (AddToGroupVersion S SchemeGroupVersion s1)"
    by (simp add: clientset_AddToScheme_def v1beta1_AddToScheme_def SchemeBuilder_AddToScheme_def addKnownTypes_def s1(1))
  then show ?thesis using meta_only by (auto simp: s1(2))
qed

lemma scheme_init_registers:
  "\<exists>s. scheme_init S = Ok s \<and> (\<forall>t. t \<notin> meta_kinds \<longrightarrow>
    (\<forall>gv. kinds s (gv, t) = (if gv = SchemeGroupVersion \<and> t \<in> set own_types then Some t else None)))"
proof -
  let ?s0 = "AddToGroupVersion S ([], ''v1'') (NewScheme S)"
  have none: "t \<notin> meta_kinds \<Longrightarrow> kinds ?s0 (gv, t) = None" for gv t using meta_only fresh by simp
  have "t \<notin> meta_kinds" if "t \<in> set own_types" for t using that own_names by auto
  with registers[of ?s0] none show ?thesis by (auto simp: scheme_init_def simp del: list.set split_paired_All)
qed

lemma registers_twice:
  "\<exists>s s'. scheme_init S = Ok s \<and> clientset_AddToScheme S s = Ok s' \<and> (\<forall>t. t \<notin> meta_kinds \<longrightarrow>
    (\<forall>gv. kinds s (gv, t) = (if gv = SchemeGroupVersion \<and> t \<in> set own_types then Some t else None) \<and> kinds s' (gv, t) = kinds s (gv, t)))"
proof -
  obtain s where s: "scheme_init S = Ok s"
      "\<And>t gv. t \<notin> meta_kinds \<Longrightarrow> kinds s (gv, t) = (if gv = SchemeGroupVersion \<and> t \<in> set own_types then Some t else None)"
    using scheme_init_registers by blast
  have "t \<notin> meta_kinds" if "t \<in> set own_types" for t using that own_names by auto
  then have "kinds s (SchemeGroupVersion, t) \<in> {None, Some t}" if "t \<in> set own_types" for t using that s(2)[of t] by simp
  from registers[OF this] s show ?thesis by (auto simp del: list.set split_paired_All)
qed

end

text \<open>
  Both clients of a set that \<open>NewForConfig\<close> makes wait for one rate limiter, and the configuration of the caller is used
  otherwise unchanged; \<open>NewForConfigOrDie\<close> gives each the configuration as it is, so each makes its own limiter.
\<close>

lemma clientset_NewForConfig_shares_limiter:
  assumes "clientset_NewForConfig L c n = (Ok cs, n')"
  shows "\<exists>c'. RESTClientFor L (setConfigDefaults (lib_Codecs L) (lib_UserAgent L) c') = Ok (restClient (configurationV1beta1 cs)) \<and>
    NewDiscoveryClientForConfig L c' = Ok (DiscoveryClient cs) \<and> (cfg_QPS c > 0 \<longrightarrow> cfg_RateLimiter c' \<noteq> None) \<and>
    c'\<lparr>cfg_RateLimiter := cfg_RateLimiter c\<rparr> = c"
  using assms
  by (intro exI[of _ "if cfg_RateLimiter c = None \<and> cfg_QPS c > 0 then c\<lparr>cfg_RateLimiter := Some n\<rparr> else c"])
    (auto simp: clientset_NewForConfig_def v1beta1_NewForConfig_def Let_def go_simps split: if_splits)

lemma clientset_NewForConfigOrDie_separate:
  assumes "clientset_NewForConfigOrDie L c = Ok cs"
  shows "RESTClientFor L (setConfigDefaults (lib_Codecs L) (lib_UserAgent L) c) = Ok (restClient (configurationV1beta1 cs)) \<and>
    NewDiscoveryClientForConfig L c = Ok (DiscoveryClient cs)"
proof -
  have Must_Ok: "Must r = Ok x \<longleftrightarrow> r = Ok x" for r :: "'x result" and x by (cases r) auto
  show ?thesis
    using assms by (auto simp: clientset_NewForConfigOrDie_def v1beta1_NewForConfigOrDie_def v1beta1_NewForConfig_def Let_def go_simps Must_Ok)
qed

lemma fake_RESTClient_not_nil: "fake_RESTClient \<noteq> NilInterface" "v1beta1_RESTClient None = NilInterface"
  by (simp_all add: fake_RESTClient_def v1beta1_RESTClient_def)

section \<open>A fake clientset holds its objects\<close>

text \<open>\<open>Add\<close> of the tracker puts an object under its namespace and name, and replaces one that is there.\<close>

locale tracker_add = object_tracker res om exists_err Invokes objs
  for res :: string and om :: "'o \<Rightarrow> ObjectMeta" and exists_err :: "string \<Rightarrow> go_error" and Invokes :: "('o, 's) fake" and objs :: "'s \<Rightarrow> 'o objects_view" +
  fixes Add :: "'o \<Rightarrow> 's \<Rightarrow> 's result"
  assumes adds: "\<exists>s'. Add x s = Ok s' \<and> objs s' = (objs s)((meta_Namespace (om x), meta_Name (om x)) \<mapsto> x)"
begin

lemma NewSimpleClientset_objs:
  defines "k \<equiv> \<lambda>x. (meta_Namespace (om x), meta_Name (om x))"
  shows "\<exists>s. NewSimpleClientset Add o0 xs = Ok s \<and> (\<forall>i. i \<notin> k ` set xs \<longrightarrow> objs s i = objs o0 i) \<and>
    (distinct (map k xs) \<longrightarrow> (\<forall>x\<in>set xs. objs s (k x) = Some x))"
proof (induction xs arbitrary: o0)
  case (Cons x xs)
  obtain s1 where "Add x o0 = Ok s1" "objs s1 = (objs o0)(k x \<mapsto> x)" using adds by (auto simp: k_def)
  then show ?case using Cons.IH[of s1] by (auto simp: NewSimpleClientset_def simp del: split_paired_All)
qed (simp add: NewSimpleClientset_def)

text \<open>What the set was made with is what its clients get.\<close>

lemma NewSimpleClientset_Get:
  assumes "NewSimpleClientset Add o0 xs = Ok s" and "x \<in> set xs"
    and "distinct (map (\<lambda>x. (meta_Namespace (om x), meta_Name (om x))) xs)"
  shows "fst (fake_client res selector om Invokes (meta_Namespace (om x)) (OGet (meta_Name (om x)) []) s) = ResObject x"
  using NewSimpleClientset_objs[of o0 xs] assms by (auto simp: fake_Get_def trk_get)

end

interpretation ref_add: tracker_add res om exists_error "ref_Invokes om" map_of "\<lambda>x s. Ok (ref_put (meta_Namespace (om x), meta_Name (om x)) x s)" for res om
  by unfold_locales (simp add: ref_put_def)

section \<open>A reference scheme\<close>

type_synonym ref_kinds = "((group_version \<times> string) \<times> string) list"

definition ref_meta_kinds :: "string list" where
  "ref_meta_kinds = [''WatchEvent'', ''ListOptions'', ''ExportOptions'', ''GetOptions'', ''DeleteOptions'', ''CreateOptions'', ''UpdateOptions'', ''PatchOptions'']"

fun ref_AddKnownTypes :: "group_version \<Rightarrow> string list \<Rightarrow> ref_kinds \<Rightarrow> ref_kinds result" where
  "ref_AddKnownTypes gv [] s = Ok s"
| "ref_AddKnownTypes gv (t # ts) s =
     (case map_of s (gv, t) of
        Some t' \<Rightarrow> if t' = t then ref_AddKnownTypes gv ts s else Panic ''double registration of different types''
      | None \<Rightarrow> ref_AddKnownTypes gv ts (((gv, t), t) # s))"

definition ref_scheme :: "ref_kinds scheme_lib" where
  "ref_scheme = \<lparr>AddKnownTypes = ref_AddKnownTypes, AddToGroupVersion = (\<lambda>gv s. map (\<lambda>t. ((gv, t), t)) ref_meta_kinds @ s), NewScheme = []\<rparr>"

lemma ref_AddKnownTypes_added:
  "(\<And>t. t \<in> set ts \<Longrightarrow> map_of s (gv, t) \<in> {None, Some t}) \<Longrightarrow>
   \<exists>s'. ref_AddKnownTypes gv ts s = Ok s' \<and> map_of s' = (\<lambda>k. if fst k = gv \<and> snd k \<in> set ts then Some (snd k) else map_of s k)"
proof (induction ts arbitrary: s)
  case (Cons t ts)
  show ?case
  proof (cases "map_of s (gv, t)")
    case None
    have "\<And>u. u \<in> set ts \<Longrightarrow> map_of (((gv, t), t) # s) (gv, u) \<in> {None, Some u}" using Cons.prems by auto
    from Cons.IH[OF this] None show ?thesis by (auto simp: fun_eq_iff)
  next
    case (Some t')
    then have "t' = t" using Cons.prems[of t] by simp
    have "\<And>u. u \<in> set ts \<Longrightarrow> map_of s (gv, u) \<in> {None, Some u}" using Cons.prems by auto
    from Cons.IH[OF this] Some \<open>t' = t\<close> show ?thesis by (auto simp: fun_eq_iff)
  qed
qed simp

interpretation ref_types: type_scheme ref_scheme map_of "set ref_meta_kinds"
proof
  show "set ref_meta_kinds \<inter> {''ManbaIngress'', ''ManbaIngressList'', ''ManbaCluster'', ''ManbaClusterList''} = {}"
    by (simp add: ref_meta_kinds_def)
  show "map_of (AddToGroupVersion ref_scheme gv s) (gv', k) = map_of s (gv', k)" if "k \<notin> set ref_meta_kinds" for k gv gv' s
  proof -
    have "map_of (map (\<lambda>t. ((gv, t), t)) ref_meta_kinds) (gv', k) = None"
      using that by (auto simp: map_of_eq_None_iff)
    then show ?thesis by (simp add: ref_scheme_def map_add_def)
  qed
  show "\<exists>s'. AddKnownTypes ref_scheme gv ts s = Ok s' \<and> map_of s' = (\<lambda>k. if fst k = gv \<and> snd k \<in> set ts then Some (snd k) else map_of s k)"
    if "\<And>t. t \<in> set ts \<Longrightarrow> map_of s (gv, t) \<in> {None, Some t}" for ts s gv
    using ref_AddKnownTypes_added[OF that] by (simp add: ref_scheme_def)
qed (simp add: ref_scheme_def)

text \<open>
  The scheme of the clientset knows the types of the repository, and nothing else of its own: its \<open>init\<close> does not
  panic; under the group and version of the repository each of the four names stands for the type of that name; no
  other kind, apart from those that every version has, is registered; and adding the types a second time, as
  composing clientsets does, succeeds and changes none of this.
\<close>

theorem scheme_knows_types:
  assumes "type_scheme S kinds meta_kinds"
  shows "\<exists>s s'. scheme_init S = Ok s \<and> clientset_AddToScheme S s = Ok s' \<and>
    (\<forall>t. t \<notin> meta_kinds \<longrightarrow> (\<forall>gv. kinds s (gv, t) = (if gv = (''configuration.manba.io'', ''v1beta1'') \<and>
        t \<in> set [''ManbaIngress'', ''ManbaIngressList'', ''ManbaCluster'', ''ManbaClusterList''] then Some t else None) \<and>
      kinds s' (gv, t) = kinds s (gv, t)))"
  using type_scheme.registers_twice[OF assms] unfolding SchemeGroupVersion_def .

theorem scheme_knows_types_witness:
  "\<exists>s. scheme_init ref_scheme = Ok s \<and> map_of s ((''configuration.manba.io'', ''v1beta1''), ''ManbaCluster'') = Some ''ManbaCluster''"
proof -
  have "''ManbaCluster'' \<notin> set ref_meta_kinds" by (simp add: ref_meta_kinds_def)
  with scheme_knows_types[OF ref_types.type_scheme_axioms] show ?thesis by fastforce
qed

end
