(* ===== verification/Fake_Store.thy ===== *)
theory Fake_Store
  imports Clientset
begin

text \<open>
  The store for tests (\<open>pkg/ingress/store/fake_store.go\<close>), backed by fake clients. The clients of the core resources
  are parameters, the fake client of the custom resources is that of \<open>Clientset\<close>. The loops append the address of
  the loop variable, which is one variable for all iterations in the version of Go that \<open>go.mod\<close> names (1.13), so
  what matters is what that variable holds in the end.
\<close>

section \<open>Addresses of the loop variable\<close>

text \<open>
  \<open>for _, item := range items { res = append(res, &item) }\<close>: the value of the variable after the loop, and how many
  times its address was appended.
\<close>

fun append_addresses :: "'a list \<Rightarrow> 'a option \<Rightarrow> nat \<Rightarrow> 'a option \<times> nat" where
  "append_addresses [] item n = (item, n)"
| "append_addresses (x # xs) item n = append_addresses xs (Some x) (n + 1)"

definition pointees :: "'a option \<times> nat \<Rightarrow> 'a list" where
  "pointees r = (case r of (None, n) \<Rightarrow> [] | (Some x, n) \<Rightarrow> replicate n x)"

section \<open>The store\<close>

record 's fakeStore =
  fs_Services_List :: "string \<Rightarrow> string \<Rightarrow> Service list result"
  fs_Services_Get :: "string \<Rightarrow> string \<Rightarrow> Service result"
  fs_Endpoints_Get :: "string \<Rightarrow> string \<Rightarrow> Endpoints result"
  fs_Secrets_Get :: "string \<Rightarrow> string \<Rightarrow> Secret result"
  fs_selector :: "string \<Rightarrow> ((string \<times> string) list \<Rightarrow> bool) option"
  fs_ingresses :: "(ManbaIngress, 's) fake"
  fs_clusters :: "(ManbaCluster, 's) fake"
  fs_state :: 's

definition fs_GetEndpointsForService :: "'s fakeStore \<Rightarrow> string \<Rightarrow> string \<Rightarrow> Endpoints result" where
  "fs_GetEndpointsForService f namespace name = fs_Endpoints_Get f namespace name"

definition fs_GetService :: "'s fakeStore \<Rightarrow> string \<Rightarrow> string \<Rightarrow> Service result" where
  "fs_GetService f namespace name = fs_Services_Get f namespace name"

text \<open>The label selector lists the labels in the order of the map.\<close>

fun join_labels :: "(string \<times> string) list \<Rightarrow> string" where
  "join_labels [] = []"
| "join_labels [(k, v)] = k @ ''='' @ v"
| "join_labels ((k, v) # kvs) = k @ ''='' @ v @ '','' @ join_labels kvs"

definition fs_ListServices :: "'s fakeStore \<Rightarrow> string \<Rightarrow> (string \<times> string) list \<Rightarrow> Service list result" where
  "fs_ListServices f namespace label =
     rbind (fs_Services_List f namespace (join_labels label)) (\<lambda>items. Ok (pointees (append_addresses items None 0)))"

definition fs_GetManbaIngress :: "'s fakeStore \<Rightarrow> string \<Rightarrow> string \<Rightarrow> ManbaIngress result" where
  "fs_GetManbaIngress f namespace name = fst (fake_Get ''manbaingresses'' (fs_ingresses f) namespace name (fs_state f))"

definition fs_GetManbaCluster :: "'s fakeStore \<Rightarrow> string \<Rightarrow> string \<Rightarrow> ManbaCluster result" where
  "fs_GetManbaCluster f namespace name = fst (fake_Get ''manbaclusters'' (fs_clusters f) namespace name (fs_state f))"

definition fs_ListManbaIngresses :: "'s fakeStore \<Rightarrow> ManbaIngress list result" where
  "fs_ListManbaIngresses f =
     (case fst (fake_List ''manbaingresses'' (fs_selector f) ing_Meta (fs_ingresses f) []
             \<lparr>lo_LabelSelector = [], lo_TimeoutSeconds = None, lo_Watch = False\<rparr> (fs_state f)) of
        Ok items \<Rightarrow> Ok (pointees (append_addresses items None 0))
      | Err err \<Rightarrow> Panic ''error listing''
      | Panic m \<Rightarrow> Panic m)"

definition fs_GetSecret :: "'s fakeStore \<Rightarrow> string \<Rightarrow> string \<Rightarrow> Secret result" where
  "fs_GetSecret f namespace name = fs_Secrets_Get f namespace name"

section \<open>What the lists hold\<close>

lemma append_addresses_last: "append_addresses xs item n = (if xs = [] then item else Some (last xs), n + length xs)"
  by (induction xs arbitrary: item n) auto

lemma pointees_last: "pointees (append_addresses xs None 0) = replicate (length xs) (last xs)"
  by (cases xs) (simp_all add: append_addresses_last pointees_def)

text \<open>
  The list of ingresses has as many entries as there are ingresses, and all of them are the last one the fake client
  lists; as soon as there are two ingresses, one of them is missing.
\<close>

theorem fs_ListManbaIngresses_repeats:
  assumes "object_tracker ''manbaingresses'' ing_Meta ex (fs_ingresses f) objs" and "fs_selector f [] = None \<or> fs_selector f [] = Some (\<lambda>_. True)"
  shows "\<exists>xs. lists_objects (objs (fs_state f)) (dom (objs (fs_state f))) xs \<and> fs_ListManbaIngresses f = Ok (replicate (length xs) (last xs))"
proof -
  let ?opts = "\<lparr>lo_LabelSelector = [], lo_TimeoutSeconds = None, lo_Watch = False\<rparr>"
  obtain xs where xs: "fs_ingresses f (ListAction ''manbaingresses'' [] ?opts) (fs_state f) = ((Some (FList xs), None), fs_state f)"
    "lists_objects (objs (fs_state f)) (keys_in [] (objs (fs_state f))) xs"
    using object_tracker.trk_list[OF assms(1)] by metis
  have "fs_ListManbaIngresses f = Ok (replicate (length xs) (last xs))"
    using assms(2) by (auto simp: fs_ListManbaIngresses_def fake_List_def xs(1) pointees_last)
  then show ?thesis
    using xs(2) by (auto simp: keys_in_def)
qed

end
