(* ===== verification/Spec2Isabelle.thy ===== *)
theory Spec2Isabelle
  imports Sync_Instances Loop_Liveness Http_Handlers Deep_Copy_Objects Listers API_Clients Fake_Store
begin

text \<open>
  \<^bold>\<open>Verification of the Manba ingress controller.\<close>

  \<^bold>\<open>The program.\<close> The controller (Go, \<open>src/cmd\<close> and \<open>src/pkg\<close>) keeps the configuration of a Manba API gateway equal to
  what Kubernetes objects describe. Informers watch ingresses, clusters, services, endpoints and secrets
  (\<open>pkg/cache\<close>, \<open>pkg/client\<close>) and notify event handlers (\<open>pkg/ingress/controller/event_handler.go\<close>), which send
  events to the loop of the controller; the loop enqueues them in a task queue (\<open>pkg/ingress/task\<close>) whose
  worker calls \<open>syncManbaIngress\<close>. That builds a configuration from the caches
  (\<open>pkg/ingress/store\<close>, \<open>pkg/ingress/controller/parser\<close>), puts it into a stable order, and, when its hash has changed,
  reads the configuration of the gateway (\<open>pkg/manba/dump\<close>), loads both into in-memory databases
  (\<open>pkg/manba/state\<close>), gives the new entities IDs, drops what the gateway would refuse
  (\<open>pkg/ingress/controller/manba.go\<close>), and lets a pool of goroutines apply the differences
  (\<open>pkg/manba/diff\<close>, \<open>pkg/manba/crud\<close>, \<open>pkg/manba/solver\<close>). Beside this there are the admission webhook
  (\<open>pkg/admission\<close>), the status of ingresses (\<open>pkg/ingress/status\<close>), leader election (\<open>pkg/ingress/election\<close>) and the
  command (\<open>src/cmd\<close>).

  \<^bold>\<open>Conventions\<close> (\<open>Prelude\<close>). A Go function that returns a value and an error is a function into \<open>result\<close>: \<open>Ok\<close>, \<open>Err\<close> or,
  where the code panics, \<open>Panic\<close>. Structs are records with the fields the code reads, machine integers are
  words or, where the width does not matter, integers; strings are character lists. Methods that change their
  receiver return it. Concurrency is an interleaving step relation on records of program counters and shared
  fields. Code outside the repository is a parameter: an argument of the definitions, with what its
  documentation says as the assumptions of a locale, and a reference implementation that satisfies them.

  \<^bold>\<open>The core: from two configurations to a converged gateway.\<close>

  \<^item> \<open>Metapb\<close>, \<open>Raw_State\<close>: the messages of the gateway and the raw configuration (\<open>dump/types.go\<close>); their codecs are
    the locale \<open>codecs_spec\<close>.
  \<^item> \<open>Memdb\<close>: the database go-memdb as the locale \<open>memdb_spec\<close>, with a reference database.
  \<^item> \<open>Entities\<close>, \<open>Collections\<close>, \<open>Collection_Laws\<close>, \<open>Manba_State\<close>: \<open>pkg/manba/state\<close>, the entity structs, the five collections with
    all their operations, and \<open>state_Get\<close>. \<open>Collection_Laws\<close> proves once, in the locales \<open>collection\<close> and
    \<open>named_collection\<close>, what each operation does to typed rows, and instantiates it for the five kinds by sublocales
    of \<open>manba_db\<close>.
  \<^item> \<open>Crud\<close>, \<open>Post_Laws\<close>: \<open>pkg/manba/crud\<close>, the registry, the actions on the gateway and the post actions on the state.
  \<^item> \<open>Diff\<close>: the ten loops of \<open>pkg/manba/diff\<close> and that they are silent exactly on equal states.
  \<^item> \<open>Syncer\<close>: \<open>diff.go\<close> and \<open>event_loop.go\<close> as a step relation of the main goroutine, the producer and \<open>n\<close> workers over the
    channels and the atomic counter. \<open>Sync_Invariants\<close> shows the barriers and that the 32 bit counter does not
    wrap, \<open>Sync_Events\<close> and \<open>Sync_Converge\<close> partial correctness under every interleaving, \<open>Sync_Progress\<close> that every
    execution is finite and none is stuck while nothing fails, \<open>Sync_Gateway\<close> the same for the gateway.
  \<^item> \<open>Solver\<close>, \<open>Solve_Laws\<close>, \<open>Dump\<close>, \<open>Gateway_Laws\<close>: \<open>pkg/manba/solver\<close> and \<open>pkg/manba/dump\<close>; \<open>Solve\<close> converges, is total with an
    accepting client, and never leaves a key with anything but its old or its new content.
  \<^item> \<open>Sync_Schedules\<close>, \<open>Sync_Instances\<close>: concrete schedules that the kernel executes, among them one in which \<open>Run\<close> never
    returns, and the interpretations of the contracts of a run.

  \<^bold>\<open>The controller: from Kubernetes to the gateway.\<close>

  \<^item> \<open>Crd\<close>, \<open>Parser_Types\<close>, \<open>Parser\<close>, \<open>Parser_Laws\<close>, \<open>Endpoint_Laws\<close>: the custom resources and the parser; its configurations have
    unique names, and the addresses and limits of servers are exact.
  \<^item> \<open>Controller_Sync\<close>, \<open>Controller_Laws\<close>, \<open>Controller\<close>: \<open>manba.go\<close>, with IDs that are kept, references that are never dangling,
    and \<open>OnUpdate\<close> as a refinement of ``the gateway has this configuration''.
  \<^item> \<open>Sync_Ingress\<close>: \<open>syncManbaIngress\<close>, the composition of all of the above.
  \<^item> \<open>Store\<close>, \<open>Informers\<close>, \<open>Informer_Factory\<close>: the caches, the event handlers and the factory that shares the informers. Changes
    without an event leave the configuration as it is, except where the code filters too much.
  \<^item> \<open>Task_Queue\<close>: the queue and its worker, interleaved with goroutines that enqueue; no element is lost and no call
    is redundant.
  \<^item> \<open>Control_Loop\<close>: caches, handlers, ring channel, queue, worker, \<open>syncManbaIngress\<close> and gateway as one system; once it is at
    rest the gateway holds what the caches describe. It is proved in the locale \<open>control_loop\<close> from the contract of the
    queue and that of a call, which \<open>Sync_Ingress\<close> provides.
  \<^item> \<open>Loop_Liveness\<close>: the loop comes to rest. Its steps of work use up a measure, none is missing while work is left, and
    with a gateway that accepts requests a call succeeds.

  \<^bold>\<open>Around it.\<close>

  \<^item> \<open>Admission\<close>: validator, handler and listen address; the parser drops nothing of an admitted ingress.
  \<^item> \<open>Status\<close>: addresses and updates of statuses. \<open>Election\<close>: the configuration of leader election, which excludes nobody.
  \<^item> \<open>Lifecycle\<close>: \<open>NewManbaController\<close>, \<open>Start\<close> and \<open>Stop\<close>. \<open>Command\<close>: flags, the connection to Kubernetes, \<open>main\<close>.
    \<open>Http_Handlers\<close>: the paths the command serves, and that only one of them stops it.
  \<^item> \<open>Deep_Copy\<close>, \<open>Deep_Copy_Laws\<close>, \<open>Deep_Copy_Objects\<close>: the deep copies of the custom resources on a heap of cells, where sharing
    matters, the copies through JSON, and the objects that the API machinery gets.
  \<^item> \<open>Clientset\<close>, \<open>Fake_Store\<close>: the generated typed and fake clients as requests and actions, and the store for tests.
    \<open>API_Clients\<close>: the constructors of the clientsets and the registration of the types.
  \<^item> \<open>Listers\<close>: how the informers list and watch, and the generated listers; what is read of the clusters is what the
    server stores.

  \<^bold>\<open>Bounds and fuel.\<close> Nothing runs on fuel: loops are structural recursion, folds or step relations, and the
  executions of \<open>Syncer\<close> are shown to be finite by a lexicographic measure, those of the control loop by the work that is left.
  The number of workers \<open>n\<close> is positive and \<open>n + 12 < 2 ^ 32\<close>, which covers every value of the flag in practice and keeps the counter of operations in
  flight below its width: at most \<open>n\<close> events are held by workers, ten fit into the
  channel, one is being queued, and one may be counted that was never sent.
  A spin of \<open>wait\<close> is not a step. Times are nanoseconds without a width. The ten tries of \<open>createApiserverClient\<close> are
  those of the code.

  \<^bold>\<open>Parameters and their contracts.\<close> go-memdb (\<open>memdb_spec\<close>), the protobuf codecs (\<open>codecs_spec\<close>), the client of the gateway
  (\<open>client_spec\<close>, \<open>accepting_client\<close>, \<open>gateway_spec\<close>), \<open>sort.Slice\<close> (\<open>slice_sort\<close>), the caches of client-go (\<open>informer_cache\<close>), its
  work queue (\<open>work_queue\<close>, \<open>progressing_queue\<close>), its clients (\<open>kube_status\<close>, \<open>accepting_kube\<close>, \<open>api_server\<close>, \<open>object_tracker\<close>), its leader election
  (\<open>leader_election\<close>) and its backoff (\<open>backoff\<close>), its helpers of listers (\<open>cache_lister\<close>), the schemes of the API machinery
  (\<open>type_scheme\<close>) and the tracker of its fake clients (\<open>tracker_add\<close>), JSON where it copies (\<open>json_roundtrip\<close>); elsewhere JSON, the hash, the ID generator, regular expressions and
  the iteration order of maps are arguments of the definitions that use them.

  \<^bold>\<open>Not modelled.\<close> Logging; the parameters of the HTTP server (its port and timeouts) and of the webhook server, which are
  handed to libraries; what the libraries answer to requests for metrics and profiles. The rate limiter and
  sleeps delay the code but change nothing it computes. The iteration over the addresses of an object in memory, the garbage
  collector and data races on plain fields are below the level of the model.
\<close>

end
